(* ===== verification/Prelude.thy ===== *)
theory Prelude
  imports Main "HOL-Library.Word" "HOL-Library.Signed_Division"
begin

text \<open>
  Shared vocabulary of the development.  Go functions that return a value and an \<open>error\<close>
  are functions into a sum, \<open>Inl\<close> for the error; \<open>rbind\<close> is the
  \<^verbatim>\<open>if err != nil { return err }\<close> idiom and \<open>traverse\<close> is a loop that appends one converted
  element per iteration and returns at the first error.  Go's \<open>int64\<close> is \<open>64 word\<close>, read by
  \<open>sint\<close>: sums wrap, and the guards of the source are compared with the exact integers.
  The collections \<open>res_simps\<close> and \<open>i64_simps\<close> carry the automation of the components.
\<close>

named_theorems res_simps \<open>rewriting of results: bind, traverse\<close>
named_theorems i64_simps \<open>signed readings of 64-bit words\<close>

subsection \<open>Results\<close>

fun rbind :: "'e + 'a \<Rightarrow> ('a \<Rightarrow> 'e + 'b) \<Rightarrow> 'e + 'b" where
  "rbind (Inl e) f = Inl e"
| "rbind (Inr x) f = f x"

lemma rbind_cong [fundef_cong]:
  "m = m' \<Longrightarrow> (\<And>x. m' = Inr x \<Longrightarrow> f x = f' x) \<Longrightarrow> rbind m f = rbind m' f'"
  by (cases m') auto

lemma rbind_Inr_iff [res_simps]: "rbind m f = Inr y \<longleftrightarrow> (\<exists>x. m = Inr x \<and> f x = Inr y)"
  by (cases m) auto

lemma rbind_Inl_iff [res_simps]:
  "rbind m f = Inl e \<longleftrightarrow> m = Inl e \<or> (\<exists>x. m = Inr x \<and> f x = Inl e)"
  by (cases m) auto

lemma rbind_assoc: "rbind (rbind m f) g = rbind m (\<lambda>x. rbind (f x) g)"
  by (cases m) auto

fun traverse :: "('a \<Rightarrow> 'e + 'b) \<Rightarrow> 'a list \<Rightarrow> 'e + 'b list" where
  "traverse f [] = Inr []"
| "traverse f (x # xs) = rbind (f x) (\<lambda>y. rbind (traverse f xs) (\<lambda>ys. Inr (y # ys)))"

lemma traverse_cong [fundef_cong]:
  "xs = ys \<Longrightarrow> (\<And>x. x \<in> set ys \<Longrightarrow> f x = g x) \<Longrightarrow> traverse f xs = traverse g ys"
proof (induction ys arbitrary: xs)
  case (Cons y ys)
  then show ?case by (cases "g y") auto
qed simp

lemma traverse_Inr_iff [res_simps]:
  "traverse f xs = Inr ys \<longleftrightarrow> list_all2 (\<lambda>x y. f x = Inr y) xs ys"
proof (induction xs arbitrary: ys)
  case (Cons x xs)
  then show ?case by (auto simp: rbind_Inr_iff list_all2_Cons1)
qed auto

text \<open>A failing loop fails on an element all of whose predecessors were converted.\<close>

lemma traverse_Inl:
  "traverse f xs = Inl e \<Longrightarrow>
     \<exists>i < length xs. f (xs ! i) = Inl e \<and> (\<exists>ys. traverse f (take i xs) = Inr ys)"
proof (induction xs)
  case (Cons x xs)
  show ?case
  proof (cases "f x")
    case (Inl d)
    with Cons.prems show ?thesis by (intro exI [of _ 0]) simp
  next
    case (Inr y)
    with Cons.prems have "traverse f xs = Inl e" by (auto simp: rbind_Inl_iff)
    then obtain i ys where "i < length xs" "f (xs ! i) = Inl e" "traverse f (take i xs) = Inr ys"
      using Cons.IH by blast
    with Inr show ?thesis by (intro exI [of _ "Suc i"]) simp
  qed
qed simp

lemma traverse_length: "traverse f xs = Inr ys \<Longrightarrow> length ys = length xs"
  by (auto simp: traverse_Inr_iff dest: list_all2_lengthD)

lemma traverse_nth: "traverse f xs = Inr ys \<Longrightarrow> i < length xs \<Longrightarrow> f (xs ! i) = Inr (ys ! i)"
  by (auto simp: traverse_Inr_iff dest: list_all2_nthD)

lemma traverse_total: "(\<And>x. x \<in> set xs \<Longrightarrow> f x = Inr (g x)) \<Longrightarrow> traverse f xs = Inr (map g xs)"
  by (induction xs) auto

lemma traverse_map: "traverse f (map g xs) = traverse (f \<circ> g) xs"
  by (induction xs) auto

subsection \<open>Signed 64-bit integers\<close>

type_synonym int64 = "64 word"
type_synonym uint64 = "64 word"
type_synonym int32 = "32 word"

definition max_int64 :: int64 where "max_int64 = 0x7FFFFFFFFFFFFFFF"
definition min_int64 :: int64 where "min_int64 = 0x8000000000000000"

lemma sint_max_int64 [i64_simps]: "sint max_int64 = 2 ^ 63 - 1"
  by (simp add: max_int64_def)

lemma sint_min_int64 [i64_simps]: "sint min_int64 = - (2 ^ 63)"
  by (simp add: min_int64_def)

lemma uint_max_int64 [i64_simps]: "uint max_int64 = 2 ^ 63 - 1"
  by (simp add: max_int64_def)

lemma sint64_lower: "- (2 ^ 63) \<le> sint (a :: int64)"
  using sint_ge [of a] by simp

lemma sint64_upper: "sint (a :: int64) < 2 ^ 63"
  using sint_lt [of a] by simp

lemmas sint64_bounds = sint64_lower sint64_upper

lemma sint64_add:
  "- (2 ^ 63) \<le> sint a + sint b \<Longrightarrow> sint a + sint b < 2 ^ 63 \<Longrightarrow>
   sint (a + b :: int64) = sint a + sint b"
  by (simp add: sint_word_ariths signed_take_bit_int_eq_self)

lemma sint64_sub:
  "- (2 ^ 63) \<le> sint a - sint b \<Longrightarrow> sint a - sint b < 2 ^ 63 \<Longrightarrow>
   sint (a - b :: int64) = sint a - sint b"
  by (simp add: sint_word_ariths signed_take_bit_int_eq_self)

lemma sint64_mul:
  "- (2 ^ 63) \<le> sint a * sint b \<Longrightarrow> sint a * sint b < 2 ^ 63 \<Longrightarrow>
   sint (a * b :: int64) = sint a * sint b"
  by (simp add: sint_word_ariths signed_take_bit_int_eq_self)

text \<open>
  The overflow guard the source writes before an addition,
  \<^verbatim>\<open>v > 0 && t > MaxInt64 - v || v < 0 && t < MinInt64 - v\<close>, with its subtractions wrapping.
  It rejects exactly the additions that leave the signed 64-bit range.
\<close>

definition add_guard :: "int64 \<Rightarrow> int64 \<Rightarrow> bool" where
  "add_guard t v \<longleftrightarrow> (0 <s v \<and> max_int64 - v <s t) \<or> (v <s 0 \<and> t <s min_int64 - v)"

lemma add_guard_exact:
  "\<not> add_guard t v \<longleftrightarrow> - (2 ^ 63) \<le> sint t + sint v \<and> sint t + sint v < 2 ^ 63"
proof -
  have b: "- (2 ^ 63) \<le> sint v" "sint v < 2 ^ 63" "- (2 ^ 63) \<le> sint t" "sint t < 2 ^ 63"
    by (rule sint64_lower sint64_upper)+
  have p: "sint (max_int64 - v) = 2 ^ 63 - 1 - sint v" if "0 < sint v"
    using that b by (subst sint64_sub) (auto simp: i64_simps)
  have n: "sint (min_int64 - v) = - (2 ^ 63) - sint v" if "sint v < 0"
    using that b by (subst sint64_sub) (auto simp: i64_simps)
  show ?thesis
    using b p n by (cases "0 < sint v"; cases "sint v < 0") (auto simp: add_guard_def word_sless_alt)
qed

lemma add_guard_sint: "\<not> add_guard t v \<Longrightarrow> sint (t + v) = sint t + sint v"
  by (simp add: add_guard_exact sint64_add)

subsection \<open>Widening\<close>

definition in_int64 :: "int \<Rightarrow> bool" where
  "in_int64 i \<longleftrightarrow> - (2 ^ 63) \<le> i \<and> i < 2 ^ 63"

lemma sint_in_int64 [simp]: "in_int64 (sint (v :: int64))"
  using sint64_bounds [of v] by (simp add: in_int64_def)
lemma sint_scast8 [i64_simps]: "sint (scast (x :: 8 word) :: 64 word) = sint x"
  by (rule sint_up_scast) (simp add: is_up)

lemma sint_scast16 [i64_simps]: "sint (scast (x :: 16 word) :: 64 word) = sint x"
  by (rule sint_up_scast) (simp add: is_up)

lemma sint_scast32 [i64_simps]: "sint (scast (x :: 32 word) :: 64 word) = sint x"
  by (rule sint_up_scast) (simp add: is_up)

lemma sint_eq_uint64: "uint (x :: 64 word) < 2 ^ 63 \<Longrightarrow> sint x = uint x"
proof -
  assume "uint x < 2 ^ 63"
  moreover have "- (2 ^ 63) \<le> uint x" by (rule order_trans [OF _ uint_ge_0]) simp
  ultimately show ?thesis by (simp add: sint_uint signed_take_bit_int_eq_self)
qed

lemma uint_bound8: "uint (x :: 8 word) < 256" using uint_lt2p [of x] by simp

lemma uint_bound16: "uint (x :: 16 word) < 65536" using uint_lt2p [of x] by simp

lemma uint_bound32: "uint (x :: 32 word) < 4294967296" using uint_lt2p [of x] by simp

lemma sint_bounds8: "- 128 \<le> sint (x :: 8 word)" "sint (x :: 8 word) < 128"
  using sint_ge [of x] sint_lt [of x] by simp_all

lemma sint_bounds16: "- 32768 \<le> sint (x :: 16 word)" "sint (x :: 16 word) < 32768"
  using sint_ge [of x] sint_lt [of x] by simp_all

lemma sint_bounds32: "- 2147483648 \<le> sint (x :: 32 word)" "sint (x :: 32 word) < 2147483648"
  using sint_ge [of x] sint_lt [of x] by simp_all

lemma sint_ucast8 [i64_simps]: "sint (ucast (x :: 8 word) :: 64 word) = uint x"
  using uint_bound8 [of x] by (subst sint_eq_uint64) (simp_all add: uint_up_ucast is_up)

lemma sint_ucast16 [i64_simps]: "sint (ucast (x :: 16 word) :: 64 word) = uint x"
  using uint_bound16 [of x] by (subst sint_eq_uint64) (simp_all add: uint_up_ucast is_up)

lemma sint_ucast32 [i64_simps]: "sint (ucast (x :: 32 word) :: 64 word) = uint x"
  using uint_bound32 [of x] by (subst sint_eq_uint64) (simp_all add: uint_up_ucast is_up)

lemma in_int64_widened [simp]:
  "in_int64 (sint (a :: 8 word))" "in_int64 (sint (b :: 16 word))" "in_int64 (sint (c :: 32 word))"
  "in_int64 (uint (a :: 8 word))" "in_int64 (uint (b :: 16 word))" "in_int64 (uint (c :: 32 word))"
  using sint_bounds8 [of a] sint_bounds16 [of b] sint_bounds32 [of c]
    uint_bound8 [of a] uint_bound16 [of b] uint_bound32 [of c]
    uint_ge_0 [of a] uint_ge_0 [of b] uint_ge_0 [of c]
  unfolding in_int64_def by (simp_all add: order_trans [OF _ uint_ge_0])

lemma uint64_above_int64: "max_int64 < x \<longleftrightarrow> \<not> in_int64 (uint (x :: uint64))"
proof -
  have "- (2 ^ 63) \<le> uint x" by (rule order_trans [OF _ uint_ge_0]) simp
  then show ?thesis by (auto simp: in_int64_def word_less_alt uint_max_int64)
qed

lemma sint_uint64: "in_int64 (uint (x :: uint64)) \<Longrightarrow> sint x = uint x"
  by (simp add: in_int64_def sint_eq_uint64)

subsection \<open>Truncating division\<close>

text \<open>Go's integer division truncates towards zero.\<close>

definition go_div :: "int64 \<Rightarrow> int64 \<Rightarrow> int64" where
  "go_div a b = word_of_int (sint a sdiv sint b)"
lemma sint_of_int64: "in_int64 k \<Longrightarrow> sint (word_of_int k :: int64) = k"
  by (simp add: in_int64_def sint_sbintrunc' signed_take_bit_int_eq_self)

lemma div_less_iff: "0 < m \<Longrightarrow> a div m < v \<longleftrightarrow> a < v * m" for a m v :: int
proof
  assume m: "0 < m" and "a div m < v"
  then have "(a div m + 1) * m \<le> v * m" by (intro mult_right_mono) auto
  moreover have "a < (a div m + 1) * m"
    using pos_mod_bound [OF m, of a] div_mult_mod_eq [of a m] by (simp only: distrib_right)
  ultimately show "a < v * m" by linarith
next
  assume m: "0 < m" and "a < v * m"
  moreover have "a div m * m \<le> a"
    using pos_mod_sign [OF m, of a] div_mult_mod_eq [of a m] by linarith
  ultimately have "a div m * m < v * m" by linarith
  with m show "a div m < v" by simp
qed

lemma sdiv_pos: "0 < m \<Longrightarrow> 0 \<le> a \<Longrightarrow> a sdiv m = a div m" for a m :: int
  by (simp add: signed_divide_int_def sgn_if)

lemma sdiv_neg: "0 < m \<Longrightarrow> a < 0 \<Longrightarrow> a sdiv m = - (- a div m)" for a m :: int
  by (simp add: signed_divide_int_def sgn_if)

lemma sdiv_pos_less: "0 < m \<Longrightarrow> 0 \<le> a \<Longrightarrow> a sdiv m < v \<longleftrightarrow> a < v * m" for a m v :: int
  by (simp only: sdiv_pos div_less_iff)

lemma less_sdiv_neg: "0 < m \<Longrightarrow> a < 0 \<Longrightarrow> v < a sdiv m \<longleftrightarrow> v * m < a" for a m v :: int
proof -
  assume m: "0 < m" and a: "a < 0"
  have "v < - (- a div m) \<longleftrightarrow> - a div m < - v" by linarith
  also have "\<dots> \<longleftrightarrow> v * m < a" using div_less_iff [OF m, of "- a" "- v"] by auto
  finally show ?thesis using m a by (simp only: sdiv_neg)
qed

lemma div_range: "0 < m \<Longrightarrow> 0 \<le> a \<Longrightarrow> 0 \<le> a div m \<and> a div m \<le> a" for a m :: int
  using zdiv_mono2 [of a 1 m] by (auto simp: pos_imp_zdiv_nonneg_iff)

lemma sdiv_range: "0 < m \<Longrightarrow> in_int64 a \<Longrightarrow> in_int64 (a sdiv m)" for a m :: int
  using div_range [of m a] div_range [of m "- a"]
  by (cases "0 \<le> a") (auto simp: in_int64_def sdiv_pos sdiv_neg)

lemma sint_go_div: "0 < sint m \<Longrightarrow> sint (go_div a m) = sint a sdiv sint m"
  by (simp add: go_div_def sint_of_int64 sdiv_range)

subsection \<open>Lists\<close>

lemma list_all2_same: "list_all2 P xs xs \<longleftrightarrow> (\<forall>x \<in> set xs. P x x)"
  by (induction xs) auto

lemma sum_list_nonneg_le:
  "x \<in> set xs \<Longrightarrow> (\<And>y. y \<in> set xs \<Longrightarrow> 0 \<le> y) \<Longrightarrow> x \<le> sum_list (xs :: int list)"
  by (induction xs) (auto intro: sum_list_nonneg add_increasing add_increasing2)

lemma take_append_take: "take n xs @ take (n - length xs) ys = take n (xs @ ys)"
  by simp

end
