(* ===== verification/GoErrors.thy ===== *)
theory GoErrors
  imports GoStrings
begin

text \<open>
  The error values of the driver (\<^verbatim>\<open>errors.go\<close>) and of the native layer
  (\<^verbatim>\<open>internal/native/errors.go\<close> and the \<^verbatim>\<open>Error\<close> type of \<^verbatim>\<open>internal/native/native.go\<close>).
  An error is a tree: package-level sentinels are compared by identity, a driver error carries its
  classification and an optional cause, a native error its kind, \<open>Wrapped\<close> is
  \<^verbatim>\<open>fmt.Errorf\<close> with \<^verbatim>\<open>%w\<close> and \<open>Joined\<close> is \<^verbatim>\<open>errors.Join\<close>; \<open>HarnessError\<close> is
  \<^verbatim>\<open>SQLLogicHarnessError\<close> of \<^verbatim>\<open>internal/native/sqllogictest.go\<close>.
\<close>

datatype error_type =
    ErrorConnect | ErrorPrepare | ErrorBind | ErrorExecute | ErrorScan | ErrorClosed
  | ErrorUnsupported | ErrorNative

datatype sentinel =
    ErrNativeCancelled | ErrNativeInvalidArgument | ErrNativeFailure | ErrNativePanic
  | ContextCanceled | ContextDeadlineExceeded | IoEOF | DriverErrBadConn | SqlErrConnDone

datatype go_error =
    Sentinel sentinel
  | Plain string
  | Wrapped string go_error
  | Joined "go_error list"
  | NativeError string string
  | DriverError error_type string string "go_error option"
  | HarnessError go_error

abbreviation kind_cancelled :: string where "kind_cancelled \<equiv> ''cancelled''"
abbreviation kind_invalid_argument :: string where "kind_invalid_argument \<equiv> ''invalid_argument''"
abbreviation kind_native :: string where "kind_native \<equiv> ''native''"
abbreviation kind_panic :: string where "kind_panic \<equiv> ''panic''"

subsection \<open>The native error type\<close>

fun native_error_is :: "string \<Rightarrow> sentinel \<Rightarrow> bool" where
  "native_error_is kind ContextCanceled = (kind = kind_cancelled)"
| "native_error_is kind ErrNativeCancelled = (kind = kind_cancelled)"
| "native_error_is kind ErrNativeInvalidArgument = (kind = kind_invalid_argument)"
| "native_error_is kind ErrNativeFailure = (kind = kind_native)"
| "native_error_is kind ErrNativePanic = (kind = kind_panic)"
| "native_error_is kind _ = False"

subsection \<open>Unwrapping: \<^verbatim>\<open>errors.As\<close> and \<^verbatim>\<open>errors.Is\<close>\<close>

text \<open>
  \<open>first_native\<close> is \<^verbatim>\<open>errors.As\<close> with the interface \<^verbatim>\<open>nativeKindError\<close> as target: a depth-first
  walk of the tree that stops at the first native error.  \<^verbatim>\<open>nativeKind\<close> reads its kind.
\<close>

fun first_native :: "go_error \<Rightarrow> string option" where
  "first_native (Sentinel s) = None"
| "first_native (Plain m) = None"
| "first_native (Wrapped m e) = first_native e"
| "first_native (Joined es) =
     (case filter (\<lambda>k. k \<noteq> None) (map first_native es) of [] \<Rightarrow> None | k # _ \<Rightarrow> k)"
| "first_native (NativeError k m) = Some k"
| "first_native (DriverError t k m c) = (case c of None \<Rightarrow> None | Some e \<Rightarrow> first_native e)"
| "first_native (HarnessError e) = first_native e"

definition native_kind :: "go_error option \<Rightarrow> string" where
  "native_kind cause =
     (case cause of None \<Rightarrow> ''''
      | Some e \<Rightarrow> (case first_native e of None \<Rightarrow> '''' | Some k \<Rightarrow> k))"

fun driver_error_is :: "string \<Rightarrow> sentinel \<Rightarrow> bool" where
  "driver_error_is kind ErrNativeCancelled = (kind = kind_cancelled)"
| "driver_error_is kind ErrNativeInvalidArgument = (kind = kind_invalid_argument)"
| "driver_error_is kind ErrNativeFailure = (kind = kind_native)"
| "driver_error_is kind ErrNativePanic = (kind = kind_panic)"
| "driver_error_is kind _ = False"

definition driver_error :: "error_type \<Rightarrow> string \<Rightarrow> go_error option \<Rightarrow> go_error" where
  "driver_error t message cause = DriverError t (native_kind cause) message cause"

text \<open>\<^verbatim>\<open>errors.Is\<close> for a sentinel target: identity, the \<^verbatim>\<open>Is\<close> method, then the causes.\<close>

fun errors_is :: "go_error \<Rightarrow> sentinel \<Rightarrow> bool" where
  "errors_is (Sentinel s) t = (s = t)"
| "errors_is (Plain m) t = False"
| "errors_is (Wrapped m e) t = errors_is e t"
| "errors_is (Joined es) t = list_ex (\<lambda>e. errors_is e t) es"
| "errors_is (NativeError k m) t = native_error_is k t"
| "errors_is (DriverError ty k m c) t =
     (driver_error_is k t \<or> (case c of None \<Rightarrow> False | Some e \<Rightarrow> errors_is e t))"
| "errors_is (HarnessError e) t = errors_is e t"

fun sentinel_text :: "sentinel \<Rightarrow> string" where
  "sentinel_text ErrNativeCancelled = ''datafusion native query canceled''"
| "sentinel_text ErrNativeInvalidArgument = ''datafusion native invalid argument''"
| "sentinel_text ErrNativeFailure = ''datafusion native failure''"
| "sentinel_text ErrNativePanic = ''datafusion native panic''"
| "sentinel_text ContextCanceled = ''context canceled''"
| "sentinel_text ContextDeadlineExceeded = ''context deadline exceeded''"
| "sentinel_text IoEOF = ''EOF''"
| "sentinel_text DriverErrBadConn = ''driver: bad connection''"
| "sentinel_text SqlErrConnDone = ''sql: connection is already closed''"

text \<open>The text of an error: a driver error prints its message, its cause, or both with a colon.\<close>

fun error_text :: "go_error \<Rightarrow> string" where
  "error_text (Sentinel s) = sentinel_text s"
| "error_text (Plain m) = m"
| "error_text (Wrapped m e) = m @ '': '' @ error_text e"
| "error_text (Joined es) = join_with [CHR 0x0A] (map error_text es)"
| "error_text (NativeError k m) = m"
| "error_text (DriverError t k m c) =
     (case c of None \<Rightarrow> m
      | Some e \<Rightarrow> if m = [] then error_text e else m @ '': '' @ error_text e)"
| "error_text (HarnessError e) = error_text e"

subsection \<open>Classification\<close>

fun error_type_of :: "go_error \<Rightarrow> error_type option" where
  "error_type_of (DriverError t k m c) = Some t"
| "error_type_of e = None"

lemma error_type_of_driver_error [simp]: "error_type_of (driver_error t m c) = Some t"
  by (simp add: driver_error_def)

definition native_sentinel :: "sentinel \<Rightarrow> bool" where
  "native_sentinel s \<longleftrightarrow>
     s \<in> set [ErrNativeCancelled, ErrNativeInvalidArgument, ErrNativeFailure, ErrNativePanic]"

text \<open>
  The tree never contains a driver error whose recorded kind differs from the one its cause gives:
  every driver error is made by \<open>driver_error\<close>.
\<close>

fun wf_error :: "go_error \<Rightarrow> bool" where
  "wf_error (Wrapped m e) = wf_error e"
| "wf_error (Joined es) = list_all wf_error es"
| "wf_error (HarnessError e) = wf_error e"
| "wf_error (DriverError t k m c) = (k = native_kind c \<and> (case c of None \<Rightarrow> True | Some e \<Rightarrow> wf_error e))"
| "wf_error _ = True"

lemma wf_driver_error [simp]:
  "wf_error (driver_error t m c) = (case c of None \<Rightarrow> True | Some e \<Rightarrow> wf_error e)"
  by (simp add: driver_error_def)

lemma driver_is_native_is:
  "driver_error_is k s \<longleftrightarrow> native_sentinel s \<and> native_error_is k s"
  by (cases s) (auto simp: native_sentinel_def)

lemma native_kind_Some: "first_native e = Some k \<Longrightarrow> native_kind (Some e) = k"
  by (simp add: native_kind_def)

lemma first_native_errors_is: "first_native e = Some k \<Longrightarrow> native_error_is k s \<Longrightarrow> errors_is e s"
proof (induction e rule: first_native.induct)
  case (4 es)
  then obtain ks where "filter (\<lambda>k. k \<noteq> None) (map first_native es) = Some k # ks"
    by (auto split: list.splits)
  then have "Some k \<in> set (filter (\<lambda>k. k \<noteq> None) (map first_native es))" by simp
  then obtain e where "e \<in> set es" "first_native e = Some k" by auto
  with 4 show ?case by (auto simp: list_ex_iff)
qed (auto split: option.splits)

lemma native_error_is_nonempty: "native_error_is k s \<Longrightarrow> k \<noteq> ''''"
  by (cases s) auto

lemma native_kind_errors_is:
  "native_error_is (native_kind (Some e)) s \<Longrightarrow> errors_is e s"
  using native_error_is_nonempty
  by (auto simp: native_kind_def first_native_errors_is split: option.splits)

lemma errors_is_driver_error:
  "errors_is (driver_error t m c) s \<longleftrightarrow> (\<exists>e. c = Some e \<and> errors_is e s)"
proof (cases c)
  case None
  then show ?thesis
    using native_error_is_nonempty by (auto simp: driver_error_def native_kind_def driver_is_native_is)
next
  case (Some e)
  then show ?thesis
    by (auto simp: driver_error_def driver_is_native_is dest: native_kind_errors_is)
qed

text \<open>Classifying a failure as a driver error loses and invents nothing: for every sentinel, native or of the
  standard library, \<^verbatim>\<open>errors.Is\<close> answers for the driver error what it answers for the cause,
  although the driver error decides the native ones from the kind it recorded at creation.\<close>

theorem driver_error_classification:
  "errors_is (driver_error t m (Some e)) s = errors_is e s"
  by (simp add: errors_is_driver_error)

lemma driver_error_without_cause: "\<not> errors_is (driver_error t m None) s"
  by (simp add: errors_is_driver_error)

lemma error_text_driver_error:
  "error_text (driver_error t m (Some e)) = (if m = [] then error_text e else m @ '': '' @ error_text e)"
  by (simp add: driver_error_def)

end
