(* ===== verification/ArrowModel.thy ===== *)
theory ArrowModel
  imports GoErrors
begin

text \<open>
  The Arrow data the driver inspects.  The Arrow library itself is outside the repository: what is
  fixed here is only the shape the source matches on, the type identifiers of \<^verbatim>\<open>arrow.DataType\<close>,
  the concrete array types of its type switches with their element widths (a null element is
  \<open>None\<close>), record batches and the reader the native layer returns.  A reader is the script of the
  results its \<^verbatim>\<open>Read\<close> will return; an exhausted script is \<^verbatim>\<open>io.EOF\<close>.  It logs the reads that
  consumed the script, the closes and the batches released to it, so ownership is a property of the log.
\<close>

datatype time_unit = UnitSecond | UnitMillisecond | UnitMicrosecond | UnitNanosecond

datatype arrow_type =
    TNull | TBool
  | TInt8 | TInt16 | TInt32 | TInt64 | TUint8 | TUint16 | TUint32 | TUint64
  | TFloat16 | TFloat32 | TFloat64
  | TString | TLargeString | TStringView
  | TBinary | TLargeBinary | TFixedSizeBinary nat | TBinaryView
  | TDate32 | TDate64 | TTime32 time_unit | TTime64 time_unit
  | TTimestamp time_unit string | TDuration time_unit
  | TDecimal32 int int | TDecimal64 int int | TDecimal128 int int | TDecimal256 int int
  | TMonthInterval | TDayTimeInterval | TMonthDayNanoInterval
  | TList "(string \<times> arrow_type \<times> bool) list"
  | TLargeList "(string \<times> arrow_type \<times> bool) list"
  | TFixedSizeList nat "(string \<times> arrow_type \<times> bool) list"
  | TStruct "(string \<times> arrow_type \<times> bool) list"
  | TMap "(string \<times> arrow_type \<times> bool) list"
  | TListView | TLargeListView | TSparseUnion | TDenseUnion
  | TDictionary arrow_type | TExtension string arrow_type | TRunEndEncoded

record arrow_field =
  fld_name :: string
  fld_type :: arrow_type
  fld_nullable :: bool

datatype arrow_array =
    NullArray nat
  | BooleanArray "bool option list"
  | Int8Array "8 word option list" | Int16Array "16 word option list"
  | Int32Array "32 word option list" | Int64Array "64 word option list"
  | Uint8Array "8 word option list" | Uint16Array "16 word option list"
  | Uint32Array "32 word option list" | Uint64Array "64 word option list"
  | Float16Array "16 word option list" | Float32Array "32 word option list"
  | Float64Array "64 word option list"
  | StringArray "string option list" | LargeStringArray "string option list"
  | StringViewArray "string option list"
  | BinaryArray "string option list" | LargeBinaryArray "string option list"
  | FixedSizeBinaryArray nat "string option list" | BinaryViewArray "string option list"
  | Date32Array "32 word option list" | Date64Array "64 word option list"
  | Time32Array time_unit "32 word option list" | Time64Array time_unit "64 word option list"
  | TimestampArray time_unit string "64 word option list"
  | DurationArray time_unit "64 word option list"
  | Decimal32Array int int "int option list" | Decimal64Array int int "int option list"
  | Decimal128Array int int "int option list" | Decimal256Array int int "int option list"
  | MonthIntervalArray "32 word option list"
  | DayTimeIntervalArray "(32 word \<times> 32 word) option list"
  | MonthDayNanoIntervalArray "(32 word \<times> 32 word \<times> 64 word) option list"
  | OtherArray arrow_type "unit option list"

text \<open>\<^verbatim>\<open>Len\<close>, \<^verbatim>\<open>IsNull\<close> and \<^verbatim>\<open>DataType\<close>.  A null array keeps no validity bitmap: \<^verbatim>\<open>IsNull\<close> is false on it.\<close>

fun null_mask :: "arrow_array \<Rightarrow> bool list" where
  "null_mask (NullArray n) = replicate n False"
| "null_mask (BooleanArray xs) = map Option.is_none xs"
| "null_mask (Int8Array xs) = map Option.is_none xs"
| "null_mask (Int16Array xs) = map Option.is_none xs"
| "null_mask (Int32Array xs) = map Option.is_none xs"
| "null_mask (Int64Array xs) = map Option.is_none xs"
| "null_mask (Uint8Array xs) = map Option.is_none xs"
| "null_mask (Uint16Array xs) = map Option.is_none xs"
| "null_mask (Uint32Array xs) = map Option.is_none xs"
| "null_mask (Uint64Array xs) = map Option.is_none xs"
| "null_mask (Float16Array xs) = map Option.is_none xs"
| "null_mask (Float32Array xs) = map Option.is_none xs"
| "null_mask (Float64Array xs) = map Option.is_none xs"
| "null_mask (StringArray xs) = map Option.is_none xs"
| "null_mask (LargeStringArray xs) = map Option.is_none xs"
| "null_mask (StringViewArray xs) = map Option.is_none xs"
| "null_mask (BinaryArray xs) = map Option.is_none xs"
| "null_mask (LargeBinaryArray xs) = map Option.is_none xs"
| "null_mask (FixedSizeBinaryArray w xs) = map Option.is_none xs"
| "null_mask (BinaryViewArray xs) = map Option.is_none xs"
| "null_mask (Date32Array xs) = map Option.is_none xs"
| "null_mask (Date64Array xs) = map Option.is_none xs"
| "null_mask (Time32Array u xs) = map Option.is_none xs"
| "null_mask (Time64Array u xs) = map Option.is_none xs"
| "null_mask (TimestampArray u tz xs) = map Option.is_none xs"
| "null_mask (DurationArray u xs) = map Option.is_none xs"
| "null_mask (Decimal32Array p s xs) = map Option.is_none xs"
| "null_mask (Decimal64Array p s xs) = map Option.is_none xs"
| "null_mask (Decimal128Array p s xs) = map Option.is_none xs"
| "null_mask (Decimal256Array p s xs) = map Option.is_none xs"
| "null_mask (MonthIntervalArray xs) = map Option.is_none xs"
| "null_mask (DayTimeIntervalArray xs) = map Option.is_none xs"
| "null_mask (MonthDayNanoIntervalArray xs) = map Option.is_none xs"
| "null_mask (OtherArray t xs) = map Option.is_none xs"

definition arr_len :: "arrow_array \<Rightarrow> nat" where "arr_len a = length (null_mask a)"

fun arr_type :: "arrow_array \<Rightarrow> arrow_type" where
  "arr_type (NullArray n) = TNull"
| "arr_type (BooleanArray xs) = TBool"
| "arr_type (Int8Array xs) = TInt8"
| "arr_type (Int16Array xs) = TInt16"
| "arr_type (Int32Array xs) = TInt32"
| "arr_type (Int64Array xs) = TInt64"
| "arr_type (Uint8Array xs) = TUint8"
| "arr_type (Uint16Array xs) = TUint16"
| "arr_type (Uint32Array xs) = TUint32"
| "arr_type (Uint64Array xs) = TUint64"
| "arr_type (Float16Array xs) = TFloat16"
| "arr_type (Float32Array xs) = TFloat32"
| "arr_type (Float64Array xs) = TFloat64"
| "arr_type (StringArray xs) = TString"
| "arr_type (LargeStringArray xs) = TLargeString"
| "arr_type (StringViewArray xs) = TStringView"
| "arr_type (BinaryArray xs) = TBinary"
| "arr_type (LargeBinaryArray xs) = TLargeBinary"
| "arr_type (FixedSizeBinaryArray w xs) = TFixedSizeBinary w"
| "arr_type (BinaryViewArray xs) = TBinaryView"
| "arr_type (Date32Array xs) = TDate32"
| "arr_type (Date64Array xs) = TDate64"
| "arr_type (Time32Array u xs) = TTime32 u"
| "arr_type (Time64Array u xs) = TTime64 u"
| "arr_type (TimestampArray u tz xs) = TTimestamp u tz"
| "arr_type (DurationArray u xs) = TDuration u"
| "arr_type (Decimal32Array p s xs) = TDecimal32 p s"
| "arr_type (Decimal64Array p s xs) = TDecimal64 p s"
| "arr_type (Decimal128Array p s xs) = TDecimal128 p s"
| "arr_type (Decimal256Array p s xs) = TDecimal256 p s"
| "arr_type (MonthIntervalArray xs) = TMonthInterval"
| "arr_type (DayTimeIntervalArray xs) = TDayTimeInterval"
| "arr_type (MonthDayNanoIntervalArray xs) = TMonthDayNanoInterval"
| "arr_type (OtherArray t xs) = t"

record batch =
  bt_id :: nat
  bt_fields :: "arrow_field list"
  bt_cols :: "arrow_array list"
  bt_rows :: nat

text \<open>A batch as the Arrow library builds it: one column per field, of the field's type and of the row count.\<close>

definition wf_batch :: "batch \<Rightarrow> bool" where
  "wf_batch b \<longleftrightarrow> length (bt_cols b) = length (bt_fields b) \<and>
     list_all2 (\<lambda>f c. arr_type c = fld_type f \<and> arr_len c = bt_rows b) (bt_fields b) (bt_cols b)"

record arrow_reader =
  rd_schema :: "arrow_field list option"
  rd_script :: "(go_error + batch) list"
  rd_reads :: nat
  rd_closes :: nat
  rd_released :: "nat list"

definition reader_read :: "arrow_reader \<Rightarrow> (go_error + batch) \<times> arrow_reader" where
  "reader_read r =
     (case rd_script r of [] \<Rightarrow> (Inl (Sentinel IoEOF), r)
      | x # xs \<Rightarrow> (x, r\<lparr>rd_script := xs, rd_reads := rd_reads r + 1\<rparr>))"

definition reader_release :: "batch \<Rightarrow> arrow_reader \<Rightarrow> arrow_reader" where
  "reader_release b r = r\<lparr>rd_released := rd_released r @ [bt_id b]\<rparr>"

definition close_reader :: "arrow_reader \<Rightarrow> arrow_reader" where
  "close_reader r = r\<lparr>rd_script := [], rd_closes := rd_closes r + 1\<rparr>"

lemma reader_read_simps:
  "rd_script r = [] \<Longrightarrow> reader_read r = (Inl (Sentinel IoEOF), r)"
  "rd_script r = x # xs \<Longrightarrow> reader_read r = (x, r\<lparr>rd_script := xs, rd_reads := rd_reads r + 1\<rparr>)"
  by (simp_all add: reader_read_def)

text \<open>The batches a run of reads handed out: those consumed between two states of a script.\<close>

definition script_batches :: "(go_error + batch) list \<Rightarrow> batch list" where
  "script_batches s = concat (map (\<lambda>x. case x of Inl _ \<Rightarrow> [] | Inr b \<Rightarrow> [b]) s)"

lemma script_batches_simps [simp]:
  "script_batches [] = []"
  "script_batches (Inl e # s) = script_batches s"
  "script_batches (Inr b # s) = b # script_batches s"
  "script_batches (s @ t) = script_batches s @ script_batches t"
  by (simp_all add: script_batches_def)

lemma script_batches_Inr [simp]: "script_batches (map Inr bs) = bs"
  by (induction bs) auto

text \<open>
  Between two states of a reader, the reads consumed a prefix of the script, every batch of that
  prefix was released, in order, and the reader was not closed.
\<close>

definition reads_released :: "arrow_reader \<Rightarrow> arrow_reader \<Rightarrow> bool" where
  "reads_released r s \<longleftrightarrow>
     (\<exists>p. rd_script r = p @ rd_script s \<and> rd_reads s = rd_reads r + length p \<and>
          rd_released s = rd_released r @ map bt_id (script_batches p) \<and> rd_closes s = rd_closes r)"

lemma reads_released_refl [simp, intro]: "reads_released r r"
  by (simp add: reads_released_def)

lemma reads_released_error:
  "rd_script r = Inl e # xs \<Longrightarrow> reads_released r (r\<lparr>rd_script := xs, rd_reads := rd_reads r + 1\<rparr>)"
  by (auto simp: reads_released_def intro!: exI [of _ "[Inl e]"])

lemma reads_released_batch:
  "rd_script r = Inr b # xs \<Longrightarrow>
   reads_released r (reader_release b (r\<lparr>rd_script := xs, rd_reads := rd_reads r + 1\<rparr>))"
  by (auto simp: reads_released_def reader_release_def intro!: exI [of _ "[Inr b]"])

lemma reads_released_trans: "reads_released r s \<Longrightarrow> reads_released s t \<Longrightarrow> reads_released r t"
  by (fastforce simp: reads_released_def)

end
