(* ===== verification/ExecResult.thy ===== *)
theory ExecResult
  imports ArrowModel
begin

text \<open>
  \<^verbatim>\<open>result.go\<close>: an executed statement is drained for its affected-row count.  A result whose first
  batch is one integer column named like a count is summed over all batches in checked 64-bit
  arithmetic; any other result is dropped at its first batch with the count 0.
\<close>

subsection \<open>Integer columns\<close>

fun integer_value :: "arrow_array \<Rightarrow> nat \<Rightarrow> go_error + int64" where
  "integer_value (Int8Array xs) row = Inr (scast (the (xs ! row)))"
| "integer_value (Int16Array xs) row = Inr (scast (the (xs ! row)))"
| "integer_value (Int32Array xs) row = Inr (scast (the (xs ! row)))"
| "integer_value (Int64Array xs) row = Inr (the (xs ! row))"
| "integer_value (Uint8Array xs) row = Inr (ucast (the (xs ! row)))"
| "integer_value (Uint16Array xs) row = Inr (ucast (the (xs ! row)))"
| "integer_value (Uint32Array xs) row = Inr (ucast (the (xs ! row)))"
| "integer_value (Uint64Array xs) row =
     (if max_int64 < the (xs ! row) then Inl (Plain ''count value exceeds int64 range'')
      else Inr (the (xs ! row)))"
| "integer_value a row = Inl (Plain ''count column has non-integer Arrow type'')"

fun sum_integer_rows :: "arrow_array \<Rightarrow> nat list \<Rightarrow> int64 \<Rightarrow> go_error + int64 \<times> bool" where
  "sum_integer_rows a [] tot = Inr (tot, True)"
| "sum_integer_rows a (row # rows) tot =
     (if null_mask a ! row then sum_integer_rows a rows tot
      else (case integer_value a row of
          Inl e \<Rightarrow> Inl e
        | Inr v \<Rightarrow>
            if 0 <s v \<and> max_int64 - v <s tot then Inl (Plain ''count column overflowed int64'')
            else if v <s 0 \<and> tot <s min_int64 - v then Inl (Plain ''count column overflowed int64'')
            else sum_integer_rows a rows (tot + v)))"

definition sum_integer_array :: "arrow_array \<Rightarrow> go_error + int64 \<times> bool" where
  "sum_integer_array a = sum_integer_rows a [0..<arr_len a] 0"

definition is_rows_affected_column :: "string \<Rightarrow> bool" where
  "is_rows_affected_column name \<longleftrightarrow>
     to_lower name \<in> set [''count'', ''rows_affected'', ''rowsaffected'']"

definition rows_affected_from_record :: "batch \<Rightarrow> go_error + int64 \<times> bool" where
  "rows_affected_from_record rec =
     (if length (bt_cols rec) \<noteq> 1 then Inr (0, False)
      else if \<not> is_rows_affected_column (fld_name (bt_fields rec ! 0)) then Inr (0, False)
      else sum_integer_array (bt_cols rec ! 0))"

subsection \<open>Draining the reader\<close>

text \<open>
  The loop of \<^verbatim>\<open>execResult\<close>: the accumulator \<open>n\<close> is \<^verbatim>\<open>rowsAffected\<close>, \<open>mode\<close> is \<^verbatim>\<open>None\<close> before the first
  batch and then the flag \<^verbatim>\<open>countResult\<close> that batch fixed.
\<close>

function exec_loop ::
  "arrow_reader \<Rightarrow> int64 \<Rightarrow> bool option \<Rightarrow> (go_error + int64) \<times> arrow_reader" where
  "exec_loop r n mode =
     (case reader_read r of
        (Inl err, r1) \<Rightarrow>
          (if err = Sentinel IoEOF then (Inr n, r1)
           else (Inl (driver_error ErrorExecute ''could not execute DataFusion statement'' (Some err)), r1))
      | (Inr rec, r1) \<Rightarrow>
          (let r2 = reader_release rec r1 in
           case rows_affected_from_record rec of
             Inl err \<Rightarrow>
               (Inl (driver_error ErrorExecute ''could not read DataFusion rows affected count'' (Some err)), r2)
           | Inr (count, ok) \<Rightarrow>
               (let countResult = (case mode of None \<Rightarrow> ok | Some c \<Rightarrow> c) in
                if \<not> countResult then (Inr 0, r2)
                else if \<not> ok then exec_loop r2 n (Some countResult)
                else if 0 <s count \<and> max_int64 - count <s n
                then (Inl (driver_error ErrorExecute ''DataFusion rows affected count overflowed int64'' None), r2)
                else if count <s 0 \<and> n <s min_int64 - count
                then (Inl (driver_error ErrorExecute ''DataFusion rows affected count overflowed int64'' None), r2)
                else exec_loop r2 (n + count) (Some countResult))))"
  by pat_completeness auto
termination
  by (relation "measure (\<lambda>(r, n, mode). length (rd_script r))")
     (auto simp: reader_read_def reader_release_def split: list.splits)

declare exec_loop.simps [simp del]

definition exec_result :: "arrow_reader \<Rightarrow> (go_error + int64) \<times> arrow_reader" where
  "exec_result r = (case exec_loop r 0 None of (res, r1) \<Rightarrow> (res, close_reader r1))"

subsection \<open>Exact sums\<close>

text \<open>
  The specification works on unbounded integers: the readings of the non-null elements, and a
  running sum that is rejected as soon as it leaves the signed 64-bit range.
\<close>

fun int_readings :: "arrow_array \<Rightarrow> int list option" where
  "int_readings (Int8Array xs) = Some (map sint (List.map_filter id xs))"
| "int_readings (Int16Array xs) = Some (map sint (List.map_filter id xs))"
| "int_readings (Int32Array xs) = Some (map sint (List.map_filter id xs))"
| "int_readings (Int64Array xs) = Some (map sint (List.map_filter id xs))"
| "int_readings (Uint8Array xs) = Some (map uint (List.map_filter id xs))"
| "int_readings (Uint16Array xs) = Some (map uint (List.map_filter id xs))"
| "int_readings (Uint32Array xs) = Some (map uint (List.map_filter id xs))"
| "int_readings (Uint64Array xs) = Some (map uint (List.map_filter id xs))"
| "int_readings a = None"

fun running_sum :: "int \<Rightarrow> int list \<Rightarrow> int option" where
  "running_sum acc [] = Some acc"
| "running_sum acc (x # xs) =
     (if in_int64 x \<and> in_int64 (acc + x) then running_sum (acc + x) xs else None)"

lemma running_sum_exact: "running_sum acc xs = Some t \<Longrightarrow> t = acc + sum_list xs"
  by (induction xs arbitrary: acc) (force split: if_splits)+

lemma running_sum_range: "running_sum acc xs = Some t \<Longrightarrow> in_int64 acc \<Longrightarrow> in_int64 t"
  by (induction xs arbitrary: acc) (auto split: if_splits)

lemma running_sum_nonneg:
  assumes "\<And>x. x \<in> set xs \<Longrightarrow> 0 \<le> x" and "0 \<le> acc" and "acc + sum_list xs < 2 ^ 63"
  shows "running_sum acc xs = Some (acc + sum_list xs)"
  using assms
proof (induction xs arbitrary: acc)
  case (Cons x xs)
  then have x: "0 \<le> x" "0 \<le> sum_list xs" by (auto intro: sum_list_nonneg)
  have "x < 2 ^ 63" "acc + x < 2 ^ 63" using Cons.prems(2,3) x by auto
  with Cons.prems(2) x have "in_int64 x" "in_int64 (acc + x)" unfolding in_int64_def by linarith+
  moreover have "running_sum (acc + x) xs = Some (acc + x + sum_list xs)"
    using Cons.prems x by (intro Cons.IH) auto
  ultimately show ?case by simp
qed simp

text \<open>The code's checked sum against the running sum of exact readings.\<close>

definition sum_matches :: "go_error + int64 \<times> bool \<Rightarrow> int option \<Rightarrow> bool" where
  "sum_matches res spec =
     (case spec of Some t \<Rightarrow> (\<exists>v. res = Inr (v, True) \<and> sint v = t) | None \<Rightarrow> (\<exists>e. res = Inl e))"

lemma sum_integer_rows_matches:
  assumes "\<And>i. i \<in> set rows \<Longrightarrow> \<not> null_mask a ! i \<Longrightarrow>
    (if in_int64 (rd i) then \<exists>v. integer_value a i = Inr v \<and> sint v = rd i
     else \<exists>e. integer_value a i = Inl e)"
  shows "sum_matches (sum_integer_rows a rows tot)
           (running_sum (sint tot) (map rd (filter (\<lambda>i. \<not> null_mask a ! i) rows)))"
  using assms
proof (induction rows arbitrary: tot)
  case Nil
  then show ?case by (simp add: sum_matches_def)
next
  case (Cons row rows)
  have IH: "sum_matches (sum_integer_rows a rows t)
      (running_sum (sint t) (map rd (filter (\<lambda>i. \<not> null_mask a ! i) rows)))" for t
    using Cons by simp
  show ?case
  proof (cases "null_mask a ! row")
    case True
    with IH show ?thesis by simp
  next
    case False
    with Cons.prems have val: "if in_int64 (rd row)
        then \<exists>v. integer_value a row = Inr v \<and> sint v = rd row else \<exists>e. integer_value a row = Inl e"
      by simp
    show ?thesis
    proof (cases "in_int64 (rd row)")
      case True
      with val obtain v where v: "integer_value a row = Inr v" "sint v = rd row" by auto
      have guard: "\<not> add_guard tot v \<longleftrightarrow> in_int64 (sint tot + rd row)"
        using v(2) by (simp add: add_guard_exact in_int64_def)
      show ?thesis
      proof (cases "add_guard tot v")
        case True
        then show ?thesis
          using \<open>\<not> null_mask a ! row\<close> v guard by (auto simp: sum_matches_def add_guard_def)
      next
        case False
        then have "sint (tot + v) = sint tot + rd row" by (simp add: add_guard_sint v(2))
        with IH [of "tot + v"] False show ?thesis
          using \<open>\<not> null_mask a ! row\<close> v guard \<open>in_int64 (rd row)\<close> by (auto simp: add_guard_def)
      qed
    next
      case False
      with val \<open>\<not> null_mask a ! row\<close> show ?thesis by (auto simp: sum_matches_def)
    qed
  qed
qed

lemma map_filter_nth:
  "map (\<lambda>i. f (the (xs ! i))) (filter (\<lambda>i. \<not> Option.is_none (xs ! i)) [0..<length xs]) =
   map f (List.map_filter id xs)"
proof -
  have "List.map_filter id xs = map the (filter (\<lambda>x. x \<noteq> None) (map (\<lambda>i. xs ! i) [0..<length xs]))"
    by (simp add: List.map_filter_def map_nth)
  then show ?thesis by (simp add: filter_map o_def Option.is_none_def)
qed

lemma sum_integer_array_core:
  assumes mask: "null_mask a = map Option.is_none xs"
    and val: "\<And>i x. i < length xs \<Longrightarrow> xs ! i = Some x \<Longrightarrow>
      (if in_int64 (f x) then \<exists>v. integer_value a i = Inr v \<and> sint v = f x
       else \<exists>e. integer_value a i = Inl e)"
  shows "sum_matches (sum_integer_array a) (running_sum 0 (map f (List.map_filter id xs)))"
proof -
  have "sum_matches (sum_integer_rows a [0..<arr_len a] 0)
      (running_sum (sint (0 :: int64))
        (map (\<lambda>i. f (the (xs ! i))) (filter (\<lambda>i. \<not> null_mask a ! i) [0..<arr_len a])))"
    using val by (intro sum_integer_rows_matches) (force simp: mask arr_len_def Option.is_none_def)
  moreover have "filter (\<lambda>i. \<not> null_mask a ! i) [0..<arr_len a] =
      filter (\<lambda>i. \<not> Option.is_none (xs ! i)) [0..<length xs]"
    by (auto simp: mask arr_len_def intro!: filter_cong)
  ultimately show ?thesis by (simp add: sum_integer_array_def map_filter_nth)
qed

lemma sum_integer_array_matches:
  "int_readings a = Some rs \<Longrightarrow> sum_matches (sum_integer_array a) (running_sum 0 rs)"
  by (cases a)
     (auto intro!: sum_integer_array_core simp: i64_simps uint64_above_int64 sint_uint64)

subsection \<open>The count of a statement\<close>

text \<open>
  A count batch has one integer column named like a count.  The count of a statement adds up its
  batches, each batch first.
\<close>

definition count_batch :: "batch \<Rightarrow> int list \<Rightarrow> bool" where
  "count_batch b rs \<longleftrightarrow> length (bt_cols b) = 1 \<and>
     is_rows_affected_column (fld_name (bt_fields b ! 0)) \<and> int_readings (bt_cols b ! 0) = Some rs"

fun batch_sums :: "int \<Rightarrow> int list list \<Rightarrow> int option" where
  "batch_sums acc [] = Some acc"
| "batch_sums acc (rs # rss) =
     (case running_sum 0 rs of None \<Rightarrow> None
      | Some t \<Rightarrow> if in_int64 (acc + t) then batch_sums (acc + t) rss else None)"

lemma batch_sums_exact: "batch_sums acc rss = Some t \<Longrightarrow> t = acc + sum_list (concat rss)"
  by (induction rss arbitrary: acc)
     (force split: option.splits if_splits dest: running_sum_exact)+

lemma batch_sums_nonneg:
  assumes "\<forall>x \<in> set (concat rss). 0 \<le> x" and "0 \<le> acc" and "acc + sum_list (concat rss) < 2 ^ 63"
  shows "batch_sums acc rss = Some (acc + sum_list (concat rss))"
  using assms
proof (induction rss arbitrary: acc)
  case (Cons rs rss)
  then have s: "0 \<le> sum_list rs" "0 \<le> sum_list (concat rss)" by (auto intro!: sum_list_nonneg)
  then have "running_sum 0 rs = Some (sum_list rs)"
    using Cons.prems running_sum_nonneg [of rs 0] by auto
  moreover have "in_int64 (acc + sum_list rs)"
    using Cons.prems(2,3) s unfolding in_int64_def by auto
  moreover have "batch_sums (acc + sum_list rs) rss = Some (acc + sum_list rs + sum_list (concat rss))"
    using Cons.prems s by (intro Cons.IH) auto
  ultimately show ?case by simp
qed simp

lemma count_batch_matches:
  "count_batch b rs \<Longrightarrow> sum_matches (rows_affected_from_record b) (running_sum 0 rs)"
  by (auto simp: count_batch_def rows_affected_from_record_def intro: sum_integer_array_matches)

definition result_matches :: "go_error + int64 \<Rightarrow> int option \<Rightarrow> bool" where
  "result_matches res spec =
     (case spec of Some t \<Rightarrow> (\<exists>v. res = Inr v \<and> sint v = t)
      | None \<Rightarrow> (\<exists>e. res = Inl e \<and> error_type_of e = Some ErrorExecute))"

lemma exec_loop_counts:
  assumes "rd_script r = map Inr bs" and "list_all2 count_batch bs rss" and "mode \<noteq> Some False"
  shows "result_matches (fst (exec_loop r n mode)) (batch_sums (sint n) rss)"
  using assms
proof (induction bs arbitrary: rss r n mode)
  case Nil
  then show ?case by (simp add: exec_loop.simps reader_read_def result_matches_def)
next
  case (Cons b bs)
  then obtain rs rss' where rss: "rss = rs # rss'" "count_batch b rs" "list_all2 count_batch bs rss'"
    by (auto simp: list_all2_Cons1)
  let ?r = "reader_release b (r\<lparr>rd_script := map Inr bs, rd_reads := rd_reads r + 1\<rparr>)"
  have read: "reader_read r = (Inr b, r\<lparr>rd_script := map Inr bs, rd_reads := rd_reads r + 1\<rparr>)"
    using Cons.prems by (simp add: reader_read_def)
  have m: "sum_matches (rows_affected_from_record b) (running_sum 0 rs)"
    using rss by (intro count_batch_matches)
  show ?case
  proof (cases "running_sum 0 rs")
    case None
    with m read rss show ?thesis
      by (auto simp: exec_loop.simps [of r] sum_matches_def result_matches_def)
  next
    case (Some t)
    with m obtain v where v: "rows_affected_from_record b = Inr (v, True)" "sint v = t"
      by (auto simp: sum_matches_def)
    have cr: "(case mode of None \<Rightarrow> True | Some c \<Rightarrow> c)"
      using Cons.prems(3) by (auto split: option.splits)
    have guard: "add_guard n v \<longleftrightarrow> \<not> in_int64 (sint n + t)"
      using v(2) add_guard_exact [of n v] by (auto simp: in_int64_def)
    show ?thesis
    proof (cases "add_guard n v")
      case True
      with read v rss Some cr guard show ?thesis
        by (auto simp: exec_loop.simps [of r] result_matches_def add_guard_def Let_def)
    next
      case False
      have "result_matches (fst (exec_loop ?r (n + v) (Some True))) (batch_sums (sint (n + v)) rss')"
        using rss by (intro Cons.IH) (auto simp: reader_release_def)
      with False read v rss Some cr guard show ?thesis
        by (auto simp: exec_loop.simps [of r] add_guard_sint add_guard_def)
    qed
  qed
qed

lemma exec_result_fst: "fst (exec_result r) = fst (exec_loop r 0 None)"
  by (simp add: exec_result_def split: prod.splits)

lemma exec_result_counts:
  "rd_script r = map Inr bs \<Longrightarrow> list_all2 count_batch bs rss \<Longrightarrow>
   result_matches (fst (exec_result r)) (batch_sums 0 rss)"
  using exec_loop_counts [of r bs rss None 0] by (simp add: exec_result_fst)

text \<open>C6: when a statement's result is a run of count batches, the reported number of affected rows is the
  exact sum of every non-null count of every batch, and it is always reported when no count is
  negative and the exact sum fits a signed 64-bit integer; otherwise the execution fails.\<close>

theorem exec_result_exact_count:
  assumes "rd_script r = map Inr bs" and "list_all2 count_batch bs rss"
  shows "(case fst (exec_result r) of
            Inr n \<Rightarrow> sint n = sum_list (concat rss)
          | Inl e \<Rightarrow> error_type_of e = Some ErrorExecute \<and>
              ((\<exists>x \<in> set (concat rss). x < 0) \<or> 2 ^ 63 \<le> sum_list (concat rss)))"
proof -
  have m: "result_matches (fst (exec_result r)) (batch_sums 0 rss)"
    using assms by (rule exec_result_counts)
  show ?thesis
  proof (cases "batch_sums 0 rss")
    case None
    then have "\<not> ((\<forall>x \<in> set (concat rss). 0 \<le> x) \<and> sum_list (concat rss) < 2 ^ 63)"
      using batch_sums_nonneg [of rss 0] by auto
    then have "(\<exists>x \<in> set (concat rss). x < 0) \<or> 2 ^ 63 \<le> sum_list (concat rss)"
      by (meson not_le)
    with m None show ?thesis unfolding result_matches_def by (auto simp del: set_concat)
  next
    case (Some t)
    with m batch_sums_exact [OF Some] show ?thesis by (auto simp: result_matches_def)
  qed
qed

theorem exec_result_exact_count_witness:
  "\<exists>n. fst (exec_result \<lparr>rd_schema = None,
      rd_script = map Inr [\<lparr>bt_id = 1, bt_fields = [\<lparr>fld_name = ''Count'', fld_type = TUint64, fld_nullable = False\<rparr>],
        bt_cols = [Uint64Array [Some 3, None, Some 4]], bt_rows = 3\<rparr>],
      rd_reads = 0, rd_closes = 0, rd_released = []\<rparr>) = Inr n \<and> sint n = 7"
  (is "\<exists>n. fst (exec_result ?r) = Inr n \<and> _")
proof -
  let ?b = "\<lparr>bt_id = 1, bt_fields = [\<lparr>fld_name = ''Count'', fld_type = TUint64, fld_nullable = False\<rparr>],
        bt_cols = [Uint64Array [Some 3, None, Some 4]], bt_rows = 3\<rparr>"
  have "is_rows_affected_column ''Count''" by code_simp
  then have "list_all2 count_batch [?b] [[3, 4]]"
    by (simp add: count_batch_def List.map_filter_def)
  from exec_result_exact_count [OF _ this, of ?r]
  show ?thesis by (simp split: sum.splits)
qed

subsection \<open>Ownership\<close>

lemma exec_loop_releases: "exec_loop r n mode = (res, r1) \<Longrightarrow> reads_released r r1"
proof (induction "length (rd_script r)" arbitrary: r n mode res r1 rule: less_induct)
  case less
  show ?case
  proof (cases "rd_script r")
    case Nil
    with less.prems show ?thesis by (simp add: exec_loop.simps [of r] reader_read_def)
  next
    case (Cons x xs)
    let ?q = "r\<lparr>rd_script := xs, rd_reads := rd_reads r + 1\<rparr>"
    have read: "reader_read r = (x, ?q)" using Cons by (simp add: reader_read_def)
    show ?thesis
    proof (cases x)
      case (Inl e)
      with less.prems read Cons show ?thesis
        by (auto simp: exec_loop.simps [of r] dest: reads_released_error split: if_splits)
    next
      case (Inr rec)
      let ?s = "reader_release rec ?q"
      have step: "reads_released r ?s"
        using Cons Inr by (intro reads_released_batch) simp
      have IH: "exec_loop ?s m c = (res, r1) \<Longrightarrow> reads_released ?s r1" for m c
        using Cons by (intro less.hyps) (auto simp: reader_release_def)
      have "r1 = ?s \<or> (\<exists>m c. exec_loop ?s m c = (res, r1))"
        using less.prems read Inr
        by (auto simp: exec_loop.simps [of r] Let_def split: sum.splits prod.splits if_splits)
      with step IH show ?thesis by (auto intro: reads_released_trans)
    qed
  qed
qed

text \<open>Whatever a statement returns, executing it closes its reader exactly once and releases exactly the
  batches it read, each once and in order: no batch and no native stream outlives the call.\<close>

theorem exec_result_ownership:
  "rd_closes (snd (exec_result r)) = rd_closes r + 1 \<and>
   rd_released (snd (exec_result r)) = rd_released r @
     map bt_id (script_batches (take (rd_reads (snd (exec_result r)) - rd_reads r) (rd_script r)))"
proof -
  obtain res r1 where l: "exec_loop r 0 None = (res, r1)" by fastforce
  then have "reads_released r r1" by (rule exec_loop_releases)
  with l show ?thesis by (auto simp: exec_result_def close_reader_def reads_released_def)
qed

text \<open>A result that is not a count is dropped at its first batch.\<close>

lemma exec_result_not_a_count:
  assumes "rd_script r = Inr b # xs" and "rows_affected_from_record b = Inr (c, False)"
  shows "fst (exec_result r) = Inr 0"
  using assms by (simp add: exec_result_fst exec_loop.simps [of r] reader_read_def)

end
