(* ===== verification/GoTime.thy ===== *)
theory GoTime
  imports GoErrors
begin

text \<open>
  The part of Go's package \<open>time\<close> the driver uses.  An instant is its Unix second and nanosecond; the
  location enters through its name and the offset from UTC it has at that instant.  A civil date is
  the number of days since the Unix epoch: \<^verbatim>\<open>t.Date()\<close> followed by \<^verbatim>\<open>time.Date(y, m, d, 0, 0, 0, 0, UTC)\<close>
  maps an instant to the midnight of its local day.
\<close>

record go_time =
  tm_sec :: int
  tm_nsec :: nat
  tm_offset :: int
  tm_zone :: string

definition wf_time :: "go_time \<Rightarrow> bool" where
  "wf_time t \<longleftrightarrow> tm_nsec t < 10 ^ 9"

definition seconds_per_day :: int where "seconds_per_day = 86400"
definition nanos_per_day :: int where "nanos_per_day = 86400 * 10 ^ 9"

definition local_second :: "go_time \<Rightarrow> int" where
  "local_second t = tm_sec t + tm_offset t"

definition civil_day :: "go_time \<Rightarrow> int" where
  "civil_day t = local_second t div seconds_per_day"

definition utc_midnight :: "int \<Rightarrow> go_time" where
  "utc_midnight d = \<lparr>tm_sec = d * seconds_per_day, tm_nsec = 0, tm_offset = 0, tm_zone = ''UTC''\<rparr>"

text \<open>\<^verbatim>\<open>t.Clock()\<close>: hour, minute and second of the local day.\<close>

definition go_clock :: "go_time \<Rightarrow> int \<times> int \<times> int" where
  "go_clock t = (let s = local_second t mod seconds_per_day in (s div 3600, (s mod 3600) div 60, s mod 60))"

text \<open>\<^verbatim>\<open>time.Unix(sec, nsec).UTC()\<close>; a nanosecond count outside \<open>[0, 10^9)\<close> is carried into the seconds.\<close>

definition unix_utc :: "int \<Rightarrow> int \<Rightarrow> go_time" where
  "unix_utc sec nsec =
     \<lparr>tm_sec = sec + nsec div 10 ^ 9, tm_nsec = nat (nsec mod 10 ^ 9), tm_offset = 0, tm_zone = ''UTC''\<rparr>"

lemma hms_split: "s div 3600 * 3600 + s mod 3600 div 60 * 60 + s mod 60 = (s :: int)"
proof -
  have "s mod 3600 mod 60 = s mod 60" by (simp add: mod_mod_cancel)
  then have "s mod 3600 div 60 * 60 + s mod 60 = s mod 3600" by (metis div_mult_mod_eq)
  then show ?thesis using div_mult_mod_eq [of s 3600] by linarith
qed

lemma local_second_utc [simp]:
  "local_second (unix_utc sec n) = sec + n div 10 ^ 9"
  by (simp add: local_second_def unix_utc_def)

lemma tm_nsec_utc [simp]: "int (tm_nsec (unix_utc sec n)) = n mod 10 ^ 9"
  by (simp add: unix_utc_def)

lemma day_second_range:
  assumes "0 \<le> n" and "n < nanos_per_day"
  shows "n div 10 ^ 9 mod seconds_per_day = n div 10 ^ 9"
proof -
  have "0 \<le> n div 10 ^ 9" using assms by (simp add: pos_imp_zdiv_nonneg_iff)
  moreover have "n div 10 ^ 9 < 86400"
    using assms by (simp add: nanos_per_day_def div_less_iff_less_mult)
  ultimately show ?thesis by (simp add: seconds_per_day_def)
qed

end
