(* ===== verification/SqlRows.thy ===== *)
theory SqlRows
  imports ArrowModel GoTime
begin

text \<open>
  \<^verbatim>\<open>rows.go\<close>: Arrow batches as \<^verbatim>\<open>database/sql\<close> rows.  Column metadata is fixed from the schema when the
  rows are created, a schema with a type \<^verbatim>\<open>database/sql\<close> cannot carry is refused there, and \<^verbatim>\<open>Next\<close> walks
  the batches, holding one at a time.  The conversions the Arrow library performs on a value (dates,
  times, decimals, half floats) are the fields of \<open>arrow_env\<close>.
\<close>

datatype driver_value =
    DNil | DBool bool | DInt64 int64 | DFloat64 "64 word" | DString string | DBytes string
  | DTime go_time

record arrow_env =
  env_f16 :: "16 word \<Rightarrow> 64 word"
  env_f32 :: "32 word \<Rightarrow> 64 word"
  env_date32 :: "32 word \<Rightarrow> go_time"
  env_date64 :: "64 word \<Rightarrow> go_time"
  env_time32 :: "32 word \<Rightarrow> time_unit \<Rightarrow> go_time"
  env_time64 :: "64 word \<Rightarrow> time_unit \<Rightarrow> go_time"
  env_timestamp :: "time_unit \<Rightarrow> string \<Rightarrow> go_error + (64 word \<Rightarrow> go_time)"
  env_multiplier :: "time_unit \<Rightarrow> int64"
  env_decimal :: "arrow_type \<Rightarrow> int \<Rightarrow> string"
  env_type_name :: "arrow_type \<Rightarrow> string"
  env_unit_name :: "time_unit \<Rightarrow> string"

subsection \<open>Values\<close>

definition duration_nanos :: "int64 \<Rightarrow> int64 \<Rightarrow> go_error + int64" where
  "duration_nanos value multiplier =
     (if multiplier \<le>s 0 then Inl (Plain ''duration unit multiplier must be positive'')
      else if 0 <s value \<and> go_div max_int64 multiplier <s value
      then Inl (Plain ''duration value overflows int64 nanoseconds'')
      else if value <s 0 \<and> value <s go_div min_int64 multiplier
      then Inl (Plain ''duration value overflows int64 nanoseconds'')
      else Inr (value * multiplier))"

fun arrow_value :: "arrow_env \<Rightarrow> arrow_array \<Rightarrow> nat \<Rightarrow> go_error + driver_value" where
  "arrow_value env a row =
     (if null_mask a ! row then Inr DNil
      else case a of
        NullArray n \<Rightarrow> Inr DNil
      | BooleanArray xs \<Rightarrow> Inr (DBool (the (xs ! row)))
      | Int8Array xs \<Rightarrow> Inr (DInt64 (scast (the (xs ! row))))
      | Int16Array xs \<Rightarrow> Inr (DInt64 (scast (the (xs ! row))))
      | Int32Array xs \<Rightarrow> Inr (DInt64 (scast (the (xs ! row))))
      | Int64Array xs \<Rightarrow> Inr (DInt64 (the (xs ! row)))
      | Uint8Array xs \<Rightarrow> Inr (DInt64 (ucast (the (xs ! row))))
      | Uint16Array xs \<Rightarrow> Inr (DInt64 (ucast (the (xs ! row))))
      | Uint32Array xs \<Rightarrow> Inr (DInt64 (ucast (the (xs ! row))))
      | Uint64Array xs \<Rightarrow>
          (if max_int64 < the (xs ! row) then Inl (Plain ''uint64 value exceeds int64 range'')
           else Inr (DInt64 (the (xs ! row))))
      | Float16Array xs \<Rightarrow> Inr (DFloat64 (env_f16 env (the (xs ! row))))
      | Float32Array xs \<Rightarrow> Inr (DFloat64 (env_f32 env (the (xs ! row))))
      | Float64Array xs \<Rightarrow> Inr (DFloat64 (the (xs ! row)))
      | StringArray xs \<Rightarrow> Inr (DString (the (xs ! row)))
      | LargeStringArray xs \<Rightarrow> Inr (DString (the (xs ! row)))
      | StringViewArray xs \<Rightarrow> Inr (DString (the (xs ! row)))
      | BinaryArray xs \<Rightarrow> Inr (DBytes (the (xs ! row)))
      | LargeBinaryArray xs \<Rightarrow> Inr (DBytes (the (xs ! row)))
      | FixedSizeBinaryArray w xs \<Rightarrow> Inr (DBytes (the (xs ! row)))
      | BinaryViewArray xs \<Rightarrow> Inr (DBytes (the (xs ! row)))
      | Date32Array xs \<Rightarrow> Inr (DTime (env_date32 env (the (xs ! row))))
      | Date64Array xs \<Rightarrow> Inr (DTime (env_date64 env (the (xs ! row))))
      | Time32Array u xs \<Rightarrow> Inr (DTime (env_time32 env (the (xs ! row)) u))
      | Time64Array u xs \<Rightarrow> Inr (DTime (env_time64 env (the (xs ! row)) u))
      | TimestampArray u tz xs \<Rightarrow>
          (case env_timestamp env u tz of
             Inl e \<Rightarrow> Inl e | Inr to_time \<Rightarrow> Inr (DTime (to_time (the (xs ! row)))))
      | DurationArray u xs \<Rightarrow>
          (case duration_nanos (the (xs ! row)) (env_multiplier env u) of
             Inl e \<Rightarrow> Inl e | Inr n \<Rightarrow> Inr (DInt64 n))
      | Decimal32Array p s xs \<Rightarrow> Inr (DString (env_decimal env (TDecimal32 p s) (the (xs ! row))))
      | Decimal64Array p s xs \<Rightarrow> Inr (DString (env_decimal env (TDecimal64 p s) (the (xs ! row))))
      | Decimal128Array p s xs \<Rightarrow> Inr (DString (env_decimal env (TDecimal128 p s) (the (xs ! row))))
      | Decimal256Array p s xs \<Rightarrow> Inr (DString (env_decimal env (TDecimal256 p s) (the (xs ! row))))
      | MonthIntervalArray xs \<Rightarrow> Inr (DString (show_int (sint (the (xs ! row))) @ '' months''))
      | DayTimeIntervalArray xs \<Rightarrow>
          (case the (xs ! row) of (d, ms) \<Rightarrow>
             Inr (DString (show_int (sint d) @ '' days '' @ show_int (sint ms) @ '' milliseconds'')))
      | MonthDayNanoIntervalArray xs \<Rightarrow>
          (case the (xs ! row) of (m, d, n) \<Rightarrow>
             Inr (DString (show_int (sint m) @ '' months '' @ show_int (sint d) @ '' days '' @
                           show_int (sint n) @ '' nanoseconds'')))
      | OtherArray t xs \<Rightarrow> Inl (Plain ''unsupported Arrow type''))"

declare arrow_value.simps [simp del]

subsection \<open>Types\<close>

fun database_sql_type :: "arrow_type \<Rightarrow> bool" where
  "database_sql_type (TList f) = False"
| "database_sql_type (TLargeList f) = False"
| "database_sql_type (TFixedSizeList n f) = False"
| "database_sql_type (TStruct f) = False"
| "database_sql_type (TMap f) = False"
| "database_sql_type TListView = False"
| "database_sql_type TLargeListView = False"
| "database_sql_type TSparseUnion = False"
| "database_sql_type TDenseUnion = False"
| "database_sql_type (TDictionary t) = False"
| "database_sql_type (TExtension n t) = False"
| "database_sql_type TRunEndEncoded = False"
| "database_sql_type t = True"

fun unsupported_arrow_family :: "arrow_type \<Rightarrow> string" where
  "unsupported_arrow_family (TList f) = ''list''"
| "unsupported_arrow_family (TLargeList f) = ''list''"
| "unsupported_arrow_family (TFixedSizeList n f) = ''list''"
| "unsupported_arrow_family TListView = ''list''"
| "unsupported_arrow_family TLargeListView = ''list''"
| "unsupported_arrow_family (TStruct f) = ''struct''"
| "unsupported_arrow_family (TMap f) = ''map''"
| "unsupported_arrow_family TSparseUnion = ''union''"
| "unsupported_arrow_family TDenseUnion = ''union''"
| "unsupported_arrow_family (TDictionary t) = ''dictionary''"
| "unsupported_arrow_family (TExtension n t) = ''extension''"
| "unsupported_arrow_family TRunEndEncoded = ''run-end encoded''"
| "unsupported_arrow_family t = ''unsupported''"

definition check_database_sql_type :: "arrow_env \<Rightarrow> arrow_type \<Rightarrow> go_error option" where
  "check_database_sql_type env t =
     (if database_sql_type t then None
      else Some (Plain (''database/sql conversion does not support Arrow '' @ unsupported_arrow_family t @
        '' type '' @ env_type_name env t @ ''; use QueryArrowContext for exact Arrow data'')))"

datatype scan_type =
    ScanNullBool | ScanNullInt64 | ScanNullFloat64 | ScanNullTime | ScanNullString
  | ScanAny | ScanBool | ScanInt64 | ScanFloat64 | ScanTime | ScanString | ScanBytes

fun plain_scan_type :: "arrow_type \<Rightarrow> scan_type" where
  "plain_scan_type TNull = ScanAny"
| "plain_scan_type TBool = ScanBool"
| "plain_scan_type TInt8 = ScanInt64"
| "plain_scan_type TInt16 = ScanInt64"
| "plain_scan_type TInt32 = ScanInt64"
| "plain_scan_type TInt64 = ScanInt64"
| "plain_scan_type TUint8 = ScanInt64"
| "plain_scan_type TUint16 = ScanInt64"
| "plain_scan_type TUint32 = ScanInt64"
| "plain_scan_type TUint64 = ScanInt64"
| "plain_scan_type TFloat16 = ScanFloat64"
| "plain_scan_type TFloat32 = ScanFloat64"
| "plain_scan_type TFloat64 = ScanFloat64"
| "plain_scan_type TDate32 = ScanTime"
| "plain_scan_type TDate64 = ScanTime"
| "plain_scan_type (TTime32 u) = ScanTime"
| "plain_scan_type (TTime64 u) = ScanTime"
| "plain_scan_type (TDuration u) = ScanInt64"
| "plain_scan_type TString = ScanString"
| "plain_scan_type TLargeString = ScanString"
| "plain_scan_type TStringView = ScanString"
| "plain_scan_type TBinary = ScanBytes"
| "plain_scan_type TLargeBinary = ScanBytes"
| "plain_scan_type (TFixedSizeBinary w) = ScanBytes"
| "plain_scan_type TBinaryView = ScanBytes"
| "plain_scan_type (TTimestamp u tz) = ScanTime"
| "plain_scan_type (TDecimal32 p s) = ScanString"
| "plain_scan_type (TDecimal64 p s) = ScanString"
| "plain_scan_type (TDecimal128 p s) = ScanString"
| "plain_scan_type (TDecimal256 p s) = ScanString"
| "plain_scan_type TMonthInterval = ScanString"
| "plain_scan_type TDayTimeInterval = ScanString"
| "plain_scan_type TMonthDayNanoInterval = ScanString"
| "plain_scan_type t = ScanAny"

text \<open>The wrappers of the nullable switch; a type it does not list falls through to the second one.\<close>

fun nullable_scan_type :: "arrow_type \<Rightarrow> scan_type option" where
  "nullable_scan_type TBool = Some ScanNullBool"
| "nullable_scan_type TInt8 = Some ScanNullInt64"
| "nullable_scan_type TInt16 = Some ScanNullInt64"
| "nullable_scan_type TInt32 = Some ScanNullInt64"
| "nullable_scan_type TInt64 = Some ScanNullInt64"
| "nullable_scan_type TUint8 = Some ScanNullInt64"
| "nullable_scan_type TUint16 = Some ScanNullInt64"
| "nullable_scan_type TUint32 = Some ScanNullInt64"
| "nullable_scan_type TUint64 = Some ScanNullInt64"
| "nullable_scan_type TFloat16 = Some ScanNullFloat64"
| "nullable_scan_type TFloat32 = Some ScanNullFloat64"
| "nullable_scan_type TFloat64 = Some ScanNullFloat64"
| "nullable_scan_type TDate32 = Some ScanNullTime"
| "nullable_scan_type TDate64 = Some ScanNullTime"
| "nullable_scan_type (TTime32 u) = Some ScanNullTime"
| "nullable_scan_type (TTime64 u) = Some ScanNullTime"
| "nullable_scan_type (TTimestamp u tz) = Some ScanNullTime"
| "nullable_scan_type (TDuration u) = Some ScanNullInt64"
| "nullable_scan_type TString = Some ScanNullString"
| "nullable_scan_type TLargeString = Some ScanNullString"
| "nullable_scan_type TStringView = Some ScanNullString"
| "nullable_scan_type (TDecimal32 p s) = Some ScanNullString"
| "nullable_scan_type (TDecimal64 p s) = Some ScanNullString"
| "nullable_scan_type (TDecimal128 p s) = Some ScanNullString"
| "nullable_scan_type (TDecimal256 p s) = Some ScanNullString"
| "nullable_scan_type TMonthInterval = Some ScanNullString"
| "nullable_scan_type TDayTimeInterval = Some ScanNullString"
| "nullable_scan_type TMonthDayNanoInterval = Some ScanNullString"
| "nullable_scan_type t = None"

definition scan_type :: "arrow_type \<Rightarrow> bool \<Rightarrow> scan_type" where
  "scan_type t nullable =
     (if nullable then (case nullable_scan_type t of Some s \<Rightarrow> s | None \<Rightarrow> plain_scan_type t)
      else plain_scan_type t)"

definition upper_char :: "char \<Rightarrow> char" where
  "upper_char c = (let n = (of_char c :: nat) in if 97 \<le> n \<and> n \<le> 122 then char_of (n - 32) else c)"

fun database_type_name :: "arrow_env \<Rightarrow> arrow_type \<Rightarrow> string" where
  "database_type_name env (TFixedSizeBinary w) = ''FIXED_SIZE_BINARY('' @ show_nat w @ '')''"
| "database_type_name env TDate32 = ''DATE32[day]''"
| "database_type_name env TDate64 = ''DATE64[ms]''"
| "database_type_name env (TTime32 u) = ''TIME32['' @ env_unit_name env u @ '']''"
| "database_type_name env (TTime64 u) = ''TIME64['' @ env_unit_name env u @ '']''"
| "database_type_name env (TTimestamp u tz) =
     (if tz = [] then ''TIMESTAMP['' @ env_unit_name env u @ '']''
      else ''TIMESTAMP['' @ env_unit_name env u @ '', tz='' @ tz @ '']'')"
| "database_type_name env (TDuration u) = ''DURATION['' @ env_unit_name env u @ '']''"
| "database_type_name env (TDecimal32 p s) = ''DECIMAL32('' @ show_int p @ '','' @ show_int s @ '')''"
| "database_type_name env (TDecimal64 p s) = ''DECIMAL64('' @ show_int p @ '','' @ show_int s @ '')''"
| "database_type_name env (TDecimal128 p s) = ''DECIMAL('' @ show_int p @ '','' @ show_int s @ '')''"
| "database_type_name env (TDecimal256 p s) = ''DECIMAL256('' @ show_int p @ '','' @ show_int s @ '')''"
| "database_type_name env TMonthInterval = ''INTERVAL_MONTHS''"
| "database_type_name env TDayTimeInterval = ''INTERVAL_DAY_TIME''"
| "database_type_name env TMonthDayNanoInterval = ''INTERVAL_MONTH_DAY_NANO''"
| "database_type_name env t = map upper_char (env_type_name env t)"

fun column_type_length :: "arrow_type \<Rightarrow> int \<times> bool" where
  "column_type_length (TFixedSizeBinary w) = (int w, True)"
| "column_type_length t = (0, False)"

fun column_type_precision_scale :: "arrow_type \<Rightarrow> int \<times> int \<times> bool" where
  "column_type_precision_scale (TDecimal32 p s) = (p, s, True)"
| "column_type_precision_scale (TDecimal64 p s) = (p, s, True)"
| "column_type_precision_scale (TDecimal128 p s) = (p, s, True)"
| "column_type_precision_scale (TDecimal256 p s) = (p, s, True)"
| "column_type_precision_scale t = (0, 0, False)"

subsection \<open>Rows\<close>

record rows =
  rw_reader :: arrow_reader
  rw_current :: "batch option"
  rw_row :: nat
  rw_columns :: "string list"
  rw_scan_types :: "scan_type list"
  rw_db_types :: "string list"
  rw_nullable :: "bool list"
  rw_lengths :: "(int \<times> bool) list"
  rw_scales :: "(int \<times> int \<times> bool) list"
  rw_closed :: bool

fun check_fields :: "arrow_env \<Rightarrow> arrow_field list \<Rightarrow> go_error option" where
  "check_fields env [] = None"
| "check_fields env (f # fs) =
     (case check_database_sql_type env (fld_type f) of
        Some e \<Rightarrow> Some (Wrapped (''column '' @ fld_name f) e)
      | None \<Rightarrow> check_fields env fs)"

definition init_metadata :: "arrow_env \<Rightarrow> arrow_field list \<Rightarrow> rows \<Rightarrow> go_error + rows" where
  "init_metadata env flds r =
     (case check_fields env flds of
        Some e \<Rightarrow> Inl e
      | None \<Rightarrow> Inr (r\<lparr>
          rw_columns := map fld_name flds,
          rw_scan_types := map (\<lambda>f. scan_type (fld_type f) (fld_nullable f)) flds,
          rw_db_types := map (\<lambda>f. database_type_name env (fld_type f)) flds,
          rw_nullable := map fld_nullable flds,
          rw_lengths := map (\<lambda>f. column_type_length (fld_type f)) flds,
          rw_scales := map (\<lambda>f. column_type_precision_scale (fld_type f)) flds\<rparr>))"

definition new_rows :: "arrow_env \<Rightarrow> arrow_reader \<Rightarrow> go_error + rows" where
  "new_rows env reader =
     (case rd_schema reader of
        None \<Rightarrow> Inl (Plain ''DataFusion result schema is nil'')
      | Some schema \<Rightarrow> init_metadata env schema
          \<lparr>rw_reader = reader, rw_current = None, rw_row = 0, rw_columns = [], rw_scan_types = [],
           rw_db_types = [], rw_nullable = [], rw_lengths = [], rw_scales = [], rw_closed = False\<rparr>)"

text \<open>Giving up the batch a cursor holds.\<close>

definition release_current :: "rows \<Rightarrow> rows" where
  "release_current r =
     (case rw_current r of
        None \<Rightarrow> r
      | Some b \<Rightarrow> r\<lparr>rw_reader := reader_release b (rw_reader r), rw_current := None\<rparr>)"

definition rows_close :: "rows \<Rightarrow> rows" where
  "rows_close r =
     (if rw_closed r then r
      else let r1 = release_current (r\<lparr>rw_closed := True\<rparr>)
           in r1\<lparr>rw_reader := close_reader (rw_reader r1)\<rparr>)"

definition needs_batch :: "rows \<Rightarrow> bool" where
  "needs_batch r = (case rw_current r of None \<Rightarrow> True | Some b \<Rightarrow> bt_rows b \<le> rw_row r)"

text \<open>The loop of \<^verbatim>\<open>Next\<close> that finds a batch with a row left.\<close>

function rows_fetch :: "rows \<Rightarrow> go_error option \<times> rows" where
  "rows_fetch r =
     (if needs_batch r then
        (let r1 = release_current r in
         case reader_read (rw_reader r1) of
           (Inl err, rd) \<Rightarrow>
             (if err = Sentinel IoEOF then (Some err, r1\<lparr>rw_reader := close_reader rd\<rparr>)
              else (Some (driver_error ErrorScan ''could not read DataFusion record batch'' (Some err)),
                    r1\<lparr>rw_reader := rd\<rparr>))
         | (Inr rec, rd) \<Rightarrow>
             (if bt_rows rec = 0 then rows_fetch (r1\<lparr>rw_reader := reader_release rec rd\<rparr>)
              else rows_fetch (r1\<lparr>rw_reader := rd, rw_current := Some rec, rw_row := 0\<rparr>)))
      else (None, r))"
  by pat_completeness auto
termination
  by (relation "measure (\<lambda>r. length (rd_script (rw_reader r)))")
     (auto simp: reader_read_def reader_release_def release_current_def split: list.splits option.splits)

declare rows_fetch.simps [simp del]

definition scan_row :: "arrow_env \<Rightarrow> nat \<Rightarrow> batch \<Rightarrow> nat \<Rightarrow> go_error + driver_value list" where
  "scan_row env width b row =
     traverse (\<lambda>col.
       case arrow_value env (bt_cols b ! col) row of
         Inl e \<Rightarrow> Inl (driver_error ErrorScan (''could not scan column '' @ show_nat col) (Some e))
       | Inr v \<Rightarrow> Inr v) [0..<width]"

text \<open>\<^verbatim>\<open>Next\<close> into a destination of \<open>width\<close> values; a row that cannot be scanned is not passed.\<close>

definition rows_next :: "arrow_env \<Rightarrow> nat \<Rightarrow> rows \<Rightarrow> (go_error + driver_value list) \<times> rows" where
  "rows_next env width r =
     (if rw_closed r then (Inl (driver_error ErrorClosed ''datafusion rows are closed'' None), r)
      else case rows_fetch r of
        (Some e, r1) \<Rightarrow> (Inl e, r1)
      | (None, r1) \<Rightarrow>
          (case scan_row env width (the (rw_current r1)) (rw_row r1) of
             Inl e \<Rightarrow> (Inl e, r1)
           | Inr vs \<Rightarrow> (Inr vs, r1\<lparr>rw_row := rw_row r1 + 1\<rparr>)))"

text \<open>The column accessors: out of range they answer with their zero values.\<close>

definition column_scan_type :: "rows \<Rightarrow> int \<Rightarrow> scan_type option" where
  "column_scan_type r i =
     (if i < 0 \<or> int (length (rw_scan_types r)) \<le> i then None else Some (rw_scan_types r ! nat i))"

definition column_database_type_name :: "rows \<Rightarrow> int \<Rightarrow> string" where
  "column_database_type_name r i =
     (if i < 0 \<or> int (length (rw_db_types r)) \<le> i then [] else rw_db_types r ! nat i)"

definition column_nullable :: "rows \<Rightarrow> int \<Rightarrow> bool \<times> bool" where
  "column_nullable r i =
     (if i < 0 \<or> int (length (rw_nullable r)) \<le> i then (False, False) else (rw_nullable r ! nat i, True))"

definition column_length :: "rows \<Rightarrow> int \<Rightarrow> int \<times> bool" where
  "column_length r i =
     (if i < 0 \<or> int (length (rw_lengths r)) \<le> i then (0, False) else rw_lengths r ! nat i)"

definition column_precision_scale :: "rows \<Rightarrow> int \<Rightarrow> int \<times> int \<times> bool" where
  "column_precision_scale r i =
     (if i < 0 \<or> int (length (rw_scales r)) \<le> i then (0, 0, False) else rw_scales r ! nat i)"

text \<open>A concrete environment, stream and cursor, for evaluating the model.\<close>

definition sample_env :: arrow_env where
  "sample_env = \<lparr>env_f16 = ucast, env_f32 = ucast,
     env_date32 = (\<lambda>d. unix_utc (sint d * seconds_per_day) 0), env_date64 = (\<lambda>n. unix_utc 0 (sint n * 10 ^ 6)),
     env_time32 = (\<lambda>n u. unix_utc (sint n) 0), env_time64 = (\<lambda>n u. unix_utc 0 (sint n)),
     env_timestamp = (\<lambda>u tz. Inr (\<lambda>n. unix_utc 0 (sint n))), env_multiplier = (\<lambda>u. 1000),
     env_decimal = (\<lambda>t i. show_int i), env_type_name = (\<lambda>t. ''type''), env_unit_name = (\<lambda>u. ''us'')\<rparr>"

definition sample_batch :: batch where
  "sample_batch = \<lparr>bt_id = 1, bt_fields = [\<lparr>fld_name = ''n'', fld_type = TInt64, fld_nullable = True\<rparr>],
     bt_cols = [Int64Array [Some 7, None]], bt_rows = 2\<rparr>"

definition sample_reader :: arrow_reader where
  "sample_reader = \<lparr>rd_schema = Some (bt_fields sample_batch), rd_script = [Inr sample_batch],
     rd_reads = 0, rd_closes = 0, rd_released = []\<rparr>"

definition sample_rows :: rows where
  "sample_rows = \<lparr>rw_reader = sample_reader, rw_current = None, rw_row = 0, rw_columns = [''n''],
     rw_scan_types = [ScanNullInt64], rw_db_types = [''TYPE''], rw_nullable = [True],
     rw_lengths = [(0, False)], rw_scales = [(0, 0, False)], rw_closed = False\<rparr>"

lemma new_rows_sample: "new_rows sample_env sample_reader = Inr sample_rows"
  by code_simp

subsection \<open>Durations\<close>

text \<open>C32: converting a duration to nanoseconds never wraps: it returns the exact product when that fits a signed
  64-bit integer and fails otherwise, for every positive unit multiplier.\<close>

theorem duration_nanos_exact:
  assumes "0 < sint multiplier"
  shows "(case duration_nanos value multiplier of
            Inr n \<Rightarrow> sint n = sint value * sint multiplier
          | Inl e \<Rightarrow> \<not> in_int64 (sint value * sint multiplier))"
proof -
  define v m where "v = sint value" and "m = sint multiplier"
  have m: "0 < m" using assms by (simp add: m_def)
  have up: "sint (go_div max_int64 multiplier) < v \<longleftrightarrow> 2 ^ 63 - 1 < v * m"
    using assms m by (simp only: sint_go_div sint_max_int64 flip: m_def) (rule sdiv_pos_less; simp)
  have lo: "v < sint (go_div min_int64 multiplier) \<longleftrightarrow> v * m < - (2 ^ 63)"
    using assms m by (simp only: sint_go_div sint_min_int64 flip: m_def) (rule less_sdiv_neg; simp)
  have sgn: "0 < v \<Longrightarrow> 0 < v * m" "v < 0 \<Longrightarrow> v * m < 0"
    using m by (simp_all add: mult_neg_pos)
  have "in_int64 (v * m) \<Longrightarrow> sint (value * multiplier) = v * m"
    by (simp add: sint64_mul in_int64_def v_def m_def)
  moreover have "duration_nanos value multiplier =
    (if 0 < v \<and> 2 ^ 63 - 1 < v * m then Inl (Plain ''duration value overflows int64 nanoseconds'')
     else if v < 0 \<and> v * m < - (2 ^ 63) then Inl (Plain ''duration value overflows int64 nanoseconds'')
     else Inr (value * multiplier))"
    unfolding duration_nanos_def word_sle_eq word_sless_alt up [symmetric] lo [symmetric]
    using m by (simp add: v_def m_def)
  ultimately show ?thesis
    using sgn by (cases "v = 0") (auto simp: in_int64_def v_def m_def)
qed

theorem duration_nanos_exact_witness:
  "(case duration_nanos 9223372036854775 1000 of Inr n \<Rightarrow> sint n = 9223372036854775000 | Inl e \<Rightarrow> False) \<and>
   (case duration_nanos 9223372036854776 1000 of Inr n \<Rightarrow> False | Inl e \<Rightarrow> True)"
proof -
  have m: "0 < sint (1000 :: int64)" by simp
  have bound: "sint n \<noteq> 9223372036854776000" for n :: int64
    using sint64_upper [of n] by simp
  show ?thesis
    using duration_nanos_exact [OF m, of 9223372036854775]
      duration_nanos_exact [OF m, of 9223372036854776] bound
    by (auto simp: in_int64_def split: sum.splits)
qed

subsection \<open>Advertised types\<close>

fun value_scan_type :: "driver_value \<Rightarrow> scan_type" where
  "value_scan_type DNil = ScanAny"
| "value_scan_type (DBool b) = ScanBool"
| "value_scan_type (DInt64 i) = ScanInt64"
| "value_scan_type (DFloat64 f) = ScanFloat64"
| "value_scan_type (DString s) = ScanString"
| "value_scan_type (DBytes s) = ScanBytes"
| "value_scan_type (DTime t) = ScanTime"

text \<open>The type inside a \<^verbatim>\<open>sql.Null\<close> wrapper.\<close>

fun unwrap_null :: "scan_type \<Rightarrow> scan_type" where
  "unwrap_null ScanNullBool = ScanBool"
| "unwrap_null ScanNullInt64 = ScanInt64"
| "unwrap_null ScanNullFloat64 = ScanFloat64"
| "unwrap_null ScanNullTime = ScanTime"
| "unwrap_null ScanNullString = ScanString"
| "unwrap_null t = t"

text \<open>Every type of its own array class is carried by that class.\<close>

fun wf_array :: "arrow_array \<Rightarrow> bool" where
  "wf_array (OtherArray t xs) = (\<not> database_sql_type t)"
| "wf_array a = True"

lemma unwrap_scan_type: "unwrap_null (scan_type t nullable) = plain_scan_type t"
  by (cases t) (simp_all add: scan_type_def)

text \<open>C33: a scanned value has the Go type the column advertised for scanning, nullable or not, and a column of a type
  that was accepted when the rows were created fails to scan only for an unsigned value above the
  int64 range, a timestamp zone Arrow rejects, or a duration that overflows.\<close>

theorem arrow_value_typed:
  assumes "wf_array a" and "database_sql_type (arr_type a)" and "row < arr_len a"
  shows "(case arrow_value env a row of
            Inr v \<Rightarrow> v = DNil \<or> value_scan_type v = unwrap_null (scan_type (arr_type a) nullable)
          | Inl e \<Rightarrow> arr_type a = TUint64 \<or> (\<exists>u tz. arr_type a = TTimestamp u tz) \<or>
                      (\<exists>u. arr_type a = TDuration u))"
  using assms
  by (cases a) (auto simp: arrow_value.simps unwrap_scan_type split: sum.splits prod.splits)

theorem arrow_value_typed_witness:
  "(case arrow_value sample_env (Int8Array [Some 5, None]) 0 of
      Inr v \<Rightarrow> v = DNil \<or> value_scan_type v = ScanInt64 | Inl e \<Rightarrow> False)"
  using arrow_value_typed [where a = "Int8Array [Some 5, None]" and row = 0 and env = sample_env and nullable = True]
  by (simp add: arr_len_def unwrap_scan_type split: sum.splits)

subsection \<open>The cursor\<close>

text \<open>
  Specification: the rows still to come are the rest of the batch held, then the rows of the batches
  the reader has not returned yet.
\<close>

definition batch_rows :: "arrow_env \<Rightarrow> nat \<Rightarrow> batch \<Rightarrow> (go_error + driver_value list) list" where
  "batch_rows env width b = map (scan_row env width b) [0..<bt_rows b]"

definition pending_rows :: "arrow_env \<Rightarrow> nat \<Rightarrow> rows \<Rightarrow> (go_error + driver_value list) list" where
  "pending_rows env width r =
     (case rw_current r of None \<Rightarrow> [] | Some b \<Rightarrow> drop (rw_row r) (batch_rows env width b)) @
     concat (map (batch_rows env width) (script_batches (rd_script (rw_reader r))))"

definition clean_script :: "rows \<Rightarrow> bool" where
  "clean_script r \<longleftrightarrow> (\<exists>bs. rd_script (rw_reader r) = map Inr bs)"

lemma release_current_simps [simp]:
  "rw_current (release_current r) = None"
  "rd_script (rw_reader (release_current r)) = rd_script (rw_reader r)"
  "rd_reads (rw_reader (release_current r)) = rd_reads (rw_reader r)"
  "rw_closed (release_current r) = rw_closed r"
  by (simp_all add: release_current_def reader_release_def split: option.splits)

lemma batch_rows_length [simp]: "length (batch_rows env width b) = bt_rows b"
  by (simp add: batch_rows_def)

lemma pending_needs_batch:
  "needs_batch r \<Longrightarrow> pending_rows env width r =
     concat (map (batch_rows env width) (script_batches (rd_script (rw_reader r))))"
  by (auto simp: pending_rows_def needs_batch_def split: option.splits)

lemma pending_current:
  assumes "\<not> needs_batch r"
  shows "pending_rows env width r =
    scan_row env width (the (rw_current r)) (rw_row r) #
    pending_rows env width (r\<lparr>rw_row := rw_row r + 1\<rparr>)"
proof -
  from assms obtain b where b: "rw_current r = Some b" "rw_row r < bt_rows b"
    by (auto simp: needs_batch_def split: option.splits)
  then have "drop (rw_row r) (batch_rows env width b) =
      scan_row env width b (rw_row r) # drop (Suc (rw_row r)) (batch_rows env width b)"
    by (subst Cons_nth_drop_Suc [symmetric]) (auto simp: batch_rows_def)
  with b show ?thesis by (simp add: pending_rows_def)
qed

lemma pending_rows_sample: "pending_rows sample_env 1 sample_rows = [Inr [DInt64 7], Inr [DNil]]"
  by (simp add: pending_rows_def sample_rows_def sample_reader_def sample_batch_def batch_rows_def scan_row_def
      arrow_value.simps eval_nat_numeral)

text \<open>Fetching keeps the rows to come, and stops at a batch with one of them or at the end of the stream.\<close>

lemma rows_fetch_spec:
  assumes "clean_script r" and "rows_fetch r = (res, r1)"
  shows "(res = None \<and> \<not> needs_batch r1 \<and> clean_script r1 \<and>
            pending_rows env width r1 = pending_rows env width r \<and> rw_closed r1 = rw_closed r) \<or>
         (res = Some (Sentinel IoEOF) \<and> pending_rows env width r = [] \<and>
            rd_closes (rw_reader r1) = rd_closes (rw_reader r) + 1)"
  using assms
proof (induction "length (rd_script (rw_reader r))" arbitrary: r rule: less_induct)
  case less
  show ?case
  proof (cases "needs_batch r")
    case False
    with less.prems show ?thesis by (simp add: rows_fetch.simps [of r])
  next
    case need: True
    from less.prems(1) obtain bs where bs: "rd_script (rw_reader r) = map Inr bs"
      by (auto simp: clean_script_def)
    let ?r = "release_current r"
    show ?thesis
    proof (cases bs)
      case Nil
      with need bs less.prems(2) have "res = Some (Sentinel IoEOF)"
        and "r1 = ?r\<lparr>rw_reader := close_reader (rw_reader ?r)\<rparr>"
        by (auto simp: rows_fetch.simps [of r] reader_read_def Let_def)
      moreover have "rd_closes (rw_reader ?r) = rd_closes (rw_reader r)"
        by (simp add: release_current_def reader_release_def split: option.splits)
      ultimately show ?thesis
        using need bs Nil by (simp add: pending_needs_batch close_reader_def)
    next
      case (Cons b bs')
      let ?rd = "(rw_reader ?r)\<lparr>rd_script := map Inr bs', rd_reads := rd_reads (rw_reader ?r) + 1\<rparr>"
      let ?q = "if bt_rows b = 0 then ?r\<lparr>rw_reader := reader_release b ?rd\<rparr>
        else ?r\<lparr>rw_reader := ?rd, rw_current := Some b, rw_row := 0\<rparr>"
      have "rows_fetch ?q = (res, r1)"
        using need bs Cons less.prems(2)
        by (auto simp: rows_fetch.simps [of r] reader_read_def Let_def)
      moreover have "clean_script ?q" "length (rd_script (rw_reader ?q)) < length (rd_script (rw_reader r))"
        using bs Cons by (auto simp: clean_script_def reader_release_def)
      moreover have "pending_rows env width ?q = pending_rows env width r"
        using need bs Cons
        by (auto simp: pending_rows_def needs_batch_def reader_release_def batch_rows_def split: option.splits)
      moreover have "rd_closes (rw_reader ?q) = rd_closes (rw_reader r)" "rw_closed ?q = rw_closed r"
        by (auto simp: release_current_def reader_release_def split: option.splits)
      ultimately show ?thesis using less.hyps [of ?q] by metis
    qed
  qed
qed

text \<open>C4: reading rows refines the list of rows of the result: on an open cursor over a stream without read errors,
  \<^verbatim>\<open>Next\<close> returns the first pending row and leaves the rest pending, reports a row that cannot be
  scanned as a scan error, and when no row is pending returns EOF and closes the stream.\<close>

theorem rows_next_refines:
  assumes "\<not> rw_closed r" and "clean_script r"
  shows "(case pending_rows env width r of
            [] \<Rightarrow> fst (rows_next env width r) = Inl (Sentinel IoEOF) \<and>
                  rd_closes (rw_reader (snd (rows_next env width r))) = rd_closes (rw_reader r) + 1
          | Inr vs # rest \<Rightarrow> fst (rows_next env width r) = Inr vs \<and>
                  pending_rows env width (snd (rows_next env width r)) = rest \<and>
                  clean_script (snd (rows_next env width r)) \<and> \<not> rw_closed (snd (rows_next env width r))
          | Inl e # rest \<Rightarrow> fst (rows_next env width r) = Inl e \<and>
                  pending_rows env width (snd (rows_next env width r)) = Inl e # rest)"
proof -
  obtain res r1 where f: "rows_fetch r = (res, r1)" by fastforce
  from rows_fetch_spec [OF assms(2) f, of env width] show ?thesis
  proof (elim disjE conjE)
    assume r1: "res = None" "\<not> needs_batch r1" "clean_script r1"
      "pending_rows env width r1 = pending_rows env width r" "rw_closed r1 = rw_closed r"
    have "clean_script (r1\<lparr>rw_row := rw_row r1 + 1\<rparr>)" using r1 by (simp add: clean_script_def)
    moreover have "pending_rows env width r = scan_row env width (the (rw_current r1)) (rw_row r1) #
        pending_rows env width (r1\<lparr>rw_row := rw_row r1 + 1\<rparr>)"
      using pending_current [OF r1(2), of env width] r1(4) by simp
    ultimately show ?thesis
      using assms f r1 by (cases "scan_row env width (the (rw_current r1)) (rw_row r1)")
        (simp_all add: rows_next_def)
  next
    assume "res = Some (Sentinel IoEOF)" "pending_rows env width r = []"
      "rd_closes (rw_reader r1) = rd_closes (rw_reader r) + 1"
    then show ?thesis using assms f by (simp add: rows_next_def)
  qed
qed

theorem rows_next_refines_witness:
  "fst (rows_next sample_env 1 sample_rows) = Inr [DInt64 7] \<and>
   pending_rows sample_env 1 (snd (rows_next sample_env 1 sample_rows)) = [Inr [DNil]]"
proof -
  have "\<not> rw_closed sample_rows" by (simp add: sample_rows_def)
  moreover have "clean_script sample_rows"
    by (auto simp: clean_script_def sample_rows_def sample_reader_def intro: exI [of _ "[sample_batch]"])
  ultimately show ?thesis
    using rows_next_refines [of sample_rows sample_env 1] by (simp add: pending_rows_sample del: One_nat_def)
qed

subsection \<open>Ownership of batches\<close>

text \<open>
  Over the script \<open>s0\<close> the reader started with: the batches read so far are those released, in
  order, followed by the one the cursor holds.
\<close>

definition rows_owned :: "(go_error + batch) list \<Rightarrow> rows \<Rightarrow> bool" where
  "rows_owned s0 r \<longleftrightarrow>
     (rd_script (rw_reader r) = drop (rd_reads (rw_reader r)) s0 \<or> rd_script (rw_reader r) = []) \<and>
     rd_reads (rw_reader r) \<le> length s0 \<and>
     rd_released (rw_reader r) @ (case rw_current r of None \<Rightarrow> [] | Some b \<Rightarrow> [bt_id b]) =
       map bt_id (script_batches (take (rd_reads (rw_reader r)) s0))"

lemma rows_owned_release: "rows_owned s0 r \<Longrightarrow> rows_owned s0 (release_current r)"
  by (auto simp: rows_owned_def release_current_def reader_release_def split: option.splits)

lemma rows_owned_close: "rows_owned s0 r \<Longrightarrow> rows_owned s0 (r\<lparr>rw_reader := close_reader (rw_reader r)\<rparr>)"
  by (simp add: rows_owned_def close_reader_def)

lemma take_script_Suc:
  "drop k s0 = x # xs \<Longrightarrow> take (Suc k) s0 = take k s0 @ [x] \<and> Suc k \<le> length s0 \<and> xs = drop (Suc k) s0"
proof -
  assume d: "drop k s0 = x # xs"
  then have k: "k < length s0" by (metis drop_all list.distinct(1) not_less)
  from d Cons_nth_drop_Suc [OF k] have "x = s0 ! k" "xs = drop (Suc k) s0" by simp_all
  with k show ?thesis by (simp add: take_Suc_conv_app_nth)
qed

lemma rows_owned_read:
  assumes "rows_owned s0 r" and "rw_current r = None" and "reader_read (rw_reader r) = (x, rd)"
  shows "(case x of
            Inl e \<Rightarrow> rows_owned s0 (r\<lparr>rw_reader := rd\<rparr>)
          | Inr b \<Rightarrow> rows_owned s0 (r\<lparr>rw_reader := reader_release b rd\<rparr>) \<and>
                     rows_owned s0 (r\<lparr>rw_reader := rd, rw_current := Some b, rw_row := k\<rparr>))"
proof (cases "rd_script (rw_reader r)")
  case Nil
  with assms show ?thesis by (auto simp: reader_read_def rows_owned_def)
next
  case (Cons y ys)
  with assms have x: "x = y" "rd = (rw_reader r)\<lparr>rd_script := ys, rd_reads := rd_reads (rw_reader r) + 1\<rparr>"
    by (auto simp: reader_read_def)
  have "drop (rd_reads (rw_reader r)) s0 = y # ys"
    using assms(1) Cons by (auto simp: rows_owned_def)
  from take_script_Suc [OF this] show ?thesis
    using assms(1,2) x by (cases y) (auto simp: rows_owned_def reader_release_def)
qed

lemma rows_owned_fetch: "rows_owned s0 r \<Longrightarrow> rows_owned s0 (snd (rows_fetch r))"
proof (induction "length (rd_script (rw_reader r))" arbitrary: r rule: less_induct)
  case less
  let ?r = "release_current r"
  obtain x rd where read: "reader_read (rw_reader ?r) = (x, rd)" by fastforce
  have own: "case x of
            Inl e \<Rightarrow> rows_owned s0 (?r\<lparr>rw_reader := rd\<rparr>)
          | Inr b \<Rightarrow> rows_owned s0 (?r\<lparr>rw_reader := reader_release b rd\<rparr>) \<and>
                     rows_owned s0 (?r\<lparr>rw_reader := rd, rw_current := Some b, rw_row := 0\<rparr>)"
    using rows_owned_read [OF rows_owned_release [OF less.prems] _ read, of 0] by simp
  show ?case
  proof (cases "needs_batch r")
    case False
    with less.prems show ?thesis by (simp add: rows_fetch.simps [of r])
  next
    case need: True
    show ?thesis
    proof (cases x)
      case (Inl e)
      with need read own rows_owned_close [of s0 "?r\<lparr>rw_reader := rd\<rparr>"] show ?thesis
        by (auto simp: rows_fetch.simps [of r] Let_def)
    next
      case (Inr b)
      then have "length (rd_script rd) < length (rd_script (rw_reader r))"
        using read by (auto simp: reader_read_def split: list.splits)
      then have "rows_owned s0 q \<Longrightarrow> rd_script (rw_reader q) = rd_script rd \<Longrightarrow>
          rows_owned s0 (snd (rows_fetch q))" for q
        using less.hyps [of q] by simp
      with Inr need read own show ?thesis
        by (auto simp: rows_fetch.simps [of r] Let_def reader_release_def)
    qed
  qed
qed

lemma rows_owned_next: "rows_owned s0 r \<Longrightarrow> rows_owned s0 (snd (rows_next env width r))"
proof -
  assume own: "rows_owned s0 r"
  obtain res r1 where f: "rows_fetch r = (res, r1)" by fastforce
  with rows_owned_fetch [OF own] have "rows_owned s0 r1" by simp
  with own f show ?thesis
    by (auto simp: rows_next_def rows_owned_def split: option.splits sum.splits)
qed

lemma rows_owned_rows_close: "rows_owned s0 r \<Longrightarrow> rows_owned s0 (rows_close r)"
proof -
  assume own: "rows_owned s0 r"
  then have "rows_owned s0 (r\<lparr>rw_closed := True\<rparr>)" by (simp add: rows_owned_def)
  then show ?thesis
    using own by (auto simp: rows_close_def Let_def intro: rows_owned_close rows_owned_release)
qed

text \<open>The operations \<^verbatim>\<open>database/sql\<close> performs on the rows, in any order.\<close>

datatype rows_op = RowsNext | RowsClose

fun rows_step :: "arrow_env \<Rightarrow> nat \<Rightarrow> rows \<Rightarrow> rows_op \<Rightarrow> rows" where
  "rows_step env width r RowsNext = snd (rows_next env width r)"
| "rows_step env width r RowsClose = rows_close r"

definition rows_run :: "arrow_env \<Rightarrow> nat \<Rightarrow> rows \<Rightarrow> rows_op list \<Rightarrow> rows" where
  "rows_run env width = foldl (rows_step env width)"

lemma rows_owned_run: "rows_owned s0 r \<Longrightarrow> rows_owned s0 (rows_run env width r ops)"
  unfolding rows_run_def
proof (induction ops arbitrary: r)
  case (Cons op ops)
  then show ?case by (cases op) (auto simp: rows_owned_next rows_owned_rows_close)
qed simp

text \<open>A closed cursor holds no batch.\<close>

definition closed_empty :: "rows \<Rightarrow> bool" where
  "closed_empty r \<longleftrightarrow> (rw_closed r \<longrightarrow> rw_current r = None)"

lemma rows_fetch_closed: "rw_closed (snd (rows_fetch r)) = rw_closed r"
proof (induction "length (rd_script (rw_reader r))" arbitrary: r rule: less_induct)
  case less
  have IH: "rd_script (rw_reader q) = ys \<Longrightarrow> rd_script (rw_reader r) = y # ys \<Longrightarrow>
      rw_closed (snd (rows_fetch q)) = rw_closed q" for q y ys
    using less [of q] by simp
  show ?case
    by (subst rows_fetch.simps)
       (auto simp: Let_def reader_read_def reader_release_def IH split: list.splits sum.splits)
qed

lemma closed_empty_step: "closed_empty r \<Longrightarrow> closed_empty (rows_step env width r op)"
proof (cases op)
  case RowsNext
  assume c: "closed_empty r"
  obtain res r1 where f: "rows_fetch r = (res, r1)" by fastforce
  with rows_fetch_closed [of r] have "rw_closed r1 = rw_closed r" by simp
  with RowsNext c f show ?thesis
    by (auto simp: rows_next_def closed_empty_def split: option.splits sum.splits)
qed (auto simp: closed_empty_def rows_close_def Let_def)

lemma closed_empty_run: "closed_empty r \<Longrightarrow> closed_empty (rows_run env width r ops)"
  unfolding rows_run_def by (induction ops arbitrary: r) (auto simp: closed_empty_step)

text \<open>C31: whatever sequence of reads and closes a cursor goes through, once it is closed every batch it read has
  been released exactly once, in the order of reading, and it holds none.\<close>

theorem rows_release_every_batch:
  assumes "new_rows env reader = Inr r" and "rd_reads reader = 0" and "rd_released reader = []"
  shows "let r1 = rows_close (rows_run env width r ops) in
    rd_released (rw_reader r1) =
      map bt_id (script_batches (take (rd_reads (rw_reader r1)) (rd_script reader))) \<and>
    rw_current r1 = None"
proof -
  from assms have "rw_reader r = reader" "rw_current r = None" "\<not> rw_closed r"
    by (auto simp: new_rows_def init_metadata_def split: option.splits)
  with assms have "rows_owned (rd_script reader) r" "closed_empty r"
    by (auto simp: rows_owned_def closed_empty_def)
  then have own: "rows_owned (rd_script reader) (rows_close (rows_run env width r ops))"
    and ce: "closed_empty (rows_run env width r ops)"
    by (auto intro: rows_owned_run rows_owned_rows_close closed_empty_run)
  have "rw_current (rows_close (rows_run env width r ops)) = None"
    using ce by (auto simp: rows_close_def Let_def closed_empty_def)
  with own show ?thesis by (simp add: rows_owned_def Let_def)
qed

theorem rows_release_every_batch_witness:
  "rw_current (rows_close (rows_run sample_env 1 sample_rows [RowsNext])) = None"
proof -
  have "rd_reads sample_reader = 0" "rd_released sample_reader = []"
    by (simp_all add: sample_reader_def)
  with rows_release_every_batch [OF new_rows_sample, of 1 "[RowsNext]"] show ?thesis
    by (simp add: Let_def)
qed

subsection \<open>Metadata\<close>

lemma check_fields_None: "check_fields env flds = None \<longleftrightarrow> (\<forall>f \<in> set flds. database_sql_type (fld_type f))"
  by (induction flds) (auto simp: check_database_sql_type_def)

text \<open>rows are created exactly for a schema whose types \<^verbatim>\<open>database/sql\<close> can carry, and then every column
  accessor describes the field of that index: its scan type, nullability, length and decimal
  precision, while an index out of range gives the zero answer and never fails.\<close>

theorem new_rows_metadata:
  assumes "rd_schema reader = Some flds"
  shows "(case new_rows env reader of
      Inl e \<Rightarrow> \<exists>f \<in> set flds. \<not> database_sql_type (fld_type f)
    | Inr r \<Rightarrow> (\<forall>f \<in> set flds. database_sql_type (fld_type f)) \<and>
        rw_columns r = map fld_name flds \<and>
        (\<forall>i. (if 0 \<le> i \<and> i < int (length flds)
          then let f = flds ! nat i in
            column_scan_type r i = Some (scan_type (fld_type f) (fld_nullable f)) \<and>
            column_database_type_name r i = database_type_name env (fld_type f) \<and>
            column_nullable r i = (fld_nullable f, True) \<and>
            column_length r i = column_type_length (fld_type f) \<and>
            column_precision_scale r i = column_type_precision_scale (fld_type f)
          else column_scan_type r i = None \<and> column_database_type_name r i = [] \<and>
            column_nullable r i = (False, False) \<and> column_length r i = (0, False) \<and>
            column_precision_scale r i = (0, 0, False))))"
proof (cases "check_fields env flds")
  case None
  with assms have "new_rows env reader = Inr (\<lparr>rw_reader = reader, rw_current = None, rw_row = 0,
      rw_columns = map fld_name flds,
      rw_scan_types = map (\<lambda>f. scan_type (fld_type f) (fld_nullable f)) flds,
      rw_db_types = map (\<lambda>f. database_type_name env (fld_type f)) flds,
      rw_nullable = map fld_nullable flds,
      rw_lengths = map (\<lambda>f. column_type_length (fld_type f)) flds,
      rw_scales = map (\<lambda>f. column_type_precision_scale (fld_type f)) flds, rw_closed = False\<rparr>)"
    by (simp add: new_rows_def init_metadata_def)
  moreover have "\<forall>f \<in> set flds. database_sql_type (fld_type f)"
    using None by (simp add: check_fields_None)
  ultimately show ?thesis
    by (auto simp: column_scan_type_def column_database_type_name_def column_nullable_def
        column_length_def column_precision_scale_def Let_def nat_less_iff)
next
  case (Some e)
  then have "\<exists>f \<in> set flds. \<not> database_sql_type (fld_type f)"
    using check_fields_None [of env flds] by auto
  with assms Some show ?thesis by (simp add: new_rows_def init_metadata_def)
qed

theorem new_rows_metadata_witness:
  "rw_columns sample_rows = [''n''] \<and> column_nullable sample_rows 0 = (True, True) \<and>
   column_scan_type sample_rows 1 = None"
proof -
  have "rd_schema sample_reader = Some [\<lparr>fld_name = ''n'', fld_type = TInt64, fld_nullable = True\<rparr>]"
    by (simp add: sample_reader_def sample_batch_def)
  from new_rows_metadata [OF this, of sample_env] new_rows_sample
  have "rw_columns sample_rows = [''n'']"
    and "\<forall>i. if 0 \<le> i \<and> i < 1 then column_nullable sample_rows i = (True, True)
      else column_scan_type sample_rows i = None"
    by (simp_all add: Let_def split: if_splits)
  from this(1) spec [OF this(2), of 0] spec [OF this(2), of 1] show ?thesis by simp
qed

end
