(* ===== verification/Params.thy ===== *)
theory Params
  imports GoTime
begin

text \<open>
  Query parameters: the public parameter types and their normalization (\<^verbatim>\<open>parameters.go\<close>), the two
  forms of argument lists (\<^verbatim>\<open>arrow.go\<close>, \<^verbatim>\<open>execution.go\<close>), and the C parameter blocks the native layer
  builds from normalized values (\<^verbatim>\<open>internal/native/parameters.go\<close>, \<^verbatim>\<open>internal/native/native.go\<close>).

  A Go value of type \<^verbatim>\<open>any\<close> is its dynamic type with its contents.  The constructors with \<open>Kind\<close> are
  values of other types of that reflection kind, for which \<^verbatim>\<open>driver.DefaultParameterConverter\<close> decides.
  Two functions are outside the repository and are the fields of \<open>param_env\<close>: Arrow's nanosecond
  timestamp of a time, and whether the time zone database knows a name.
\<close>

datatype parameter_type =
    ParameterBool | ParameterInt64 | ParameterUInt64 | ParameterFloat64 | ParameterString
  | ParameterBinary | ParameterDate | ParameterTime | ParameterTimestamp | ParameterDuration
  | ParameterDecimal

text \<open>The values of the two enumerations, which both count from 1.\<close>

fun type_code :: "parameter_type \<Rightarrow> int" where
  "type_code ParameterBool = 1"
| "type_code ParameterInt64 = 2"
| "type_code ParameterUInt64 = 3"
| "type_code ParameterFloat64 = 4"
| "type_code ParameterString = 5"
| "type_code ParameterBinary = 6"
| "type_code ParameterDate = 7"
| "type_code ParameterTime = 8"
| "type_code ParameterTimestamp = 9"
| "type_code ParameterDuration = 10"
| "type_code ParameterDecimal = 11"

datatype go_value =
    VNil
  | VBool bool | VInt64 int64 | VFloat64 "64 word" | VString string | VBytes string | VTime go_time
  | VUint "64 word" | VUint8 "8 word" | VUint16 "16 word" | VUint32 "32 word" | VUint64 "64 word"
  | UInt64 "64 word" | Date "32 word" | Time int64 | Timestamp go_time string
  | Duration int64 | GoDuration int64
  | Decimal string "8 word" "8 word"
  | NullV int "8 word" "8 word" string
  | UInt64Parameter "64 word" | DateParameter "32 word" | TimeParameter int64
  | TimestampParameter int64 string | DurationParameter int64
  | DecimalParameter string "8 word" "8 word"
  | NullParameter parameter_type "8 word" "8 word" string
  | BoolKind bool | IntKind int64 | UintKind "64 word" | FloatKind "64 word" | StringKind string
  | BytesKind string | NilPointer | Pointer go_value | Valuer "go_error + go_value"
  | DecimalDecompose | OtherKind string

record param_env =
  timestamp_from_time :: "go_time \<Rightarrow> go_error + int64"
  known_location :: "string \<Rightarrow> bool"

text \<open>A concrete environment, for evaluating the model.\<close>

definition sample_param_env :: param_env where
  "sample_param_env = \<lparr>timestamp_from_time = (\<lambda>t. Inr (word_of_int (tm_sec t * 10 ^ 9 + int (tm_nsec t)))),
     known_location = (\<lambda>name. name = ''Europe/Paris'')\<rparr>"

subsection \<open>Constructors and accessors of the parameter types\<close>

definition date_from_time :: "go_time \<Rightarrow> 32 word" where
  "date_from_time t = word_of_int (tm_sec (utc_midnight (civil_day t)) sdiv seconds_per_day)"

definition date_time :: "32 word \<Rightarrow> go_time" where
  "date_time days = unix_utc (sint days * seconds_per_day) 0"

definition time_from_time :: "go_time \<Rightarrow> int64" where
  "time_from_time t =
     (case go_clock t of (hour, minute, second) \<Rightarrow>
        word_of_int (hour * (3600 * 10 ^ 9)) + word_of_int (minute * (60 * 10 ^ 9)) +
        word_of_int (second * 10 ^ 9) + word_of_int (int (tm_nsec t)))"

definition new_time_nanos :: "int64 \<Rightarrow> go_error + int64" where
  "new_time_nanos n =
     (if n <s 0 \<or> word_of_int nanos_per_day \<le>s n
      then Inl (Plain ''datafusion time parameter nanoseconds out of range'') else Inr n)"

definition time_time :: "int64 \<Rightarrow> go_time" where
  "time_time n = unix_utc 0 (sint n)"

definition timestamp_zone :: "string \<Rightarrow> string" where
  "timestamp_zone tz = (if tz = [] then ''UTC'' else tz)"

definition validate_decimal_type :: "8 word \<Rightarrow> 8 word \<Rightarrow> go_error option" where
  "validate_decimal_type precision scale =
     (if precision = 0 \<or> 38 < precision then Some (Plain ''decimal precision must be in [1,38]'')
      else if scale <s 0 \<or> precision <s scale then Some (Plain ''decimal scale must be in [0,precision]'')
      else None)"

definition new_decimal_string :: "string \<Rightarrow> 8 word \<Rightarrow> 8 word \<Rightarrow> go_error + go_value" where
  "new_decimal_string value precision scale =
     (case validate_decimal_type precision scale of
        Some e \<Rightarrow> Inl e
      | None \<Rightarrow> if value = [] then Inl (Plain ''decimal value is empty'')
                else Inr (Decimal value precision scale))"

definition null_of :: "int \<Rightarrow> go_value" where "null_of typ = NullV typ 0 0 ''UTC''"

definition null_decimal :: "8 word \<Rightarrow> 8 word \<Rightarrow> go_value" where
  "null_decimal precision scale = NullV (type_code ParameterDecimal) precision scale []"

definition null_timestamp :: "string \<Rightarrow> go_value" where
  "null_timestamp tz = NullV (type_code ParameterTimestamp) 0 0 tz"

definition null_time_zone :: "int \<Rightarrow> string \<Rightarrow> string" where
  "null_time_zone typ tz = (if typ = type_code ParameterTimestamp \<and> tz = [] then ''UTC'' else tz)"

text \<open>The constructors that take their values as they are.\<close>

definition time_nanos :: "int64 \<Rightarrow> go_value" where "time_nanos n = Time n"

definition timestamp_of_time :: "go_time \<Rightarrow> go_value" where "timestamp_of_time t = Timestamp t ''UTC''"

definition timestamp_with_time_zone :: "go_time \<Rightarrow> string \<Rightarrow> go_value" where
  "timestamp_with_time_zone t tz = Timestamp t tz"

definition duration_of_time :: "int64 \<Rightarrow> go_value" where "duration_of_time d = Duration d"

definition new_duration_nanos :: "int64 \<Rightarrow> go_value" where "new_duration_nanos n = Duration n"

definition decimal_string :: "string \<Rightarrow> 8 word \<Rightarrow> 8 word \<Rightarrow> go_value" where
  "decimal_string value precision scale = Decimal value precision scale"

subsection \<open>Normalization\<close>

text \<open>\<^verbatim>\<open>driver.IsValue\<close>.\<close>

fun is_value :: "go_value \<Rightarrow> bool" where
  "is_value VNil = True"
| "is_value (VBool b) = True"
| "is_value (VInt64 i) = True"
| "is_value (VFloat64 f) = True"
| "is_value (VString s) = True"
| "is_value (VBytes s) = True"
| "is_value (VTime t) = True"
| "is_value DecimalDecompose = True"
| "is_value v = False"

text \<open>
  \<^verbatim>\<open>driver.DefaultParameterConverter.ConvertValue\<close>: driver values as they are, then a \<^verbatim>\<open>Valuer\<close>, then by
  kind: pointers are followed, unsigned values with the high bit set are refused, structs are refused.
\<close>

definition convert_uint :: "64 word \<Rightarrow> go_error + go_value" where
  "convert_uint u =
     (if max_int64 < u then Inl (Plain ''uint64 values with high bit set are not supported'')
      else Inr (VInt64 u))"

fun convert_value :: "go_value \<Rightarrow> go_error + go_value" where
  "convert_value (Valuer (Inl e)) = Inl e"
| "convert_value (Valuer (Inr v)) =
     (if is_value v then Inr v else Inl (Plain ''non-Value type returned from Value''))"
| "convert_value NilPointer = Inr VNil"
| "convert_value (Pointer v) = convert_value v"
| "convert_value (BoolKind b) = Inr (VBool b)"
| "convert_value (IntKind i) = Inr (VInt64 i)"
| "convert_value (GoDuration i) = Inr (VInt64 i)"
| "convert_value (UintKind u) = convert_uint u"
| "convert_value (VUint u) = convert_uint u"
| "convert_value (VUint8 u) = convert_uint (ucast u)"
| "convert_value (VUint16 u) = convert_uint (ucast u)"
| "convert_value (VUint32 u) = convert_uint (ucast u)"
| "convert_value (VUint64 u) = convert_uint u"
| "convert_value (UInt64 u) = convert_uint u"
| "convert_value (FloatKind f) = Inr (VFloat64 f)"
| "convert_value (StringKind s) = Inr (VString s)"
| "convert_value (BytesKind s) = Inr (VBytes s)"
| "convert_value v = (if is_value v then Inr v else Inl (Plain ''unsupported type''))"

definition timestamp_parameter :: "param_env \<Rightarrow> go_time \<Rightarrow> string \<Rightarrow> go_error + go_value" where
  "timestamp_parameter env t tz =
     rbind (timestamp_from_time env t) (\<lambda>nanos.
       Inr (TimestampParameter nanos (if tz = [] then ''UTC'' else tz)))"

definition time_zone_from_location :: "param_env \<Rightarrow> string \<Rightarrow> string" where
  "time_zone_from_location env name =
     (if name = [] \<or> name = ''Local'' then ''UTC''
      else if name = ''UTC'' then name
      else if \<not> known_location env name then ''UTC''
      else name)"

definition native_parameter_type :: "int \<Rightarrow> go_error + parameter_type" where
  "native_parameter_type typ =
     (if typ = type_code ParameterBool then Inr ParameterBool
      else if typ = type_code ParameterInt64 then Inr ParameterInt64
      else if typ = type_code ParameterUInt64 then Inr ParameterUInt64
      else if typ = type_code ParameterFloat64 then Inr ParameterFloat64
      else if typ = type_code ParameterString then Inr ParameterString
      else if typ = type_code ParameterBinary then Inr ParameterBinary
      else if typ = type_code ParameterDate then Inr ParameterDate
      else if typ = type_code ParameterTime then Inr ParameterTime
      else if typ = type_code ParameterTimestamp then Inr ParameterTimestamp
      else if typ = type_code ParameterDuration then Inr ParameterDuration
      else if typ = type_code ParameterDecimal then Inr ParameterDecimal
      else Inl (Plain ''unsupported parameter type''))"

definition normalize_null :: "int \<Rightarrow> 8 word \<Rightarrow> 8 word \<Rightarrow> string \<Rightarrow> go_error + go_value" where
  "normalize_null typ precision scale tz =
     (case native_parameter_type typ of
        Inl e \<Rightarrow> Inl e
      | Inr ptype \<Rightarrow>
          if typ = type_code ParameterDecimal \<and> precision = 0
          then Inl (Plain ''datafusion NullOf(ParameterDecimal) has no decimal precision or scale; use NullDecimal(precision, scale)'')
          else (case (if typ = type_code ParameterDecimal then validate_decimal_type precision scale else None) of
              Some e \<Rightarrow> Inl e
            | None \<Rightarrow> Inr (NullParameter ptype precision scale
                (if typ = type_code ParameterTimestamp \<and> tz = [] then ''UTC'' else tz))))"

fun normalize_converted :: "param_env \<Rightarrow> go_value \<Rightarrow> go_error + go_value" where
  "normalize_converted env (VTime t) = timestamp_parameter env t (time_zone_from_location env (tm_zone t))"
| "normalize_converted env DecimalDecompose = Inl (Plain ''unsupported parameter type'')"
| "normalize_converted env v = Inr v"

fun normalize_parameter_value :: "param_env \<Rightarrow> go_value \<Rightarrow> go_error + go_value" where
  "normalize_parameter_value env (UInt64Parameter u) = Inr (UInt64Parameter u)"
| "normalize_parameter_value env (DateParameter d) = Inr (DateParameter d)"
| "normalize_parameter_value env (TimeParameter n) = Inr (TimeParameter n)"
| "normalize_parameter_value env (TimestampParameter n tz) = Inr (TimestampParameter n tz)"
| "normalize_parameter_value env (DurationParameter n) = Inr (DurationParameter n)"
| "normalize_parameter_value env (DecimalParameter v p s) = Inr (DecimalParameter v p s)"
| "normalize_parameter_value env (NullParameter t p s tz) = Inr (NullParameter t p s tz)"
| "normalize_parameter_value env (UInt64 u) = Inr (UInt64Parameter u)"
| "normalize_parameter_value env (VUint u) = Inr (UInt64Parameter u)"
| "normalize_parameter_value env (VUint8 u) = Inr (UInt64Parameter (ucast u))"
| "normalize_parameter_value env (VUint16 u) = Inr (UInt64Parameter (ucast u))"
| "normalize_parameter_value env (VUint32 u) = Inr (UInt64Parameter (ucast u))"
| "normalize_parameter_value env (VUint64 u) = Inr (UInt64Parameter u)"
| "normalize_parameter_value env (Date d) = Inr (DateParameter d)"
| "normalize_parameter_value env (Time n) =
     (if n <s 0 \<or> word_of_int nanos_per_day \<le>s n
      then Inl (Plain ''datafusion time parameter nanoseconds out of range'')
      else Inr (TimeParameter n))"
| "normalize_parameter_value env (Timestamp t tz) = timestamp_parameter env t (timestamp_zone tz)"
| "normalize_parameter_value env (Duration n) = Inr (DurationParameter n)"
| "normalize_parameter_value env (GoDuration n) = Inr (DurationParameter n)"
| "normalize_parameter_value env (Decimal v p s) =
     (case validate_decimal_type p s of
        Some e \<Rightarrow> Inl e
      | None \<Rightarrow> if trim_space v = [] then Inl (Plain ''decimal value is empty'')
                else Inr (DecimalParameter v p s))"
| "normalize_parameter_value env (NullV typ p s tz) = normalize_null typ p s tz"
| "normalize_parameter_value env v = rbind (convert_value v) (normalize_converted env)"

text \<open>What normalization may return: the driver's scalar values but times, and the native parameters.\<close>

fun normal_value :: "go_value \<Rightarrow> bool" where
  "normal_value VNil = True"
| "normal_value (VBool b) = True"
| "normal_value (VInt64 i) = True"
| "normal_value (VFloat64 f) = True"
| "normal_value (VString s) = True"
| "normal_value (VBytes s) = True"
| "normal_value (UInt64Parameter u) = True"
| "normal_value (DateParameter d) = True"
| "normal_value (TimeParameter n) = True"
| "normal_value (TimestampParameter n tz) = True"
| "normal_value (DurationParameter n) = True"
| "normal_value (DecimalParameter v p s) = True"
| "normal_value (NullParameter t p s tz) = True"
| "normal_value v = False"

lemma convert_value_is_value: "convert_value v = Inr w \<Longrightarrow> is_value w"
  by (induction v rule: convert_value.induct) (auto simp: convert_uint_def split: if_splits)

lemma normalize_converted_normal:
  "is_value v \<Longrightarrow> normalize_converted env v = Inr w \<Longrightarrow> normal_value w"
  by (cases v) (auto simp: timestamp_parameter_def rbind_Inr_iff)

lemma normalize_default_normal:
  "rbind (convert_value v) (normalize_converted env) = Inr w \<Longrightarrow> normal_value w"
  by (auto simp: rbind_Inr_iff dest: convert_value_is_value normalize_converted_normal)

lemma normalize_null_normal: "normalize_null typ p s tz = Inr w \<Longrightarrow> normal_value w"
  by (auto simp: normalize_null_def split: sum.splits option.splits if_splits)

lemma normalize_normal: "normalize_parameter_value env v = Inr w \<Longrightarrow> normal_value w"
  by (cases v)
     (auto simp del: convert_value.simps simp: timestamp_parameter_def rbind_Inr_iff
        dest: normalize_default_normal normalize_null_normal convert_value_is_value normalize_converted_normal
        split: if_splits option.splits)

lemma normalize_normal_id: "normal_value v \<Longrightarrow> normalize_parameter_value env v = Inr v"
  by (cases v) auto

text \<open>Normalization lands in the closed set of values the native layer binds and is idempotent there, so an
  argument that \<^verbatim>\<open>CheckNamedValue\<close> has already normalized is unchanged when the query normalizes it again.\<close>

theorem normalize_idempotent:
  assumes "normalize_parameter_value env v = Inr w"
  shows "normal_value w \<and> normalize_parameter_value env w = Inr w"
  using assms normalize_normal normalize_normal_id by blast

theorem normalize_idempotent_witness:
  "normalize_parameter_value sample_param_env (TimestampParameter 5000000000 ''UTC'') =
     Inr (TimestampParameter 5000000000 ''UTC'')"
proof -
  have "normalize_parameter_value sample_param_env (Timestamp (unix_utc 5 0) []) =
      Inr (TimestampParameter 5000000000 ''UTC'')"
    by (simp add: sample_param_env_def timestamp_parameter_def timestamp_zone_def unix_utc_def)
  from normalize_idempotent [OF this] show ?thesis by simp
qed

subsection \<open>Argument lists\<close>

record named_value =
  nv_name :: string
  nv_ordinal :: int
  nv_value :: go_value

datatype query_arg = SqlNamedArg string go_value | DriverNamedValue string int go_value | PlainArg go_value

text \<open>\<^verbatim>\<open>checkNamedValue\<close> normalizes the value in place.\<close>

definition check_named_value :: "param_env \<Rightarrow> named_value \<Rightarrow> go_error + named_value" where
  "check_named_value env nv =
     rbind (normalize_parameter_value env (nv_value nv)) (\<lambda>v. Inr (nv\<lparr>nv_value := v\<rparr>))"

definition normalize_named_value_slice :: "param_env \<Rightarrow> named_value list \<Rightarrow> go_error + named_value list" where
  "normalize_named_value_slice env args =
     traverse (\<lambda>(i, arg).
       rbind (normalize_parameter_value env (nv_value arg)) (\<lambda>v.
         Inr \<lparr>nv_name = nv_name arg,
              nv_ordinal = (if nv_ordinal arg = 0 then int i + 1 else nv_ordinal arg),
              nv_value = v\<rparr>)) (enumerate 0 args)"

definition positional_named_values :: "go_value list \<Rightarrow> named_value list" where
  "positional_named_values args =
     map (\<lambda>(i, v). \<lparr>nv_name = [], nv_ordinal = int i + 1, nv_value = v\<rparr>) (enumerate 0 args)"

fun named_arg :: "param_env \<Rightarrow> nat \<times> query_arg \<Rightarrow> go_error + named_value" where
  "named_arg env (i, SqlNamedArg name v) =
     rbind (normalize_parameter_value env v) (\<lambda>w.
       Inr \<lparr>nv_name = name, nv_ordinal = int i + 1, nv_value = w\<rparr>)"
| "named_arg env (i, DriverNamedValue name ordinal v) =
     rbind (normalize_parameter_value env v) (\<lambda>w.
       Inr \<lparr>nv_name = name, nv_ordinal = (if ordinal = 0 then int i + 1 else ordinal), nv_value = w\<rparr>)"
| "named_arg env (i, PlainArg v) =
     rbind (normalize_parameter_value env v) (\<lambda>w.
       Inr \<lparr>nv_name = [], nv_ordinal = int i + 1, nv_value = w\<rparr>)"

definition named_values :: "param_env \<Rightarrow> query_arg list \<Rightarrow> go_error + named_value list" where
  "named_values env args = traverse (named_arg env) (enumerate 0 args)"

subsection \<open>C parameter blocks\<close>

text \<open>
  Buffers handed to C come from the C heap: a pointer is the address of a live buffer with the bytes
  copied into it, \<open>None\<close> for a null pointer.  The list of addresses allocated for a statement is the
  \<^verbatim>\<open>allocs\<close> the cleanup function frees.
\<close>

record c_heap =
  ch_next :: nat
  ch_live :: "nat list"

type_synonym c_ptr = "(nat \<times> string) option"

record c_param =
  cp_index :: int
  cp_name :: c_ptr
  cp_name_len :: nat
  cp_type_code :: int
  cp_is_null :: int
  cp_int64 :: int64
  cp_uint64 :: "64 word"
  cp_float64 :: "64 word"
  cp_data :: c_ptr
  cp_data_len :: nat
  cp_precision :: "8 word"
  cp_scale :: "8 word"
  cp_timezone :: c_ptr
  cp_timezone_len :: nat

definition zero_param :: c_param where
  "zero_param = \<lparr>cp_index = 0, cp_name = None, cp_name_len = 0, cp_type_code = 0, cp_is_null = 0,
     cp_int64 = 0, cp_uint64 = 0, cp_float64 = 0, cp_data = None, cp_data_len = 0, cp_precision = 0,
     cp_scale = 0, cp_timezone = None, cp_timezone_len = 0\<rparr>"

definition c_param_data :: "string \<Rightarrow> nat list \<times> c_heap \<Rightarrow> c_ptr \<times> nat list \<times> c_heap" where
  "c_param_data bytes s =
     (case s of (allocs, h) \<Rightarrow>
        if bytes = [] then (None, allocs, h)
        else (Some (ch_next h, bytes), allocs @ [ch_next h],
              h\<lparr>ch_next := ch_next h + 1, ch_live := ch_next h # ch_live h\<rparr>))"

definition c_free_all :: "nat list \<Rightarrow> c_heap \<Rightarrow> c_heap" where
  "c_free_all allocs h = h\<lparr>ch_live := fold remove1 allocs (ch_live h)\<rparr>"

fun set_statement_param ::
  "c_param \<Rightarrow> go_value \<Rightarrow> nat list \<times> c_heap \<Rightarrow> go_error + c_param \<times> nat list \<times> c_heap" where
  "set_statement_param p VNil s = Inr (p\<lparr>cp_is_null := 1\<rparr>, s)"
| "set_statement_param p (VBool b) s =
     Inr ((if b then p\<lparr>cp_type_code := type_code ParameterBool, cp_int64 := 1\<rparr>
           else p\<lparr>cp_type_code := type_code ParameterBool\<rparr>), s)"
| "set_statement_param p (VInt64 i) s =
     Inr (p\<lparr>cp_type_code := type_code ParameterInt64, cp_int64 := i\<rparr>, s)"
| "set_statement_param p (UInt64Parameter u) s =
     Inr (p\<lparr>cp_type_code := type_code ParameterUInt64, cp_uint64 := u\<rparr>, s)"
| "set_statement_param p (VFloat64 f) s =
     Inr (p\<lparr>cp_type_code := type_code ParameterFloat64, cp_float64 := f\<rparr>, s)"
| "set_statement_param p (DateParameter d) s =
     Inr (p\<lparr>cp_type_code := type_code ParameterDate, cp_int64 := scast d\<rparr>, s)"
| "set_statement_param p (TimeParameter n) s =
     Inr (p\<lparr>cp_type_code := type_code ParameterTime, cp_int64 := n\<rparr>, s)"
| "set_statement_param p (TimestampParameter n tz) s =
     (case c_param_data tz s of (z, s1) \<Rightarrow>
        Inr (p\<lparr>cp_type_code := type_code ParameterTimestamp, cp_int64 := n, cp_timezone := z,
               cp_timezone_len := length tz\<rparr>, s1))"
| "set_statement_param p (DurationParameter n) s =
     Inr (p\<lparr>cp_type_code := type_code ParameterDuration, cp_int64 := n\<rparr>, s)"
| "set_statement_param p (DecimalParameter v prec sc) s =
     (case c_param_data v s of (d, s1) \<Rightarrow>
        Inr (p\<lparr>cp_type_code := type_code ParameterDecimal, cp_data := d, cp_data_len := length v,
               cp_precision := prec, cp_scale := sc\<rparr>, s1))"
| "set_statement_param p (NullParameter t prec sc tz) s =
     (case c_param_data tz s of (z, s1) \<Rightarrow>
        Inr (p\<lparr>cp_type_code := type_code t, cp_is_null := 1, cp_precision := prec, cp_scale := sc,
               cp_timezone := z, cp_timezone_len := length tz\<rparr>, s1))"
| "set_statement_param p (VString v) s =
     (case c_param_data v s of (d, s1) \<Rightarrow>
        Inr (p\<lparr>cp_type_code := type_code ParameterString, cp_data := d, cp_data_len := length v\<rparr>, s1))"
| "set_statement_param p (VBytes v) s =
     (case c_param_data v s of (d, s1) \<Rightarrow>
        Inr (p\<lparr>cp_type_code := type_code ParameterBinary, cp_data := d, cp_data_len := length v\<rparr>, s1))"
| "set_statement_param p v s = Inl (Plain ''unsupported parameter type'')"

text \<open>
  The loop over the arguments; \<open>n\<close> is \<^verbatim>\<open>len(args)\<close>.  Every error path runs the cleanup before it returns.
\<close>

fun statement_params_loop ::
  "nat \<Rightarrow> nat \<Rightarrow> named_value list \<Rightarrow> c_param list \<Rightarrow> nat list \<times> c_heap \<Rightarrow>
   (go_error + c_param list \<times> nat list) \<times> c_heap" where
  "statement_params_loop n i [] ps (allocs, h) = (Inr (ps, allocs), h)"
| "statement_params_loop n i (arg # args) ps (allocs, h) =
     (let ordinal = (if nv_ordinal arg = 0 then int i + 1 else nv_ordinal arg) in
      if ordinal \<le> 0
      then (Inl (Plain ''parameter ordinal must be positive''), c_free_all allocs h)
      else if int n < ordinal
      then (Inl (Plain ''parameter ordinal exceeds the number of arguments''), c_free_all allocs h)
      else
        let p0 = zero_param\<lparr>cp_index := ordinal\<rparr>;
            (p1, allocs1, h1) =
              (if nv_name arg \<noteq> [] then
                 (case c_param_data (nv_name arg) (allocs, h) of (q, a, k) \<Rightarrow>
                    (p0\<lparr>cp_name := q, cp_name_len := length (nv_name arg)\<rparr>, a, k))
               else (p0, allocs, h))
        in case set_statement_param p1 (nv_value arg) (allocs1, h1) of
             Inl e \<Rightarrow> (Inl e, c_free_all allocs1 h1)
           | Inr (p2, s2) \<Rightarrow> statement_params_loop n (i + 1) args (ps @ [p2]) s2)"

definition statement_params ::
  "named_value list \<Rightarrow> c_heap \<Rightarrow> (go_error + c_param list \<times> nat list) \<times> c_heap" where
  "statement_params args h = statement_params_loop (length args) 0 args [] ([], h)"

definition check_arg_count :: "int \<Rightarrow> named_value list \<Rightarrow> go_error option" where
  "check_arg_count want args =
     (if want < 0 \<or> int (length args) = want then None
      else Some (Plain (''datafusion-go SQL statement expects '' @ show_int want @ '' argument'' @
        (if want = 1 then [] else ''s'') @ '', got '' @ show_nat (length args) @
        ''; pass exactly one argument for each ?, $1/$2, or distinct $name placeholder'')))"

subsection \<open>Binding neither leaks nor loses\<close>

text \<open>The buffers of a statement under construction, over those live before it.\<close>

definition owns_allocs :: "nat list \<Rightarrow> nat list \<times> c_heap \<Rightarrow> bool" where
  "owns_allocs live0 s =
     (case s of (allocs, h) \<Rightarrow>
        ch_live h = rev allocs @ live0 \<and> distinct allocs \<and> (\<forall>a \<in> set allocs. a < ch_next h))"

lemma fold_remove1_rev: "distinct xs \<Longrightarrow> fold remove1 xs (rev xs @ ys) = ys"
  by (induction xs) (auto simp: remove1_append)

lemma owns_allocs_free: "owns_allocs live0 (allocs, h) \<Longrightarrow> ch_live (c_free_all allocs h) = live0"
  by (simp add: owns_allocs_def c_free_all_def fold_remove1_rev)

lemma owns_c_param_data: "owns_allocs live0 s \<Longrightarrow> c_param_data v s = (q, s1) \<Longrightarrow> owns_allocs live0 s1"
  by (auto simp: owns_allocs_def c_param_data_def less_Suc_eq split: prod.splits if_splits)

lemma owns_set_statement_param:
  "owns_allocs live0 s \<Longrightarrow> set_statement_param p v s = Inr (p1, s1) \<Longrightarrow> owns_allocs live0 s1"
  by (cases v) (auto dest: owns_c_param_data split: prod.splits)

lemma statement_params_loop_owned:
  assumes "owns_allocs live0 s" and "statement_params_loop n i args ps s = (res, h1)"
  shows "(case res of Inl e \<Rightarrow> ch_live h1 = live0 | Inr (qs, allocs) \<Rightarrow> owns_allocs live0 (allocs, h1))"
  using assms
proof (induction args arbitrary: i ps s)
  case Nil
  then show ?case by (cases s) auto
next
  case (Cons arg args)
  obtain allocs h where s: "s = (allocs, h)" by fastforce
  obtain p1 allocs1 h1' where named:
    "(if nv_name arg \<noteq> [] then
        (case c_param_data (nv_name arg) (allocs, h) of (q, a, k) \<Rightarrow>
           (zero_param\<lparr>cp_index := (if nv_ordinal arg = 0 then int i + 1 else nv_ordinal arg),
              cp_name := q, cp_name_len := length (nv_name arg)\<rparr>, a, k))
      else (zero_param\<lparr>cp_index := (if nv_ordinal arg = 0 then int i + 1 else nv_ordinal arg)\<rparr>, allocs, h))
     = (p1, allocs1, h1')"
    by (metis prod_cases3)
  have own1: "owns_allocs live0 (allocs1, h1')"
    using Cons.prems(1) s named owns_c_param_data [of live0 "(allocs, h)" "nv_name arg"]
    by (auto split: if_splits prod.splits)
  have free: "ch_live (c_free_all allocs h) = live0" "ch_live (c_free_all allocs1 h1') = live0"
    using Cons.prems(1) s own1 owns_allocs_free by blast+
  show ?case
  proof (cases "set_statement_param p1 (nv_value arg) (allocs1, h1')")
    case (Inl e)
    with Cons.prems(2) s named free show ?thesis
      by (auto simp: Let_def split: if_splits)
  next
    case (Inr q)
    obtain p2 s2 where q: "q = (p2, s2)" by (cases q) auto
    with Inr own1 have "owns_allocs live0 s2" by (auto intro: owns_set_statement_param)
    with Cons.IH have "statement_params_loop n (i + 1) args (ps @ [p2]) s2 = (res, h1) \<Longrightarrow> ?thesis" by blast
    with Cons.prems(2) s named free Inr q show ?thesis
      by (auto simp: Let_def split: if_splits)
  qed
qed

text \<open>Converting arguments for a native call never leaks a C buffer: on any error every buffer allocated so far
  has been freed before returning, and on success the returned cleanup list frees exactly the
  buffers that were allocated.\<close>

theorem statement_params_no_leak:
  "(case statement_params args h of
      (Inl e, h1) \<Rightarrow> ch_live h1 = ch_live h
    | (Inr (ps, allocs), h1) \<Rightarrow> ch_live (c_free_all allocs h1) = ch_live h)"
proof -
  obtain res h1 where r: "statement_params_loop (length args) 0 args [] ([], h) = (res, h1)" by fastforce
  have "owns_allocs (ch_live h) ([], h)" by (simp add: owns_allocs_def)
  from statement_params_loop_owned [OF this r] r show ?thesis
    by (auto simp: statement_params_def owns_allocs_free split: sum.splits prod.splits)
qed

subsection \<open>Reading a parameter block back\<close>

definition ptr_bytes :: "c_ptr \<Rightarrow> string" where
  "ptr_bytes q = (case q of None \<Rightarrow> [] | Some (a, b) \<Rightarrow> b)"

definition type_of_code :: "int \<Rightarrow> parameter_type option" where
  "type_of_code c = (case native_parameter_type c of Inl e \<Rightarrow> None | Inr t \<Rightarrow> Some t)"

text \<open>
  The value a parameter block denotes by the contract of the C header: a null flag with a type code is
  a typed null, without one an untyped null; otherwise the type code selects the field.
\<close>

definition read_param :: "c_param \<Rightarrow> go_value" where
  "read_param p =
     (case type_of_code (cp_type_code p) of
        None \<Rightarrow> VNil
      | Some t \<Rightarrow>
          if cp_is_null p = 1 then NullParameter t (cp_precision p) (cp_scale p) (ptr_bytes (cp_timezone p))
          else (case t of
              ParameterBool \<Rightarrow> VBool (cp_int64 p \<noteq> 0)
            | ParameterInt64 \<Rightarrow> VInt64 (cp_int64 p)
            | ParameterUInt64 \<Rightarrow> UInt64Parameter (cp_uint64 p)
            | ParameterFloat64 \<Rightarrow> VFloat64 (cp_float64 p)
            | ParameterString \<Rightarrow> VString (ptr_bytes (cp_data p))
            | ParameterBinary \<Rightarrow> VBytes (ptr_bytes (cp_data p))
            | ParameterDate \<Rightarrow> DateParameter (scast (cp_int64 p))
            | ParameterTime \<Rightarrow> TimeParameter (cp_int64 p)
            | ParameterTimestamp \<Rightarrow> TimestampParameter (cp_int64 p) (ptr_bytes (cp_timezone p))
            | ParameterDuration \<Rightarrow> DurationParameter (cp_int64 p)
            | ParameterDecimal \<Rightarrow> DecimalParameter (ptr_bytes (cp_data p)) (cp_precision p) (cp_scale p)))"

lemma type_of_code_code [simp]: "type_of_code (type_code t) = Some t"
  by (cases t) (simp_all add: type_of_code_def native_parameter_type_def)

lemma type_of_code_0 [simp]: "type_of_code 0 = None"
  by (simp add: type_of_code_def native_parameter_type_def)

lemma scast_scast32 [simp]: "scast (scast (d :: 32 word) :: 64 word) = d"
  by (rule scast_up_scast_id) (simp add: is_up)

lemma ptr_bytes_c_param_data: "c_param_data v s = (q, s1) \<Longrightarrow> ptr_bytes q = v"
  by (auto simp: c_param_data_def ptr_bytes_def split: prod.splits if_splits)

text \<open>A block that only carries an ordinal and a name.\<close>

definition fresh_param :: "c_param \<Rightarrow> bool" where
  "fresh_param p \<longleftrightarrow>
     (\<exists>i q k. p = zero_param\<lparr>cp_index := i, cp_name := q, cp_name_len := k\<rparr>)"

lemma type_of_code_numerals [simp]:
  "type_of_code 1 = Some ParameterBool" "type_of_code 2 = Some ParameterInt64"
  "type_of_code 3 = Some ParameterUInt64" "type_of_code 4 = Some ParameterFloat64"
  "type_of_code 5 = Some ParameterString" "type_of_code 6 = Some ParameterBinary"
  "type_of_code 7 = Some ParameterDate" "type_of_code 8 = Some ParameterTime"
  "type_of_code 9 = Some ParameterTimestamp" "type_of_code 10 = Some ParameterDuration"
  "type_of_code 11 = Some ParameterDecimal"
  by (simp_all add: type_of_code_def native_parameter_type_def)

lemma set_statement_param_read:
  assumes "normal_value v" and "fresh_param p"
  shows "\<exists>p1 s1. set_statement_param p v s = Inr (p1, s1) \<and> read_param p1 = v \<and> cp_index p1 = cp_index p \<and>
           cp_name p1 = cp_name p"
  using assms
  by (cases v)
     (auto simp: fresh_param_def zero_param_def read_param_def split: prod.splits
       dest: ptr_bytes_c_param_data)

text \<open>The position an argument is bound at.\<close>

definition bound_ordinal :: "nat \<Rightarrow> named_value \<Rightarrow> int" where
  "bound_ordinal i arg = (if nv_ordinal arg = 0 then int i + 1 else nv_ordinal arg)"

definition ordinals_ok :: "nat \<Rightarrow> nat \<Rightarrow> named_value list \<Rightarrow> bool" where
  "ordinals_ok n i args \<longleftrightarrow>
     (\<forall>(k, arg) \<in> set (enumerate i args). 0 < bound_ordinal k arg \<and> bound_ordinal k arg \<le> int n)"

lemma ordinals_ok_Cons:
  "ordinals_ok n i (arg # args) \<longleftrightarrow>
     0 < bound_ordinal i arg \<and> bound_ordinal i arg \<le> int n \<and> ordinals_ok n (Suc i) args"
  by (simp add: ordinals_ok_def)

lemma statement_params_loop_reads:
  assumes "\<forall>arg \<in> set args. normal_value (nv_value arg)"
  shows "(case fst (statement_params_loop n i args ps s) of
            Inl e \<Rightarrow> \<not> ordinals_ok n i args
          | Inr (qs, allocs) \<Rightarrow> ordinals_ok n i args \<and>
              map read_param qs = map read_param ps @ map nv_value args \<and>
              map cp_index qs = map cp_index ps @ map (\<lambda>(k, arg). bound_ordinal k arg) (enumerate i args))"
  using assms
proof (induction args arbitrary: i ps s)
  case Nil
  then show ?case by (cases s) (auto simp: ordinals_ok_def)
next
  case (Cons arg args)
  obtain allocs h where s: "s = (allocs, h)" by fastforce
  define p0 where "p0 = zero_param\<lparr>cp_index := bound_ordinal i arg\<rparr>"
  obtain p1 allocs1 h1 where named:
    "(if nv_name arg \<noteq> [] then
        (case c_param_data (nv_name arg) (allocs, h) of (q, a, k) \<Rightarrow>
           (p0\<lparr>cp_name := q, cp_name_len := length (nv_name arg)\<rparr>, a, k))
      else (p0, allocs, h)) = (p1, allocs1, h1)"
    by (metis prod_cases3)
  have p0: "p0 = zero_param\<lparr>cp_index := bound_ordinal i arg, cp_name := None, cp_name_len := 0\<rparr>"
    by (simp add: p0_def zero_param_def)
  have fresh: "fresh_param p1" "cp_index p1 = bound_ordinal i arg"
    using named unfolding fresh_param_def p0 by (auto split: if_splits prod.splits)
  obtain p2 s2 where p2: "set_statement_param p1 (nv_value arg) (allocs1, h1) = Inr (p2, s2)"
    "read_param p2 = nv_value arg" "cp_index p2 = bound_ordinal i arg"
    using set_statement_param_read [OF _ fresh(1), of "nv_value arg"] Cons.prems fresh(2) by fastforce
  have IH: "case fst (statement_params_loop n (Suc i) args (ps @ [p2]) s2) of
            Inl e \<Rightarrow> \<not> ordinals_ok n (Suc i) args
          | Inr (qs, allocs) \<Rightarrow> ordinals_ok n (Suc i) args \<and>
              map read_param qs = map read_param (ps @ [p2]) @ map nv_value args \<and>
              map cp_index qs = map cp_index (ps @ [p2]) @
                map (\<lambda>(k, arg). bound_ordinal k arg) (enumerate (Suc i) args)"
    using Cons by simp
  have step: "statement_params_loop n i (arg # args) ps s =
    (if bound_ordinal i arg \<le> 0
     then (Inl (Plain ''parameter ordinal must be positive''), c_free_all allocs h)
     else if int n < bound_ordinal i arg
     then (Inl (Plain ''parameter ordinal exceeds the number of arguments''), c_free_all allocs h)
     else statement_params_loop n (Suc i) args (ps @ [p2]) s2)"
    using s named p2(1) by (auto simp: Let_def bound_ordinal_def p0_def)
  show ?case
    using IH p2 unfolding step ordinals_ok_Cons by (auto split: sum.splits)
qed



subsection \<open>Dates and times\<close>


lemma midnight_sdiv: "tm_sec (utc_midnight d) sdiv seconds_per_day = d"
  by (simp add: utc_midnight_def seconds_per_day_def signed_divide_int_def sgn_if abs_mult) 

lemma date_from_time_day: "date_from_time t = word_of_int (civil_day t)"
  by (simp add: date_from_time_def midnight_sdiv)

lemma civil_day_date: "civil_day (date_time d) = sint d"
  by (simp add: civil_day_def date_time_def seconds_per_day_def)

lemma clock_nanos:
  assumes "go_clock t = (h, m, s)"
  shows "h * 3600 + m * 60 + s = local_second t mod seconds_per_day"
  using assms hms_split [of "local_second t mod seconds_per_day"] by (auto simp: go_clock_def Let_def)

definition day_nanos :: "go_time \<Rightarrow> int" where
  "day_nanos t = local_second t mod seconds_per_day * 10 ^ 9 + int (tm_nsec t)"

lemma time_from_time_word: "time_from_time t = word_of_int (day_nanos t)"
proof -
  obtain h m s where hms: "go_clock t = (h, m, s)" by (cases "go_clock t") auto
  have "day_nanos t = h * (3600 * 10 ^ 9) + m * (60 * 10 ^ 9) + s * 10 ^ 9 + int (tm_nsec t)"
    using clock_nanos [OF hms] by (simp add: day_nanos_def algebra_simps flip: distrib_left distrib_right)
  then show ?thesis by (simp only: time_from_time_def hms prod.case of_int_add)
qed

lemma day_nanos_range: "wf_time t \<Longrightarrow> 0 \<le> day_nanos t \<and> day_nanos t < nanos_per_day"
proof -
  assume t: "wf_time t"
  have "0 \<le> local_second t mod seconds_per_day" "local_second t mod seconds_per_day < seconds_per_day"
    by (simp_all add: seconds_per_day_def)
  with t show ?thesis by (simp add: day_nanos_def wf_time_def nanos_per_day_def seconds_per_day_def)
qed

lemma sint_small: "0 \<le> i \<Longrightarrow> i < nanos_per_day \<Longrightarrow> sint (word_of_int i :: int64) = i"
  by (rule sint_of_int64) (simp add: in_int64_def nanos_per_day_def)


definition paris_evening :: go_time where
  "paris_evening = \<lparr>tm_sec = 1700000000, tm_nsec = 5, tm_offset = 3600, tm_zone = ''Europe/Paris''\<rparr>"


end
