(* ===== verification/ProviderReaders.thy ===== *)
theory ProviderReaders
  imports ArrowModel
begin

text \<open>
  \<^verbatim>\<open>provider_reader.go\<close> and \<^verbatim>\<open>internal/native/record_reader.go\<close>: readers that wrap a reader.  A Go interface
  value \<^verbatim>\<open>array.RecordReader\<close> is a state with its method table, \<open>reader_ops\<close>, so that a wrapper is
  again such a value and wrappers compose.  \<^verbatim>\<open>ProjectReader\<close> and \<^verbatim>\<open>LimitReader\<close> build the same wrapper;
  the panic-safe reader wraps methods that may panic.  The locale \<open>record_reader\<close> is the
  contract of the interface: an abstraction of the state to the stream still to come.  Slicing a
  batch is Arrow's; it is the parameter \<open>new_slice\<close> with the law \<open>slice_law\<close>.  Schema metadata is not modelled.
\<close>

type_synonym schema = "arrow_field list"

record 's reader_ops =
  op_schema :: "'s \<Rightarrow> schema option"
  op_next :: "'s \<Rightarrow> bool \<times> 's"
  op_batch :: "'s \<Rightarrow> batch option"
  op_err :: "'s \<Rightarrow> go_error option"
  op_release :: "'s \<Rightarrow> 's"

type_synonym stream = "batch option list \<times> go_error option"

text \<open>Reading to the end: \<^verbatim>\<open>for reader.Next() { ... }\<close> and then \<^verbatim>\<open>reader.Err()\<close>, within a number of calls.\<close>

fun drain :: "'s reader_ops \<Rightarrow> nat \<Rightarrow> 's \<Rightarrow> stream option" where
  "drain ops 0 s = None"
| "drain ops (Suc n) s =
     (case op_next ops s of
        (False, t) \<Rightarrow> Some ([], op_err ops t)
      | (True, t) \<Rightarrow>
          (case drain ops n t of None \<Rightarrow> None | Some (bs, e) \<Rightarrow> Some (op_batch ops t # bs, e)))"

subsection \<open>The contract of a reader\<close>

locale record_reader =
  fixes ops :: "'s reader_ops" and stream :: "'s \<Rightarrow> stream" and ok :: "'s \<Rightarrow> bool"
  assumes next_some: "ok s \<Longrightarrow> stream s = (x # xs, e) \<Longrightarrow>
      \<exists>t. op_next ops s = (True, t) \<and> op_batch ops t = x \<and> stream t = (xs, e) \<and> ok t"
    and next_none: "ok s \<Longrightarrow> stream s = ([], e) \<Longrightarrow>
      \<exists>t. op_next ops s = (False, t) \<and> op_err ops t = e \<and> stream t = ([], e) \<and> ok t"
begin

lemma drain_stream: "ok s \<Longrightarrow> length (fst (stream s)) < n \<Longrightarrow> drain ops n s = Some (stream s)"
proof (induction n arbitrary: s)
  case (Suc n)
  obtain xs e where st: "stream s = (xs, e)" by fastforce
  show ?case
  proof (cases xs)
    case Nil
    with next_none [OF Suc.prems(1), of e] st show ?thesis by auto
  next
    case (Cons x ys)
    with next_some [OF Suc.prems(1), of x ys e] st obtain t where t:
      "op_next ops s = (True, t)" "op_batch ops t = x" "stream t = (ys, e)" "ok t" by auto
    with Suc.IH [OF t(4)] Suc.prems(2) st Cons show ?thesis by simp
  qed
qed simp

lemma drain_more: "ok s \<Longrightarrow> drain ops n s = Some r \<Longrightarrow> r = stream s"
proof (induction n arbitrary: s r)
  case (Suc n)
  obtain xs e where st: "stream s = (xs, e)" by fastforce
  show ?case
  proof (cases xs)
    case Nil
    with next_none [OF Suc.prems(1), of e] st Suc.prems(2) show ?thesis by auto
  next
    case (Cons x ys)
    with next_some [OF Suc.prems(1), of x ys e] st obtain t where t:
      "op_next ops s = (True, t)" "op_batch ops t = x" "stream t = (ys, e)" "ok t" by auto
    with Suc.IH [OF t(4)] Suc.prems(2) st Cons show ?thesis by (auto split: option.splits)
  qed
qed simp

end

text \<open>A reader that also keeps to its schema: it never hands out a nil batch or one of another schema.\<close>

locale checked_reader = record_reader +
  fixes sch :: "'a \<Rightarrow> schema"
  assumes conforms: "ok s \<Longrightarrow> x \<in> set (fst (stream s)) \<Longrightarrow> \<exists>b. x = Some b \<and> bt_fields b = sch s"
    and schema_op: "ok s \<Longrightarrow> op_schema ops s = Some (sch s)"
begin

lemma drain_conforms:
  "ok s \<Longrightarrow> drain ops n s = Some (bs, e) \<Longrightarrow> x \<in> set bs \<Longrightarrow> \<exists>b. x = Some b \<and> op_schema ops s = Some (bt_fields b)"
  using conforms [of s x] schema_op [of s] drain_more [of s n "(bs, e)"] by (metis fst_conv)

end

subsection \<open>The wrapping reader\<close>

text \<open>
  Batches are reference counted.  The ledger \<open>pv_acquired\<close>, \<open>pv_dropped\<close> counts the references the reader
  has taken (\<^verbatim>\<open>Retain\<close>, a new projected batch, a new new_slice) and given back.
\<close>

record 's provider_reader =
  pv_refs :: int
  pv_inner :: 's
  pv_input_schema :: schema
  pv_schema :: schema
  pv_projection :: "int list option"
  pv_remaining :: int
  pv_current :: "batch option"
  pv_err :: "go_error option"
  pv_done :: bool
  pv_acquired :: nat
  pv_dropped :: nat

definition provider_reader_schema :: "'s reader_ops \<Rightarrow> 's option \<Rightarrow> go_error + schema" where
  "provider_reader_schema ops reader =
     (case reader of
        None \<Rightarrow> Inl (Plain ''datafusion reader is nil'')
      | Some s \<Rightarrow> (case op_schema ops s of
            None \<Rightarrow> Inl (Plain ''datafusion reader schema is nil'') | Some sch \<Rightarrow> Inr sch))"

definition new_provider_reader ::
  "'s \<Rightarrow> schema \<Rightarrow> schema \<Rightarrow> int list option \<Rightarrow> int \<Rightarrow> 's provider_reader" where
  "new_provider_reader inner input_schema schema projection limit =
     \<lparr>pv_refs = 1, pv_inner = inner, pv_input_schema = input_schema, pv_schema = schema,
      pv_projection = projection, pv_remaining = limit, pv_current = None, pv_err = None,
      pv_done = False, pv_acquired = 0, pv_dropped = 0\<rparr>"

definition projection_field :: "schema \<Rightarrow> int \<Rightarrow> go_error + arrow_field" where
  "projection_field sch index =
     (if index < 0 \<or> int (length sch) \<le> index
      then Inl (Plain (''datafusion projection index '' @ show_int index @ '' outside schema with '' @
             show_nat (length sch) @ '' fields''))
      else Inr (sch ! nat index))"

definition project_reader ::
  "'s reader_ops \<Rightarrow> 's option \<Rightarrow> int list option \<Rightarrow> go_error + 's provider_reader" where
  "project_reader ops reader indices =
     rbind (provider_reader_schema ops reader) (\<lambda>sch.
       case indices of
         None \<Rightarrow> Inr (new_provider_reader (the reader) sch sch None (- 1))
       | Some projection \<Rightarrow>
           rbind (traverse (projection_field sch) projection) (\<lambda>flds.
             Inr (new_provider_reader (the reader) sch flds (Some projection) (- 1))))"

definition limit_reader ::
  "'s reader_ops \<Rightarrow> 's option \<Rightarrow> int \<Rightarrow> go_error + 's provider_reader" where
  "limit_reader ops reader limit =
     rbind (provider_reader_schema ops reader) (\<lambda>sch.
       if limit < - 1 then Inl (Plain ''datafusion reader limit must be -1 or nonnegative'')
       else Inr (new_provider_reader (the reader) sch sch None limit))"

definition drop_current :: "'s provider_reader \<Rightarrow> 's provider_reader" where
  "drop_current r =
     (case pv_current r of None \<Rightarrow> r
      | Some b \<Rightarrow> r\<lparr>pv_current := None, pv_dropped := pv_dropped r + 1\<rparr>)"

definition provider_retain :: "'s provider_reader \<Rightarrow> 's provider_reader" where
  "provider_retain r = r\<lparr>pv_refs := pv_refs r + 1\<rparr>"

definition provider_release :: "'s reader_ops \<Rightarrow> 's provider_reader \<Rightarrow> 's provider_reader" where
  "provider_release ops r =
     (let r1 = r\<lparr>pv_refs := pv_refs r - 1\<rparr> in
      if pv_refs r1 = 0
      then (let r2 = drop_current r1 in r2\<lparr>pv_inner := op_release ops (pv_inner r2)\<rparr>)
      else r1)"

definition project_batch :: "schema \<Rightarrow> int list option \<Rightarrow> batch \<Rightarrow> batch" where
  "project_batch sch projection b =
     (case projection of
        None \<Rightarrow> b
      | Some is \<Rightarrow> b\<lparr>bt_fields := sch, bt_cols := map (\<lambda>i. bt_cols b ! nat i) is\<rparr>)"

definition limit_current ::
  "(batch \<Rightarrow> nat \<Rightarrow> batch) \<Rightarrow> batch \<Rightarrow> 's provider_reader \<Rightarrow> 's provider_reader" where
  "limit_current new_slice b r =
     (if 0 \<le> pv_remaining r then
        (if pv_remaining r < int (bt_rows b)
         then (let limited = new_slice b (nat (pv_remaining r)) in
               r\<lparr>pv_current := Some limited, pv_acquired := pv_acquired r + 1,
                 pv_dropped := pv_dropped r + 1, pv_remaining := pv_remaining r - int (bt_rows limited)\<rparr>)
         else r\<lparr>pv_remaining := pv_remaining r - int (bt_rows b)\<rparr>)
      else r)"

definition provider_next ::
  "(batch \<Rightarrow> nat \<Rightarrow> batch) \<Rightarrow> 's reader_ops \<Rightarrow> 's provider_reader \<Rightarrow> bool \<times> 's provider_reader" where
  "provider_next new_slice ops r0 =
     (let r = drop_current r0 in
      if pv_done r \<or> pv_remaining r = 0 then (False, r)
      else case op_next ops (pv_inner r) of
        (False, s) \<Rightarrow> (False, r\<lparr>pv_inner := s, pv_done := True, pv_err := op_err ops s\<rparr>)
      | (True, s) \<Rightarrow>
          (let r1 = r\<lparr>pv_inner := s\<rparr>;
               bad = (False, r1\<lparr>pv_done := True,
                 pv_err := Some (Plain ''datafusion input reader returned a nil batch or changed schema'')\<rparr>)
           in case op_batch ops s of
             None \<Rightarrow> bad
           | Some rec \<Rightarrow>
               if pv_input_schema r1 \<noteq> bt_fields rec then bad
               else (let cur = project_batch (pv_schema r1) (pv_projection r1) rec in
                     (True, limit_current new_slice cur
                        (r1\<lparr>pv_current := Some cur, pv_acquired := pv_acquired r1 + 1\<rparr>)))))"

text \<open>The wrapper as a reader again.\<close>

definition provider_ops ::
  "(batch \<Rightarrow> nat \<Rightarrow> batch) \<Rightarrow> 's reader_ops \<Rightarrow> 's provider_reader reader_ops" where
  "provider_ops new_slice ops =
     \<lparr>op_schema = (\<lambda>r. Some (pv_schema r)), op_next = provider_next new_slice ops, op_batch = pv_current,
      op_err = pv_err, op_release = provider_release ops\<rparr>"

lemma provider_ops_simps [simp]:
  "op_schema (provider_ops new_slice ops) r = Some (pv_schema r)"
  "op_next (provider_ops new_slice ops) r = provider_next new_slice ops r"
  "op_batch (provider_ops new_slice ops) r = pv_current r"
  "op_err (provider_ops new_slice ops) r = pv_err r"
  "op_release (provider_ops new_slice ops) r = provider_release ops r"
  by (simp_all add: provider_ops_def)

lemma drop_current_simps [simp]:
  "pv_current (drop_current r) = None"
  "pv_refs (drop_current r) = pv_refs r" "pv_inner (drop_current r) = pv_inner r"
  "pv_input_schema (drop_current r) = pv_input_schema r" "pv_schema (drop_current r) = pv_schema r"
  "pv_projection (drop_current r) = pv_projection r" "pv_remaining (drop_current r) = pv_remaining r"
  "pv_err (drop_current r) = pv_err r" "pv_done (drop_current r) = pv_done r"
  "pv_acquired (drop_current r) = pv_acquired r"
  by (simp_all add: drop_current_def split: option.splits)

subsection \<open>What the wrapper streams\<close>

definition batch_row :: "(arrow_array \<Rightarrow> nat \<Rightarrow> 'v) \<Rightarrow> batch \<Rightarrow> nat \<Rightarrow> 'v list" where
  "batch_row cell b i = map (\<lambda>c. cell c i) (bt_cols b)"

definition stream_rows :: "(arrow_array \<Rightarrow> nat \<Rightarrow> 'v) \<Rightarrow> batch list \<Rightarrow> 'v list list" where
  "stream_rows cell bs = concat (map (\<lambda>b. map (batch_row cell b) [0..<bt_rows b]) bs)"

text \<open>\<^verbatim>\<open>NewSlice(0, n)\<close>: the first \<open>n\<close> rows, with the same schema, as any observation of a cell sees them.\<close>

definition slice_law :: "(batch \<Rightarrow> nat \<Rightarrow> batch) \<Rightarrow> (arrow_array \<Rightarrow> nat \<Rightarrow> 'v) \<Rightarrow> bool" where
  "slice_law new_slice cell \<longleftrightarrow> (\<forall>b n. n \<le> bt_rows b \<longrightarrow>
     bt_rows (new_slice b n) = n \<and> bt_fields (new_slice b n) = bt_fields b \<and>
     (\<forall>i < n. batch_row cell (new_slice b n) i = batch_row cell b i))"

fun limit_batches :: "(batch \<Rightarrow> nat \<Rightarrow> batch) \<Rightarrow> int \<Rightarrow> batch list \<Rightarrow> batch list" where
  "limit_batches new_slice n [] = []"
| "limit_batches new_slice n (b # bs) =
     (if n = 0 then []
      else if n < 0 then b # limit_batches new_slice n bs
      else if n < int (bt_rows b) then [new_slice b (nat n)]
      else b # limit_batches new_slice (n - int (bt_rows b)) bs)"

definition limit_hit :: "int \<Rightarrow> batch list \<Rightarrow> bool" where
  "limit_hit n bs \<longleftrightarrow> 0 \<le> n \<and> n \<le> int (sum_list (map bt_rows bs))"

definition changed_schema :: go_error where
  "changed_schema = Plain ''datafusion input reader returned a nil batch or changed schema''"

fun conforming :: "schema \<Rightarrow> batch option list \<Rightarrow> go_error option \<Rightarrow> batch list \<times> go_error option" where
  "conforming sch [] e = ([], e)"
| "conforming sch (None # xs) e = ([], Some changed_schema)"
| "conforming sch (Some b # xs) e =
     (if sch \<noteq> bt_fields b then ([], Some changed_schema)
      else (b # fst (conforming sch xs e), snd (conforming sch xs e)))"

definition provider_stream ::
  "(batch \<Rightarrow> nat \<Rightarrow> batch) \<Rightarrow> ('s \<Rightarrow> stream) \<Rightarrow> 's provider_reader \<Rightarrow> stream" where
  "provider_stream new_slice stream r =
     (if pv_done r then ([], pv_err r)
      else case stream (pv_inner r) of (xs, e) \<Rightarrow>
        (let bs = fst (conforming (pv_input_schema r) xs e);
             ps = map (project_batch (pv_schema r) (pv_projection r)) bs
         in (map Some (limit_batches new_slice (pv_remaining r) ps),
             if limit_hit (pv_remaining r) ps then None else snd (conforming (pv_input_schema r) xs e))))"

definition provider_inv :: "('s \<Rightarrow> bool) \<Rightarrow> 's provider_reader \<Rightarrow> bool" where
  "provider_inv ok r \<longleftrightarrow> ok (pv_inner r) \<and> - 1 \<le> pv_remaining r \<and> (pv_done r \<or> pv_err r = None) \<and>
     (pv_projection r = None \<longrightarrow> pv_schema r = pv_input_schema r)"

lemma bt_rows_project [simp]: "bt_rows (project_batch sch is b) = bt_rows b"
  by (simp add: project_batch_def split: option.splits)

lemma limit_batches_0 [simp]: "limit_batches new_slice 0 bs = []"
  by (cases bs) auto

lemma limit_batches_unbounded [simp]: "n < 0 \<Longrightarrow> limit_batches new_slice n bs = bs"
  by (induction bs) auto

lemma limit_hit_simps [simp]:
  "limit_hit 0 bs" "n < 0 \<Longrightarrow> \<not> limit_hit n bs" "0 < n \<Longrightarrow> \<not> limit_hit n []"
  by (simp_all add: limit_hit_def)

lemma limit_hit_Cons: "0 < n \<Longrightarrow> limit_hit n (b # bs) \<longleftrightarrow> n < int (bt_rows b) \<or> limit_hit (n - int (bt_rows b)) bs"
  by (auto simp: limit_hit_def)

lemma slice_rows: "slice_law new_slice cell \<Longrightarrow> n \<le> bt_rows b \<Longrightarrow> bt_rows (new_slice b n) = n"
  by (auto simp: slice_law_def)

text \<open>The rows that come out of a limited stream are a prefix of the rows that go in.\<close>

lemma limit_batches_rows:
  assumes "slice_law new_slice cell" and "0 \<le> n"
  shows "stream_rows cell (limit_batches new_slice n bs) = take (nat n) (stream_rows cell bs)"
  using assms(2)
proof (induction bs arbitrary: n)
  case (Cons b bs)
  consider "n = 0" | "0 < n" "n < int (bt_rows b)" | "0 < n" "int (bt_rows b) \<le> n"
    using Cons.prems by linarith
  then show ?case
  proof cases
    case 2
    then have le: "nat n \<le> bt_rows b" by simp
    with assms(1) have "bt_rows (new_slice b (nat n)) = nat n"
      and "\<forall>i < nat n. batch_row cell (new_slice b (nat n)) i = batch_row cell b i"
      by (auto simp: slice_law_def)
    then show ?thesis using 2 le by (simp add: stream_rows_def take_map)
  next
    case 3
    then have "nat (n - int (bt_rows b)) = nat n - bt_rows b" "bt_rows b \<le> nat n" by linarith+
    with 3 Cons.IH [of "n - int (bt_rows b)"] show ?thesis by (simp add: stream_rows_def)
  qed (simp add: stream_rows_def)
qed (simp add: stream_rows_def)

context record_reader
begin

lemma provider_next_none:
  assumes inv: "provider_inv ok r" and st: "provider_stream new_slice stream r = ([], e)"
  shows "\<exists>t. provider_next new_slice ops r = (False, t) \<and> pv_err t = e \<and>
     provider_stream new_slice stream t = ([], e) \<and> provider_inv ok t \<and>
     pv_remaining t = pv_remaining r \<and> pv_schema t = pv_schema r"
proof (cases "pv_done r \<or> pv_remaining r = 0")
  case True
  with assms show ?thesis
    by (auto simp: provider_next_def provider_stream_def provider_inv_def Let_def split: prod.splits if_splits)
next
  case False
  obtain xs d where s: "stream (pv_inner r) = (xs, d)" by fastforce
  show ?thesis
  proof (cases xs)
    case Nil
    from next_none [of "pv_inner r" d] inv s Nil obtain t where
      "op_next ops (pv_inner r) = (False, t)" "op_err ops t = d" "ok t"
      by (auto simp: provider_inv_def)
    with False inv st s Nil show ?thesis
      by (auto simp: provider_next_def provider_stream_def provider_inv_def Let_def limit_hit_def split: if_splits)
  next
    case (Cons x ys)
    from next_some [of "pv_inner r" x ys d] inv s Cons obtain t where t:
      "op_next ops (pv_inner r) = (True, t)" "op_batch ops t = x" "ok t"
      by (auto simp: provider_inv_def)
    have bad: "x = None \<or> (\<exists>b. x = Some b \<and> pv_input_schema r \<noteq> bt_fields b)"
      using False st s Cons by (cases x) (auto simp: provider_stream_def Let_def split: if_splits)
    then have c: "conforming (pv_input_schema r) xs d = ([], Some changed_schema)" using Cons by auto
    have "\<not> limit_hit (pv_remaining r) []" using False by (auto simp: limit_hit_def)
    with c st s False have e: "e = Some changed_schema" by (simp add: provider_stream_def Let_def)
    have "provider_next new_slice ops r = (False, (drop_current r)\<lparr>pv_inner := t, pv_done := True,
        pv_err := Some changed_schema\<rparr>)"
      using bad t False unfolding provider_next_def Let_def changed_schema_def by (elim disjE exE conjE) simp_all
    with e t inv show ?thesis by (simp add: provider_stream_def provider_inv_def)
  qed
qed

lemma provider_next_some:
  assumes law: "slice_law new_slice cell \<or> pv_remaining r < 0" and inv: "provider_inv ok r"
    and st: "provider_stream new_slice stream r = (y # ys, e)"
  shows "\<exists>t. provider_next new_slice ops r = (True, t) \<and> pv_current t = y \<and>
     provider_stream new_slice stream t = (ys, e) \<and> provider_inv ok t \<and>
     (pv_remaining r < 0 \<longrightarrow> pv_remaining t = pv_remaining r) \<and> pv_schema t = pv_schema r"
proof -
  obtain xs d where s: "stream (pv_inner r) = (xs, d)" by fastforce
  have live: "\<not> pv_done r" "pv_remaining r \<noteq> 0"
    using st by (auto simp: provider_stream_def s Let_def split: if_splits)
  then obtain b xs' where xs: "xs = Some b # xs'" and sch: "pv_input_schema r = bt_fields b"
    using st s by (cases xs; cases "hd xs") (auto simp: provider_stream_def Let_def split: if_splits)
  from next_some [of "pv_inner r" "Some b" xs' d] inv s xs obtain t where t:
    "op_next ops (pv_inner r) = (True, t)" "op_batch ops t = Some b" "stream t = (xs', d)" "ok t"
    by (auto simp: provider_inv_def)
  let ?c = "project_batch (pv_schema r) (pv_projection r) b"
  let ?cs = "map (project_batch (pv_schema r) (pv_projection r)) (fst (conforming (pv_input_schema r) xs' d))"
  let ?n = "pv_remaining r"
  have ge: "- 1 \<le> ?n" using inv by (simp add: provider_inv_def)
  have out: "map Some (limit_batches new_slice ?n (?c # ?cs)) = y # ys"
    "e = (if limit_hit ?n (?c # ?cs) then None else snd (conforming (pv_input_schema r) xs' d))"
    using st s live sch by (auto simp: provider_stream_def xs Let_def)
  consider "?n < 0" | "0 < ?n" "?n < int (bt_rows b)" | "0 < ?n" "int (bt_rows b) \<le> ?n"
    using live(2) by linarith
  then show ?thesis
  proof cases
    case 1
    then show ?thesis
      using out t live inv sch
      by (auto simp: provider_next_def provider_stream_def provider_inv_def Let_def limit_current_def)
  next
    case 2
    have rows: "bt_rows (new_slice ?c (nat ?n)) = nat ?n"
      using slice_rows [of new_slice cell "nat ?n" ?c] law 2 by auto
    then show ?thesis
      using 2 out t live inv sch
      by (auto simp: provider_next_def provider_stream_def provider_inv_def Let_def limit_current_def limit_hit_Cons)
  next
    case 3
    then show ?thesis
      using out t live inv sch
      by (auto simp: provider_next_def provider_stream_def provider_inv_def Let_def limit_current_def limit_hit_Cons)
  qed
qed

lemma provider_contract:
  assumes "slice_law new_slice cell"
  shows "record_reader (provider_ops new_slice ops) (provider_stream new_slice stream) (provider_inv ok)"
proof
  fix r x xs e
  assume "provider_inv ok r" "provider_stream new_slice stream r = (x # xs, e)"
  from provider_next_some [OF _ this] assms
  show "\<exists>t. op_next (provider_ops new_slice ops) r = (True, t) \<and> op_batch (provider_ops new_slice ops) t = x \<and>
      provider_stream new_slice stream t = (xs, e) \<and> provider_inv ok t" by auto
next
  fix r e
  assume "provider_inv ok r" "provider_stream new_slice stream r = ([], e)"
  from provider_next_none [OF this]
  show "\<exists>t. op_next (provider_ops new_slice ops) r = (False, t) \<and> op_err (provider_ops new_slice ops) t = e \<and>
      provider_stream new_slice stream t = ([], e) \<and> provider_inv ok t" by auto
qed

end

lemma conforming_fields: "b \<in> set (fst (conforming sch xs e)) \<Longrightarrow> bt_fields b = sch"
  by (induction sch xs e rule: conforming.induct) (auto split: if_splits)

lemma unbounded_stream_conforms:
  assumes "provider_inv ok r" and "pv_remaining r < 0" and "x \<in> set (fst (provider_stream new_slice stream r))"
  shows "\<exists>b. x = Some b \<and> bt_fields b = pv_schema r"
proof -
  obtain xs e where s: "stream (pv_inner r) = (xs, e)" by fastforce
  with assms obtain b where b: "b \<in> set (fst (conforming (pv_input_schema r) xs e))"
    "x = Some (project_batch (pv_schema r) (pv_projection r) b)"
    by (auto simp: provider_stream_def Let_def split: if_splits)
  from conforming_fields [OF b(1)] b(2) assms(1) show ?thesis
    by (auto simp: project_batch_def provider_inv_def split: option.splits)
qed

text \<open>A projecting reader over any reader keeps to its own schema: whatever its input does, it is a checked reader.\<close>

context record_reader
begin

lemma project_contract:
  "checked_reader (provider_ops new_slice ops) (provider_stream new_slice stream)
     (\<lambda>r. provider_inv ok r \<and> pv_remaining r < 0) pv_schema"
proof
  fix r x xs e
  assume a: "provider_inv ok r \<and> pv_remaining r < 0" "provider_stream new_slice stream r = (x # xs, e)"
  then show "\<exists>t. op_next (provider_ops new_slice ops) r = (True, t) \<and> op_batch (provider_ops new_slice ops) t = x \<and>
      provider_stream new_slice stream t = (xs, e) \<and> provider_inv ok t \<and> pv_remaining t < 0"
    using provider_next_some [of new_slice "\<lambda>c i. ()" r x xs e] by auto
next
  fix r e
  assume a: "provider_inv ok r \<and> pv_remaining r < 0" "provider_stream new_slice stream r = ([], e)"
  then show "\<exists>t. op_next (provider_ops new_slice ops) r = (False, t) \<and> op_err (provider_ops new_slice ops) t = e \<and>
      provider_stream new_slice stream t = ([], e) \<and> provider_inv ok t \<and> pv_remaining t < 0"
    using provider_next_none [of r new_slice e] by auto
next
  fix r x
  assume "provider_inv ok r \<and> pv_remaining r < 0" "x \<in> set (fst (provider_stream new_slice stream r))"
  then show "\<exists>b. x = Some b \<and> bt_fields b = pv_schema r"
    using unbounded_stream_conforms by blast
qed simp

end

subsection \<open>Readers of the caller\<close>

text \<open>A reader a caller passes in: what its \<^verbatim>\<open>Next\<close> will yield, a nil batch included, and its final \<^verbatim>\<open>Err\<close>.\<close>

record source =
  src_schema :: "schema option"
  src_script :: "batch option list"
  src_end :: "go_error option"
  src_current :: "batch option"
  src_releases :: nat

definition source_next :: "source \<Rightarrow> bool \<times> source" where
  "source_next s =
     (case src_script s of [] \<Rightarrow> (False, s\<lparr>src_current := None\<rparr>)
      | x # xs \<Rightarrow> (True, s\<lparr>src_script := xs, src_current := x\<rparr>))"

definition source_ops :: "source reader_ops" where
  "source_ops = \<lparr>op_schema = src_schema, op_next = source_next, op_batch = src_current, op_err = src_end,
     op_release = (\<lambda>s. s\<lparr>src_releases := src_releases s + 1\<rparr>)\<rparr>"

definition source_stream :: "source \<Rightarrow> stream" where
  "source_stream s = (src_script s, src_end s)"

interpretation src: record_reader source_ops source_stream "\<lambda>s. True"
  by unfold_locales (auto simp: source_ops_def source_stream_def source_next_def)

interpretation projected: checked_reader "provider_ops new_slice source_ops"
  "provider_stream new_slice source_stream" "\<lambda>r. provider_inv (\<lambda>s. True) r \<and> pv_remaining r < 0" pv_schema
  for new_slice
  by (rule src.project_contract)

subsection \<open>Projecting and limiting\<close>

lemma projection_field_Inr:
  "projection_field sch i = Inr f \<longleftrightarrow> 0 \<le> i \<and> i < int (length sch) \<and> f = sch ! nat i"
  by (auto simp: projection_field_def)

lemma project_batch_None [simp]: "project_batch sch None = (\<lambda>b. b)"
  by (simp add: project_batch_def fun_eq_iff)

lemma project_reader_Inr:
  assumes "project_reader ops (Some s) (Some is) = Inr r"
  shows "\<exists>sch. op_schema ops s = Some sch \<and> (\<forall>i \<in> set is. 0 \<le> i \<and> i < int (length sch)) \<and>
    r = new_provider_reader s sch (map (\<lambda>i. sch ! nat i) is) (Some is) (- 1)"
proof -
  from assms obtain sch flds where sch: "op_schema ops s = Some sch"
    and f: "traverse (projection_field sch) is = Inr flds"
    and r: "r = new_provider_reader s sch flds (Some is) (- 1)"
    by (auto simp: project_reader_def provider_reader_schema_def rbind_Inr_iff split: option.splits)
  have "\<forall>i \<in> set is. 0 \<le> i \<and> i < int (length sch) \<and> projection_field sch i = Inr (sch ! nat i)"
    using traverse_nth [OF f] by (auto simp: in_set_conv_nth projection_field_Inr)
  moreover from this have "flds = map (\<lambda>i. sch ! nat i) is"
    using f traverse_total [of "is" "projection_field sch" "\<lambda>i. sch ! nat i"] by auto
  ultimately show ?thesis using sch r by auto
qed

lemma limit_reader_Inr:
  "limit_reader ops (Some s) n = Inr r \<Longrightarrow>
   \<exists>sch. op_schema ops s = Some sch \<and> - 1 \<le> n \<and> r = new_provider_reader s sch sch None n"
  by (auto simp: limit_reader_def provider_reader_schema_def rbind_Inr_iff split: option.splits if_splits)

lemma new_provider_reader_inv [simp]:
  "provider_inv ok (new_provider_reader s isch sch proj n) \<longleftrightarrow>
     ok s \<and> - 1 \<le> n \<and> (proj = None \<longrightarrow> sch = isch)"
  by (simp add: provider_inv_def new_provider_reader_def)

lemma conforming_all:
  "\<forall>b \<in> set bs. bt_fields b = sch \<Longrightarrow> conforming sch (map Some bs) e = (bs, e)"
  by (induction bs) auto

text \<open>Projecting a row selects and reorders its cells.\<close>

lemma stream_rows_project:
  assumes "\<forall>b \<in> set bs. wf_batch b \<and> bt_fields b = sch" and "\<forall>i \<in> set is. 0 \<le> i \<and> i < int (length sch)"
  shows "stream_rows cell (map (project_batch psch (Some is)) bs) =
     map (\<lambda>row. map (\<lambda>i. row ! nat i) is) (stream_rows cell bs)"
  using assms(1)
proof (induction bs)
  case (Cons b bs)
  have "batch_row cell (project_batch psch (Some is) b) k = map (\<lambda>i. batch_row cell b k ! nat i) is" for k
    using Cons.prems assms(2) by (auto simp: batch_row_def project_batch_def wf_batch_def)
  with Cons show ?case by (simp add: stream_rows_def)
qed (simp add: stream_rows_def)

lemma stream_rows_length: "length (stream_rows cell bs) = sum_list (map bt_rows bs)"
  by (induction bs) (auto simp: stream_rows_def)

lemma limit_batches_length: "length (limit_batches new_slice n bs) \<le> length bs"
  by (induction new_slice n bs rule: limit_batches.induct) auto

lemma conforming_Some:
  "\<forall>b \<in> set bs. bt_fields b = sch \<Longrightarrow> conforming sch (map Some bs) e = (bs, e)"
  by (induction bs) auto

text \<open>C21: a limit over a projection over any reader that keeps to its schema returns exactly the first rows of the
  input, each with its cells selected in the requested order, and reports the input's error exactly when
  the input ends before the limit is reached.\<close>

theorem limit_project_rows:
  assumes law: "slice_law new_slice cell"
    and project: "project_reader source_ops (Some s) (Some is) = Inr p"
    and limit: "limit_reader (provider_ops new_slice source_ops) (Some p) n = Inr r" "0 \<le> n"
    and script: "src_script s = map Some bs" "\<forall>b \<in> set bs. wf_batch b \<and> src_schema s = Some (bt_fields b)"
  shows "\<exists>out e. drain (provider_ops new_slice (provider_ops new_slice source_ops)) (length bs + 1) r =
      Some (map Some out, e) \<and>
    stream_rows cell out = take (nat n) (map (\<lambda>row. map (\<lambda>i. row ! nat i) is) (stream_rows cell bs)) \<and>
    e = (if nat n \<le> length (stream_rows cell bs) then None else src_end s)"
proof -
  from project_reader_Inr [OF project] obtain sch where sch: "src_schema s = Some sch"
    and idx: "\<forall>i \<in> set is. 0 \<le> i \<and> i < int (length sch)"
    and p: "p = new_provider_reader s sch (map (\<lambda>i. sch ! nat i) is) (Some is) (- 1)"
    by (auto simp: source_ops_def)
  let ?psch = "map (\<lambda>i. sch ! nat i) is"
  let ?ps = "map (project_batch ?psch (Some is)) bs"
  have r: "r = new_provider_reader p ?psch ?psch None n"
    using limit_reader_Inr [OF limit(1)] by (auto simp: p new_provider_reader_def)
  have wf: "\<forall>b \<in> set bs. wf_batch b \<and> bt_fields b = sch" using script(2) sch by auto
  have stp: "provider_stream new_slice source_stream p = (map Some ?ps, src_end s)"
    using wf script(1) by (simp add: provider_stream_def p new_provider_reader_def source_stream_def conforming_all)
  have "conforming ?psch (map Some ?ps) (src_end s) = (?ps, src_end s)"
    by (rule conforming_Some) (auto simp: project_batch_def)
  then have str: "provider_stream new_slice (provider_stream new_slice source_stream) r =
      (map Some (limit_batches new_slice n ?ps), if limit_hit n ?ps then None else src_end s)"
    using stp by (simp add: provider_stream_def [of _ "provider_stream new_slice source_stream"] r
        new_provider_reader_def Let_def comp_def)
  have inv: "provider_inv (provider_inv (\<lambda>s. True)) r"
    using limit(2) by (simp add: r p)
  have "length (limit_batches new_slice n ?ps) < length bs + 1"
    using limit_batches_length [of new_slice n ?ps] by simp
  then have "drain (provider_ops new_slice (provider_ops new_slice source_ops)) (length bs + 1) r =
      Some (map Some (limit_batches new_slice n ?ps), if limit_hit n ?ps then None else src_end s)"
    using record_reader.drain_stream [OF record_reader.provider_contract
        [OF src.provider_contract [OF law] law] inv] str by (simp del: drain.simps)
  moreover have "limit_hit n ?ps \<longleftrightarrow> nat n \<le> length (stream_rows cell bs)"
    using limit(2) by (auto simp: limit_hit_def stream_rows_length comp_def)
  ultimately show ?thesis
    using limit_batches_rows [OF law limit(2), of ?ps] stream_rows_project [OF wf idx, of cell ?psch] by auto
qed

definition two_columns :: batch where
  "two_columns = \<lparr>bt_id = 1, bt_fields = [\<lparr>fld_name = ''a'', fld_type = TInt64, fld_nullable = True\<rparr>,
       \<lparr>fld_name = ''b'', fld_type = TBool, fld_nullable = True\<rparr>],
     bt_cols = [Int64Array [Some 1, Some 2], BooleanArray [Some True, None]], bt_rows = 2\<rparr>"

definition two_column_source :: source where
  "two_column_source = \<lparr>src_schema = Some (bt_fields two_columns), src_script = map Some [two_columns, two_columns],
     src_end = None, src_current = None, src_releases = 0\<rparr>"

theorem limit_project_rows_witness:
  "\<exists>p r out. project_reader source_ops (Some two_column_source) (Some [1]) = Inr p \<and>
     limit_reader (provider_ops (\<lambda>b n. b\<lparr>bt_rows := n\<rparr>) source_ops) (Some p) 3 = Inr r \<and>
     drain (provider_ops (\<lambda>b n. b\<lparr>bt_rows := n\<rparr>) (provider_ops (\<lambda>b n. b\<lparr>bt_rows := n\<rparr>) source_ops)) 3 r =
       Some (map Some out, None) \<and>
     stream_rows (\<lambda>c i. null_mask c ! i) out = [[False], [True], [False]]"
proof -
  let ?sl = "\<lambda>b n. b\<lparr>bt_rows := n\<rparr> :: batch" and ?cell = "\<lambda>c i. null_mask c ! i"
  have law: "slice_law ?sl ?cell" by (simp add: slice_law_def batch_row_def)
  obtain p where p: "project_reader source_ops (Some two_column_source) (Some [1]) = Inr p"
    by (simp add: project_reader_def provider_reader_schema_def source_ops_def two_column_source_def
        two_columns_def projection_field_def)
  obtain r where r: "limit_reader (provider_ops ?sl source_ops) (Some p) 3 = Inr r"
    by (simp add: limit_reader_def provider_reader_schema_def)
  have "src_script two_column_source = map Some [two_columns, two_columns]"
    "\<forall>b \<in> set [two_columns, two_columns]. wf_batch b \<and> src_schema two_column_source = Some (bt_fields b)"
    by (simp_all add: two_column_source_def two_columns_def wf_batch_def arr_len_def)
  from limit_project_rows [OF law p r _ this] p r show ?thesis
    by (simp add: stream_rows_def two_columns_def batch_row_def two_column_source_def eval_nat_numeral)
qed

subsection \<open>Ownership\<close>

datatype provider_call = CallNext | CallRetain | CallRelease

fun provider_step ::
  "(batch \<Rightarrow> nat \<Rightarrow> batch) \<Rightarrow> 's reader_ops \<Rightarrow> provider_call \<Rightarrow> 's provider_reader \<Rightarrow> 's provider_reader" where
  "provider_step new_slice ops CallNext r = snd (provider_next new_slice ops r)"
| "provider_step new_slice ops CallRetain r = provider_retain r"
| "provider_step new_slice ops CallRelease r = provider_release ops r"

text \<open>A run of calls by holders of references: none is made once the last reference is gone.\<close>

fun provider_run ::
  "(batch \<Rightarrow> nat \<Rightarrow> batch) \<Rightarrow> 's reader_ops \<Rightarrow> provider_call list \<Rightarrow> 's provider_reader \<Rightarrow>
   's provider_reader option" where
  "provider_run new_slice ops [] r = Some r"
| "provider_run new_slice ops (c # cs) r =
     (if pv_refs r \<le> 0 then None else provider_run new_slice ops cs (provider_step new_slice ops c r))"

definition provider_owned :: "nat \<Rightarrow> source provider_reader \<Rightarrow> bool" where
  "provider_owned n r \<longleftrightarrow> 0 \<le> pv_refs r \<and>
     pv_acquired r = pv_dropped r + (if pv_current r = None then 0 else 1) \<and>
     src_releases (pv_inner r) = n + (if pv_refs r = 0 then 1 else 0) \<and>
     (pv_refs r = 0 \<longrightarrow> pv_current r = None)"

lemma source_next_releases: "src_releases (snd (source_next s)) = src_releases s"
  by (simp add: source_next_def split: list.splits)

lemma provider_owned_drop:
  "provider_owned n r \<Longrightarrow> provider_owned n (drop_current r)"
  by (auto simp: provider_owned_def drop_current_def split: option.splits)

lemma provider_owned_next:
  assumes "provider_owned n r" and "0 < pv_refs r"
  shows "provider_owned n (snd (provider_next new_slice source_ops r))"
proof -
  obtain ok s where nx: "source_next (pv_inner r) = (ok, s)" by fastforce
  then have rel: "src_releases s = src_releases (pv_inner r)"
    using source_next_releases [of "pv_inner r"] by simp
  note d = provider_owned_drop [OF assms(1)]
  show ?thesis
    using d nx rel assms(2)
    by (cases ok)
       (auto simp: provider_next_def Let_def source_ops_def provider_owned_def limit_current_def split: option.splits)
qed

lemma provider_owned_release:
  "provider_owned n r \<Longrightarrow> 0 < pv_refs r \<Longrightarrow> provider_owned n (provider_release source_ops r)"
  by (auto simp: provider_owned_def provider_release_def Let_def source_ops_def drop_current_def split: option.splits)

lemma provider_owned_step:
  "provider_owned n r \<Longrightarrow> 0 < pv_refs r \<Longrightarrow> provider_owned n (provider_step new_slice source_ops c r)"
  by (cases c) (simp_all add: provider_owned_next provider_owned_release, simp add: provider_owned_def provider_retain_def)

lemma provider_owned_run:
  "provider_owned n r \<Longrightarrow> provider_run new_slice source_ops cs r = Some q \<Longrightarrow> provider_owned n q"
proof (induction cs arbitrary: r)
  case (Cons c cs)
  then have "0 < pv_refs r" "provider_run new_slice source_ops cs (provider_step new_slice source_ops c r) = Some q"
    by (simp_all split: if_splits)
  with Cons show ?case using provider_owned_step by blast
qed simp

text \<open>Whatever calls the holders of a wrapping reader make, and whatever its input does, every batch reference it
  takes is given back but the one of the current batch, its input is released exactly when the last
  reference to the wrapper goes, once, and then no batch is held.\<close>

theorem provider_reader_ownership:
  assumes "limit_reader source_ops (Some s) n = Inr r \<or> project_reader source_ops (Some s) is = Inr r"
    and "provider_run new_slice source_ops cs r = Some q"
  shows "pv_acquired q = pv_dropped q + (if pv_current q = None then 0 else 1) \<and>
    src_releases (pv_inner q) = src_releases s + (if pv_refs q = 0 then 1 else 0) \<and>
    (pv_refs q = 0 \<longrightarrow> pv_current q = None)"
proof -
  from assms(1) obtain isch sch k where "r = new_provider_reader s isch sch is k \<or> r = new_provider_reader s isch sch None k"
    by (auto simp: limit_reader_def project_reader_def rbind_Inr_iff split: if_splits option.splits)
  then have "provider_owned (src_releases s) r"
    by (auto simp: provider_owned_def new_provider_reader_def)
  from provider_owned_run [OF this assms(2)] show ?thesis by (simp add: provider_owned_def)
qed

theorem provider_reader_ownership_witness:
  "\<exists>r q. limit_reader source_ops (Some two_column_source) 1 = Inr r \<and>
     provider_run (\<lambda>b n. b\<lparr>bt_rows := n\<rparr>) source_ops [CallRetain, CallNext, CallRelease, CallRelease] r = Some q \<and>
     src_releases (pv_inner q) = 1 \<and> pv_acquired q = 2 \<and> pv_dropped q = 2"
proof -
  let ?sl = "\<lambda>b n. b\<lparr>bt_rows := n\<rparr> :: batch"
  let ?r = "new_provider_reader two_column_source (bt_fields two_columns) (bt_fields two_columns) None 1"
  have r: "limit_reader source_ops (Some two_column_source) 1 = Inr ?r"
    by (simp add: limit_reader_def provider_reader_schema_def source_ops_def two_column_source_def)
  have "case provider_run ?sl source_ops [CallRetain, CallNext, CallRelease, CallRelease] ?r of
      None \<Rightarrow> False | Some q \<Rightarrow> pv_refs q = 0 \<and> pv_acquired q = 2"
    by code_simp
  then obtain q where q: "provider_run ?sl source_ops [CallRetain, CallNext, CallRelease, CallRelease] ?r = Some q"
    "pv_refs q = 0" "pv_acquired q = 2"
    by (auto split: option.splits)
  from provider_reader_ownership [OF disjI1 [OF r] q(1)]
  have "src_releases (pv_inner q) = 1" "pv_dropped q = 2"
    using q(2,3) by (simp_all add: two_column_source_def split: if_splits)
  with r q show ?thesis by blast
qed

subsection \<open>Readers that panic\<close>

text \<open>The methods of a reader that may panic: \<open>Inl\<close> carries the panic's text.\<close>

record 's panicky_ops =
  cb_schema :: "'s \<Rightarrow> string + schema option"
  cb_next :: "'s \<Rightarrow> (string + bool) \<times> 's"
  cb_err :: "'s \<Rightarrow> string + go_error option"
  cb_batch :: "'s \<Rightarrow> string + batch option"

record 's safe_reader =
  sf_inner :: 's
  sf_schema :: schema
  sf_record :: "batch option"
  sf_err :: "go_error option"
  sf_done :: bool

definition new_panic_safe_record_reader :: "'s panicky_ops \<Rightarrow> 's \<Rightarrow> go_error + 's safe_reader" where
  "new_panic_safe_record_reader ops s =
     (case cb_schema ops s of
        Inl p \<Rightarrow> Inl (Plain (''datafusion-go arrow reader Schema panicked: '' @ p))
      | Inr None \<Rightarrow> Inl (Plain ''datafusion-go arrow reader schema is nil'')
      | Inr (Some sch) \<Rightarrow>
          Inr \<lparr>sf_inner = s, sf_schema = sch, sf_record = None, sf_err = None, sf_done = False\<rparr>)"

definition recovered :: "string \<Rightarrow> 's safe_reader \<Rightarrow> bool \<times> 's safe_reader" where
  "recovered p r =
     (False, r\<lparr>sf_err := Some (Plain (''datafusion-go arrow reader callback panicked: '' @ p)), sf_done := True\<rparr>)"

definition panic_safe_next :: "'s panicky_ops \<Rightarrow> 's safe_reader \<Rightarrow> bool \<times> 's safe_reader" where
  "panic_safe_next ops r0 =
     (let r = r0\<lparr>sf_record := None\<rparr> in
      if sf_done r then (False, r)
      else case cb_next ops (sf_inner r) of
        (Inl p, s) \<Rightarrow> recovered p (r\<lparr>sf_inner := s\<rparr>)
      | (Inr False, s) \<Rightarrow>
          (let r1 = r\<lparr>sf_inner := s, sf_done := True\<rparr> in
           case cb_err ops s of
             Inl p \<Rightarrow> recovered p r1
           | Inr None \<Rightarrow> (False, r1)
           | Inr (Some e) \<Rightarrow> (False, r1\<lparr>sf_err := Some (Plain (error_text e))\<rparr>))
      | (Inr True, s) \<Rightarrow>
          (let r1 = r\<lparr>sf_inner := s\<rparr> in
           case cb_batch ops s of
             Inl p \<Rightarrow> recovered p r1
           | Inr None \<Rightarrow> (False, r1\<lparr>sf_done := True,
               sf_err := Some (Plain ''datafusion-go arrow reader returned a nil batch after Next'')\<rparr>)
           | Inr (Some b) \<Rightarrow> (True, r1\<lparr>sf_record := Some b\<rparr>)))"

text \<open>\<^verbatim>\<open>Retain\<close> and \<^verbatim>\<open>Release\<close> are no-ops: the caller keeps its reference.\<close>

definition panic_safe_ops :: "'s panicky_ops \<Rightarrow> 's safe_reader reader_ops" where
  "panic_safe_ops ops =
     \<lparr>op_schema = (\<lambda>r. Some (sf_schema r)), op_next = panic_safe_next ops, op_batch = sf_record,
      op_err = sf_err, op_release = (\<lambda>r. r)\<rparr>"

lemma panic_safe_ops_simps [simp]:
  "op_schema (panic_safe_ops ops) r = Some (sf_schema r)"
  "op_next (panic_safe_ops ops) r = panic_safe_next ops r"
  "op_batch (panic_safe_ops ops) r = sf_record r" "op_err (panic_safe_ops ops) r = sf_err r"
  by (simp_all add: panic_safe_ops_def)

text \<open>the panic-safe reader never lets a producer's failure continue: a call of \<^verbatim>\<open>Next\<close> that panics, ends or yields no
  batch leaves it without a batch and done, so that every later call answers the same without touching the
  producer again; a panic or nil batch is always reported, and a batch comes only from a call that succeeded.\<close>

theorem panic_safe_next_contains:
  "case panic_safe_next ops r of
     (True, t) \<Rightarrow> \<not> sf_done r \<and> fst (cb_next ops (sf_inner r)) = Inr True \<and> sf_err t = sf_err r \<and>
        (\<exists>b. cb_batch ops (sf_inner t) = Inr (Some b) \<and> sf_record t = Some b)
   | (False, t) \<Rightarrow> sf_record t = None \<and> panic_safe_next ops t = (False, t) \<and>
        (sf_done r \<or> (\<exists>p. fst (cb_next ops (sf_inner r)) = Inl p \<and> sf_err t \<noteq> None) \<or>
         (fst (cb_next ops (sf_inner r)) = Inr True \<and> sf_err t \<noteq> None) \<or>
         (fst (cb_next ops (sf_inner r)) = Inr False \<and>
            (if cb_err ops (sf_inner t) = Inr None then sf_err t = sf_err r else sf_err t \<noteq> None)))"
proof -
  obtain o1 s where n: "cb_next ops (sf_inner r) = (o1, s)" by fastforce
  show ?thesis
  proof (cases "sf_done r")
    case True
    then show ?thesis by (simp add: panic_safe_next_def Let_def)
  next
    case False
    then show ?thesis
      using n by (cases o1; cases "cb_err ops s"; cases "cb_batch ops s")
        (auto simp: panic_safe_next_def Let_def recovered_def split: option.splits bool.splits)
  qed
qed

text \<open>Over a reader that does not panic, the panic-safe reader is transparent up to the first nil batch.\<close>

definition never_panics :: "'s reader_ops \<Rightarrow> 's panicky_ops" where
  "never_panics ops =
     \<lparr>cb_schema = (\<lambda>s. Inr (op_schema ops s)), cb_next = (\<lambda>s. (Inr (fst (op_next ops s)), snd (op_next ops s))),
      cb_err = (\<lambda>s. Inr (op_err ops s)), cb_batch = (\<lambda>s. Inr (op_batch ops s))\<rparr>"

lemma never_panics_simps [simp]:
  "cb_next (never_panics ops) s = (Inr (fst (op_next ops s)), snd (op_next ops s))"
  "cb_err (never_panics ops) s = Inr (op_err ops s)" "cb_batch (never_panics ops) s = Inr (op_batch ops s)"
  "cb_schema (never_panics ops) s = Inr (op_schema ops s)"
  by (simp_all add: never_panics_def)

definition safe_stream :: "('s \<Rightarrow> stream) \<Rightarrow> 's safe_reader \<Rightarrow> stream" where
  "safe_stream stream r =
     (if sf_done r then ([], sf_err r)
      else case stream (sf_inner r) of (xs, e) \<Rightarrow>
        (takeWhile (\<lambda>x. x \<noteq> None) xs,
         if None \<in> set xs then Some (Plain ''datafusion-go arrow reader returned a nil batch after Next'')
         else map_option (\<lambda>e. Plain (error_text e)) e))"

definition safe_inv :: "('s \<Rightarrow> bool) \<Rightarrow> 's safe_reader \<Rightarrow> bool" where
  "safe_inv ok r \<longleftrightarrow> ok (sf_inner r) \<and> (sf_done r \<or> sf_err r = None)"

context record_reader
begin

lemma panic_safe_contract:
  "record_reader (panic_safe_ops (never_panics ops)) (safe_stream stream) (safe_inv ok)"
proof
  fix r x xs e
  assume inv: "safe_inv ok r" and st: "safe_stream stream r = (x # xs, e)"
  obtain ys d where s: "stream (sf_inner r) = (ys, d)" by fastforce
  from st s obtain b ys' where ys: "ys = Some b # ys'" "x = Some b" "\<not> sf_done r"
    by (cases ys; cases "hd ys") (auto simp: safe_stream_def split: if_splits)
  from next_some [of "sf_inner r" "Some b" ys' d] inv s ys obtain t where
    "op_next ops (sf_inner r) = (True, t)" "op_batch ops t = Some b" "stream t = (ys', d)" "ok t"
    by (auto simp: safe_inv_def)
  then show "\<exists>t. op_next (panic_safe_ops (never_panics ops)) r = (True, t) \<and>
      op_batch (panic_safe_ops (never_panics ops)) t = x \<and> safe_stream stream t = (xs, e) \<and> safe_inv ok t"
    using inv st s ys by (auto simp: panic_safe_next_def Let_def safe_stream_def safe_inv_def)
next
  fix r e
  assume inv: "safe_inv ok r" and st: "safe_stream stream r = ([], e)"
  obtain ys d where s: "stream (sf_inner r) = (ys, d)" by fastforce
  show "\<exists>t. op_next (panic_safe_ops (never_panics ops)) r = (False, t) \<and>
      op_err (panic_safe_ops (never_panics ops)) t = e \<and> safe_stream stream t = ([], e) \<and> safe_inv ok t"
  proof (cases "sf_done r")
    case True
    with inv st show ?thesis by (simp add: panic_safe_next_def Let_def safe_stream_def safe_inv_def)
  next
    case False
    show ?thesis
    proof (cases ys)
      case Nil
      from next_none [of "sf_inner r" d] inv s Nil obtain t where
        "op_next ops (sf_inner r) = (False, t)" "op_err ops t = d" "ok t"
        by (auto simp: safe_inv_def)
      with inv st s False Nil show ?thesis
        by (cases d) (auto simp: panic_safe_next_def Let_def safe_stream_def safe_inv_def)
    next
      case (Cons y zs)
      with st s False have y: "y = None" by (auto simp: safe_stream_def split: if_splits)
      from next_some [of "sf_inner r" y zs d] inv s Cons obtain t where
        "op_next ops (sf_inner r) = (True, t)" "op_batch ops t = y" "ok t"
        by (auto simp: safe_inv_def)
      with inv st s False Cons y show ?thesis
        by (auto simp: panic_safe_next_def Let_def safe_stream_def safe_inv_def)
    qed
  qed
qed

end

interpretation safe_projected: record_reader
  "panic_safe_ops (never_panics (provider_ops new_slice source_ops))"
  "safe_stream (provider_stream new_slice source_stream)"
  "safe_inv (\<lambda>r. provider_inv (\<lambda>s. True) r \<and> pv_remaining r < 0)"
  for new_slice
  by (rule projected.panic_safe_contract)

text \<open>Exporting a projection of a caller's reader through the panic-safe reader delivers only batches of the
  projected schema: the checks of both wrappers compose, whatever the caller's reader returns.\<close>

theorem exported_projection_conforms:
  assumes "project_reader source_ops (Some s) is = Inr r"
    and "new_panic_safe_record_reader (never_panics (provider_ops new_slice source_ops)) r = Inr q"
    and "drain (panic_safe_ops (never_panics (provider_ops new_slice source_ops))) n q = Some (bs, e)"
    and "x \<in> set bs"
  shows "\<exists>b. x = Some b \<and> bt_fields b = sf_schema q"
proof -
  from assms(1) obtain isch sch where "r = new_provider_reader s isch sch is (- 1)" "is = None \<longrightarrow> sch = isch"
    by (cases "is") (auto simp: project_reader_def rbind_Inr_iff)
  then have r: "provider_inv (\<lambda>s. True) r" "pv_remaining r < 0"
    by (simp, simp add: new_provider_reader_def)
  from assms(2) have q: "q = \<lparr>sf_inner = r, sf_schema = pv_schema r, sf_record = None, sf_err = None, sf_done = False\<rparr>"
    by (simp add: new_panic_safe_record_reader_def)
  then have "safe_inv (\<lambda>r. provider_inv (\<lambda>s. True) r \<and> pv_remaining r < 0) q"
    using r by (simp add: safe_inv_def)
  from safe_projected.drain_more [OF this assms(3)] assms(4) q
  have "x \<in> set (fst (provider_stream new_slice source_stream r))"
    by (auto simp: safe_stream_def split: prod.splits dest: set_takeWhileD)
  with unbounded_stream_conforms [OF r] q show ?thesis by auto
qed

theorem exported_projection_conforms_witness:
  "\<exists>r q bs e b. project_reader source_ops (Some two_column_source) (Some [1]) = Inr r \<and>
     new_panic_safe_record_reader (never_panics (provider_ops (\<lambda>b n. b) source_ops)) r = Inr q \<and>
     drain (panic_safe_ops (never_panics (provider_ops (\<lambda>b n. b) source_ops))) 3 q = Some (bs, e) \<and>
     bs \<noteq> [] \<and> hd bs = Some b \<and> bt_fields b = sf_schema q"
proof -
  let ?ops = "never_panics (provider_ops (\<lambda>b n. b) source_ops)"
  have "case project_reader source_ops (Some two_column_source) (Some [1]) of Inl e \<Rightarrow> False | Inr r \<Rightarrow>
      (case new_panic_safe_record_reader ?ops r of Inl e \<Rightarrow> False | Inr q \<Rightarrow>
        (case drain (panic_safe_ops ?ops) 3 q of None \<Rightarrow> False | Some (bs, e) \<Rightarrow> bs \<noteq> []))"
    by code_simp
  then obtain r q bs e where
    rq: "project_reader source_ops (Some two_column_source) (Some [1]) = Inr r"
      "new_panic_safe_record_reader ?ops r = Inr q" and
    d: "drain (panic_safe_ops ?ops) 3 q = Some (bs, e)" "bs \<noteq> []"
    by (auto split: sum.splits option.splits)
  from exported_projection_conforms [OF rq d(1), of "hd bs"] d(2) rq d(1) show ?thesis by auto
qed

end
