(* ===== verification/GoJson.thy ===== *)
theory GoJson
  imports GoErrors
begin

text \<open>
  What the source uses of \<^verbatim>\<open>encoding/json\<close>, \<^verbatim>\<open>strconv\<close> and \<^verbatim>\<open>encoding/base64\<close>.  A valid JSON text is its syntax
  tree: numbers keep their text, object members their order and duplicates.  Decoding into a Go struct
  goes through the members in order: a member matches a field by its exact name, or else up to
  letter case; members that match no field are skipped; \<^verbatim>\<open>null\<close> leaves a field as it is; a
  missing member leaves the zero value.  Decoding into a \<^verbatim>\<open>RawMessage\<close> keeps the tree.
\<close>

datatype json = JNull | JBool bool | JNum string | JStr string | JArr "json list" | JObj "(string \<times> json) list"

lemma size_JObj_member: "(k, v) \<in> set ms \<Longrightarrow> size v < size (JObj ms)"
  by (induction ms) auto

lemma size_JArr_element: "v \<in> set vs \<Longrightarrow> size v < size (JArr vs)"
  by (induction vs) auto

subsection \<open>Numbers\<close>

text \<open>\<^verbatim>\<open>strconv.ParseInt(text, 10, 64)\<close> and \<^verbatim>\<open>ParseUint\<close> on the text of a JSON number, before the range check.\<close>

definition parse_uint :: "string \<Rightarrow> int option" where
  "parse_uint s = map_option int (read_nat s)"

definition parse_int :: "string \<Rightarrow> int option" where
  "parse_int s =
     (case s of [] \<Rightarrow> None | c # t \<Rightarrow> if c = CHR ''-'' then map_option uminus (parse_uint t) else parse_uint s)"

lemma hd_show_nat: "hd (show_nat n) \<noteq> CHR ''-''"
proof
  assume "hd (show_nat n) = CHR ''-''"
  moreover have "hd (show_nat n) \<in> set (show_nat n)" by simp
  ultimately have "char_digit (CHR ''-'') \<noteq> None" using show_nat_digits by metis
  then show False by (simp add: char_digit_def)
qed

lemma parse_uint_show [simp]: "parse_uint (show_nat n) = Some (int n)"
  by (simp add: parse_uint_def)

lemma parse_int_show [simp]: "parse_int (show_int i) = Some i"
proof (cases "i < 0")
  case True
  then show ?thesis by (simp add: parse_int_def show_int_def)
next
  case False
  then have "show_int i = show_nat (nat i)" by (simp add: show_int_def)
  moreover obtain c t where "show_nat (nat i) = c # t" using show_nat_not_Nil by (meson neq_Nil_conv)
  moreover from this have "c \<noteq> CHR ''-''" using hd_show_nat [of "nat i"] by simp
  ultimately show ?thesis using False parse_uint_show [of "nat i"] by (simp add: parse_int_def)
qed

lemma parse_uint_show_int [simp]: "0 \<le> i \<Longrightarrow> parse_uint (show_int i) = Some i"
  by (simp add: show_int_def)

subsection \<open>Decoding values\<close>

definition type_mismatch :: go_error where
  "type_mismatch = Plain ''json: cannot unmarshal value into Go value''"

fun json_string :: "json \<Rightarrow> string \<Rightarrow> go_error + string" where
  "json_string (JStr s) old = Inr s"
| "json_string JNull old = Inr old"
| "json_string j old = Inl type_mismatch"

fun json_bool :: "json \<Rightarrow> bool \<Rightarrow> go_error + bool" where
  "json_bool (JBool b) old = Inr b"
| "json_bool JNull old = Inr old"
| "json_bool j old = Inl type_mismatch"

text \<open>Into a signed or unsigned integer of \<open>n\<close> bits: the text must be an integer in range.\<close>

fun json_int :: "nat \<Rightarrow> json \<Rightarrow> int \<Rightarrow> go_error + int" where
  "json_int n (JNum t) old =
     (case parse_int t of
        None \<Rightarrow> Inl type_mismatch
      | Some i \<Rightarrow> if - (2 ^ (n - 1)) \<le> i \<and> i < 2 ^ (n - 1) then Inr i else Inl type_mismatch)"
| "json_int n JNull old = Inr old"
| "json_int n j old = Inl type_mismatch"

fun json_uint :: "nat \<Rightarrow> json \<Rightarrow> int \<Rightarrow> go_error + int" where
  "json_uint n (JNum t) old =
     (case parse_uint t of
        None \<Rightarrow> Inl type_mismatch
      | Some i \<Rightarrow> if i < 2 ^ n then Inr i else Inl type_mismatch)"
| "json_uint n JNull old = Inr old"
| "json_uint n j old = Inl type_mismatch"

text \<open>Into a floating-point value, by \<^verbatim>\<open>strconv.ParseFloat\<close>, a parameter: no value for a text out of range.\<close>

fun json_float :: "(string \<Rightarrow> 'f option) \<Rightarrow> json \<Rightarrow> 'f \<Rightarrow> go_error + 'f" where
  "json_float parse (JNum t) old = (case parse t of None \<Rightarrow> Inl type_mismatch | Some f \<Rightarrow> Inr f)"
| "json_float parse JNull old = Inr old"
| "json_float parse j old = Inl type_mismatch"

fun json_slice :: "(json \<Rightarrow> 'a \<Rightarrow> go_error + 'a) \<Rightarrow> 'a \<Rightarrow> json \<Rightarrow> 'a list \<Rightarrow> go_error + 'a list" where
  "json_slice dec zero (JArr js) old =
     traverse (\<lambda>(i, j). dec j (if i < length old then old ! i else zero)) (enumerate 0 js)"
| "json_slice dec zero JNull old = Inr []"
| "json_slice dec zero j old = Inl type_mismatch"

definition json_raw :: "json \<Rightarrow> json option \<Rightarrow> go_error + json option" where
  "json_raw j old = Inr (Some j)"

subsection \<open>Decoding structs\<close>

text \<open>
  The case folding of member names: ASCII letters, and the two runes outside ASCII that fold to
  ASCII letters, the Kelvin sign and the long s.
\<close>

fun fold_name :: "string \<Rightarrow> string" where
  "fold_name [] = []"
| "fold_name (c # s) =
     (if has_prefix (c # s) [CHR 0xE2, CHR 0x84, CHR 0xAA] then CHR ''k'' # fold_name (drop 2 s)
      else if has_prefix (c # s) [CHR 0xC5, CHR 0xBF] then CHR ''s'' # fold_name (drop 1 s)
      else lower_char c # fold_name s)"

declare fold_name.simps [simp del]

type_synonym 'a json_fields = "(string \<times> (json \<Rightarrow> 'a \<Rightarrow> go_error + 'a)) list"

definition find_field :: "'a json_fields \<Rightarrow> string \<Rightarrow> (json \<Rightarrow> 'a \<Rightarrow> go_error + 'a) option" where
  "find_field flds k =
     (case map_of flds k of
        Some d \<Rightarrow> Some d
      | None \<Rightarrow> map_of (map (\<lambda>(n, d). (fold_name n, d)) flds) (fold_name k))"

fun json_members :: "'a json_fields \<Rightarrow> (string \<times> json) list \<Rightarrow> 'a \<Rightarrow> go_error + 'a" where
  "json_members flds [] a = Inr a"
| "json_members flds ((k, v) # ms) a =
     (case find_field flds k of
        None \<Rightarrow> json_members flds ms a
      | Some d \<Rightarrow> rbind (d v a) (json_members flds ms))"

definition json_struct :: "'a json_fields \<Rightarrow> json \<Rightarrow> 'a \<Rightarrow> go_error + 'a" where
  "json_struct flds j a =
     (case j of JObj ms \<Rightarrow> json_members flds ms a | JNull \<Rightarrow> Inr a | _ \<Rightarrow> Inl type_mismatch)"

lemma json_struct_simps [simp]:
  "json_struct flds (JObj ms) a = json_members flds ms a"
  "json_struct flds JNull a = Inr a"
  by (simp_all add: json_struct_def)

text \<open>An invariant every field decoder keeps is kept by the struct.\<close>

lemma find_field_in: "find_field flds k = Some d \<Longrightarrow> \<exists>n. (n, d) \<in> set flds"
  by (auto simp: find_field_def split: option.splits dest!: map_of_SomeD)

lemma json_members_keeps:
  assumes "\<And>n d v a b. (n, d) \<in> set flds \<Longrightarrow> v \<in> snd ` set ms \<Longrightarrow> P a \<Longrightarrow> d v a = Inr b \<Longrightarrow> P b"
    and "P a" and "json_members flds ms a = Inr b"
  shows "P b"
  using assms
proof (induction flds ms a rule: json_members.induct)
  case (2 flds k v ms a)
  show ?case
  proof (cases "find_field flds k")
    case None
    with 2 show ?thesis by (simp add: image_iff) blast
  next
    case (Some d)
    then obtain n where "(n, d) \<in> set flds" using find_field_in by blast
    moreover obtain c where "d v a = Inr c" "json_members flds ms c = Inr b"
      using 2(5) Some by (auto simp: rbind_Inr_iff)
    ultimately show ?thesis using 2(2) [OF Some] 2(3,4) by (metis (no_types, lifting) image_insert insertCI list.simps(15) snd_conv)
  qed
qed auto

subsection \<open>Base64\<close>

definition b64_alphabet :: string where
  "b64_alphabet = ''ABCDEFGHIJKLMNOPQRSTUVWXYZabcdefghijklmnopqrstuvwxyz0123456789+/''"

definition b64_value :: "char \<Rightarrow> nat option" where
  "b64_value c = map_of (zip b64_alphabet [0..<64]) c"

fun b64_quanta :: "string \<Rightarrow> string option" where
  "b64_quanta [] = Some []"
| "b64_quanta (a # b # c # d # rest) =
     (case (b64_value a, b64_value b) of
        (Some x, Some y) \<Rightarrow>
          if c = CHR ''='' then
            (if d = CHR ''='' \<and> rest = [] then Some [char_of (4 * x + y div 16)] else None)
          else (case b64_value c of
              None \<Rightarrow> None
            | Some z \<Rightarrow>
                if d = CHR ''='' then
                  (if rest = [] then Some [char_of (4 * x + y div 16), char_of (16 * (y mod 16) + z div 4)]
                   else None)
                else (case (b64_value d, b64_quanta rest) of
                    (Some w, Some s) \<Rightarrow>
                      Some (char_of (4 * x + y div 16) # char_of (16 * (y mod 16) + z div 4) #
                        char_of (64 * (z mod 4) + w) # s)
                  | _ \<Rightarrow> None))
      | _ \<Rightarrow> None)"
| "b64_quanta _ = None"

text \<open>\<^verbatim>\<open>StdEncoding.DecodeString\<close> skips line breaks.\<close>

definition b64_decode :: "string \<Rightarrow> string option" where
  "b64_decode s = b64_quanta (filter (\<lambda>c. c \<noteq> CHR 0x0A \<and> c \<noteq> CHR 0x0D) s)"

definition b64_digit :: "nat \<Rightarrow> char" where
  "b64_digit n = b64_alphabet ! n"

fun b64_encode :: "string \<Rightarrow> string" where
  "b64_encode [] = []"
| "b64_encode [x] =
     [b64_digit (of_char x div 4), b64_digit (16 * (of_char x mod 4)), CHR ''='', CHR ''='']"
| "b64_encode [x, y] =
     [b64_digit (of_char x div 4), b64_digit (16 * (of_char x mod 4) + of_char y div 16),
      b64_digit (4 * (of_char y mod 16)), CHR ''='']"
| "b64_encode (x # y # z # rest) =
     b64_digit (of_char x div 4) # b64_digit (16 * (of_char x mod 4) + of_char y div 16) #
     b64_digit (4 * (of_char y mod 16) + of_char z div 64) # b64_digit (of_char z mod 64) # b64_encode rest"

lemma b64_digits: "\<forall>n \<in> set [0..<64]. b64_value (b64_digit n) = Some n \<and> b64_digit n \<noteq> CHR ''='' \<and>
    b64_digit n \<noteq> CHR 0x0A \<and> b64_digit n \<noteq> CHR 0x0D"
  by code_simp

lemma b64_digit_simps [simp]:
  assumes "n < 64"
  shows "b64_value (b64_digit n) = Some n" "b64_digit n \<noteq> CHR ''=''"
    "b64_digit n \<noteq> CHR 0x0A" "b64_digit n \<noteq> CHR 0x0D"
  using b64_digits assms by (simp_all add: atLeast0LessThan)

lemma byte_parts:
  assumes "(n :: nat) < 256"
  shows "n div 4 < 64" "n div 16 < 16" "n div 64 < 4" "n mod 4 < 4" "n mod 16 < 16" "n mod 64 < 64"
  using assms by (simp_all add: less_mult_imp_div_less)

lemma b64_digit_lt:
  "of_char x div 4 < (64 :: nat)" "16 * (of_char x mod 4) + of_char y div 16 < (64 :: nat)"
  "16 * (of_char x mod 4) < (64 :: nat)" "4 * (of_char x mod 16) < (64 :: nat)"
  "4 * (of_char x mod 16) + of_char y div 64 < (64 :: nat)" "of_char x mod 64 < (64 :: nat)"
  using byte_parts [OF nat_of_char_less_256, of x] byte_parts [OF nat_of_char_less_256, of y] by linarith+

text \<open>The bits of two or three neighbouring digits give the byte back.\<close>

lemma b64_recombine [simp]:
  "of_char y div 16 div 16 = (0 :: nat)"
  "16 * (of_char y div 16 mod 16) + of_char y mod 16 = (of_char y :: nat)"
  "16 * (of_char y div 16 mod 16) + (of_char y mod 16 + of_char z div 64 div 4) = (of_char y :: nat)"
  "64 * (of_char z div 64 mod 4) + of_char z mod 64 = (of_char z :: nat)"
proof -
  note y = byte_parts [OF nat_of_char_less_256, of y] and z = byte_parts [OF nat_of_char_less_256, of z]
  have s: "of_char y div 16 mod 16 = (of_char y div 16 :: nat)" "of_char z div 64 mod 4 = (of_char z div 64 :: nat)"
    "of_char z div 64 div 4 = (0 :: nat)"
    using y z by simp_all
  show "of_char y div 16 div 16 = (0 :: nat)" using y by simp
  show "16 * (of_char y div 16 mod 16) + of_char y mod 16 = (of_char y :: nat)"
    "16 * (of_char y div 16 mod 16) + (of_char y mod 16 + of_char z div 64 div 4) = (of_char y :: nat)"
    "64 * (of_char z div 64 mod 4) + of_char z mod 64 = (of_char z :: nat)"
    unfolding s by simp_all
qed

lemma b64_quanta_encode: "b64_quanta (b64_encode s) = Some s"
  by (induction s rule: b64_encode.induct) (simp_all add: b64_digit_lt)

lemma b64_encode_no_breaks: "filter (\<lambda>c. c \<noteq> CHR 0x0A \<and> c \<noteq> CHR 0x0D) (b64_encode s) = b64_encode s"
  by (induction s rule: b64_encode.induct) (simp_all add: b64_digit_lt)

lemma b64_decode_encode [simp]: "b64_decode (b64_encode s) = Some s"
  by (simp add: b64_decode_def b64_encode_no_breaks b64_quanta_encode)

end
