(* ===== verification/Pushdown.thy ===== *)
theory Pushdown
  imports GoJson
begin

text \<open>
  \<^verbatim>\<open>internal/native/expr.go\<close>: the decoder of the filters the engine pushes to a Go table provider, and the
  writer it must invert, the serde serialization of \<^verbatim>\<open>rust/src/pushdown.rs\<close>.  Floating-point values are
  their IEEE bits; reading and printing their decimal texts is \<^verbatim>\<open>strconv\<close>'s and serde's, the
  fields of \<open>float_env\<close>, with the law that finite values survive.
\<close>

record column =
  col_name :: string
  col_index :: int

datatype lit_value =
    LNil | LBool bool
  | LInt8 "8 word" | LInt16 "16 word" | LInt32 "32 word" | LInt64 "64 word"
  | LUint8 "8 word" | LUint16 "16 word" | LUint32 "32 word" | LUint64 "64 word"
  | LFloat32 "32 word" | LFloat64 "64 word" | LString string | LBytes string

record literal =
  lit_type :: string
  lit_value :: lit_value
  lit_unit :: string
  lit_tz :: string

datatype expr =
    Compare column string literal
  | IsNull column bool
  | Between column bool literal literal
  | InList column bool "literal list"
  | AndE expr expr
  | OrE expr expr
  | NotE expr

definition compare_ops :: "string list" where
  "compare_ops = [''eq'', ''neq'', ''lt'', ''lteq'', ''gt'', ''gteq'']"

definition time_units :: "string list" where
  "time_units = [''s'', ''ms'', ''us'', ''ns'']"

record float_env =
  parse_f32 :: "string \<Rightarrow> 32 word option"
  parse_f64 :: "string \<Rightarrow> 64 word option"
  show_f32 :: "32 word \<Rightarrow> string"
  show_f64 :: "64 word \<Rightarrow> string"

subsection \<open>Literals\<close>

record raw_literal =
  rl_type :: string
  rl_value :: "json option"
  rl_unit :: string
  rl_tz :: string

definition zero_literal :: literal where
  "zero_literal = \<lparr>lit_type = [], lit_value = LNil, lit_unit = [], lit_tz = []\<rparr>"

definition zero_column :: column where
  "zero_column = \<lparr>col_name = [], col_index = 0\<rparr>"

definition literal_fields :: "raw_literal json_fields" where
  "literal_fields =
     [(''type'', \<lambda>j r. rbind (json_string j (rl_type r)) (\<lambda>s. Inr (r\<lparr>rl_type := s\<rparr>))),
      (''value'', \<lambda>j r. Inr (r\<lparr>rl_value := Some j\<rparr>)),
      (''unit'', \<lambda>j r. rbind (json_string j (rl_unit r)) (\<lambda>s. Inr (r\<lparr>rl_unit := s\<rparr>))),
      (''tz'', \<lambda>j r. rbind (json_string j (rl_tz r)) (\<lambda>s. Inr (r\<lparr>rl_tz := s\<rparr>)))]"

definition signed_value :: "nat \<Rightarrow> (int \<Rightarrow> lit_value) \<Rightarrow> json \<Rightarrow> go_error + lit_value" where
  "signed_value n f j = rbind (json_int n j 0) (\<lambda>i. Inr (f i))"

definition unsigned_value :: "nat \<Rightarrow> (int \<Rightarrow> lit_value) \<Rightarrow> json \<Rightarrow> go_error + lit_value" where
  "unsigned_value n f j = rbind (json_uint n j 0) (\<lambda>i. Inr (f i))"

text \<open>The switch over the literal types: the decoder of the value, into a variable that starts at zero.\<close>

definition literal_decoder :: "float_env \<Rightarrow> string \<Rightarrow> (json \<Rightarrow> go_error + lit_value) option" where
  "literal_decoder env t = map_of
     [(''bool'', \<lambda>j. rbind (json_bool j False) (\<lambda>b. Inr (LBool b))),
      (''int8'', signed_value 8 (\<lambda>i. LInt8 (word_of_int i))),
      (''int16'', signed_value 16 (\<lambda>i. LInt16 (word_of_int i))),
      (''int32'', signed_value 32 (\<lambda>i. LInt32 (word_of_int i))),
      (''int64'', signed_value 64 (\<lambda>i. LInt64 (word_of_int i))),
      (''uint8'', unsigned_value 8 (\<lambda>i. LUint8 (word_of_int i))),
      (''uint16'', unsigned_value 16 (\<lambda>i. LUint16 (word_of_int i))),
      (''uint32'', unsigned_value 32 (\<lambda>i. LUint32 (word_of_int i))),
      (''uint64'', unsigned_value 64 (\<lambda>i. LUint64 (word_of_int i))),
      (''float32'', \<lambda>j. rbind (json_float (parse_f32 env) j 0) (\<lambda>f. Inr (LFloat32 f))),
      (''float64'', \<lambda>j. rbind (json_float (parse_f64 env) j 0) (\<lambda>f. Inr (LFloat64 f))),
      (''utf8'', \<lambda>j. rbind (json_string j []) (\<lambda>s. Inr (LString s))),
      (''binary'', \<lambda>j. rbind (json_string j []) (\<lambda>s.
          case b64_decode s of None \<Rightarrow> Inl (Plain ''literal: invalid base64'') | Some b \<Rightarrow> Inr (LBytes b))),
      (''date32'', signed_value 32 (\<lambda>i. LInt32 (word_of_int i))),
      (''date64'', signed_value 64 (\<lambda>i. LInt64 (word_of_int i))),
      (''timestamp'', signed_value 64 (\<lambda>i. LInt64 (word_of_int i)))] t"

text \<open>Storing a decoded value: unit and zone only of a timestamp, whose unit is checked.\<close>

definition set_literal :: "literal \<Rightarrow> raw_literal \<Rightarrow> lit_value \<Rightarrow> go_error + literal" where
  "set_literal l raw v =
     (if rl_type raw = ''timestamp'' then
        (if rl_unit raw \<notin> set time_units then Inl (Plain ''timestamp literal has invalid unit'')
         else Inr (l\<lparr>lit_value := v, lit_unit := rl_unit raw, lit_tz := rl_tz raw, lit_type := rl_type raw\<rparr>))
      else Inr (l\<lparr>lit_value := v, lit_type := rl_type raw\<rparr>))"

definition unmarshal_literal :: "float_env \<Rightarrow> json \<Rightarrow> literal \<Rightarrow> go_error + literal" where
  "unmarshal_literal env j l =
     rbind (json_struct literal_fields j \<lparr>rl_type = [], rl_value = None, rl_unit = [], rl_tz = []\<rparr>) (\<lambda>raw.
       case rl_value raw of
         None \<Rightarrow> Inl (Plain ''literal has no value'')
       | Some value \<Rightarrow>
           (case literal_decoder env (rl_type raw) of
              None \<Rightarrow> Inl (Plain ''unknown literal type'')
            | Some dec \<Rightarrow>
                rbind (dec value) (set_literal l raw)))"

subsection \<open>Expressions\<close>

definition column_fields :: "column json_fields" where
  "column_fields =
     [(''name'', \<lambda>j c. rbind (json_string j (col_name c)) (\<lambda>s. Inr (c\<lparr>col_name := s\<rparr>))),
      (''index'', \<lambda>j c. rbind (json_int 64 j (col_index c)) (\<lambda>i. Inr (c\<lparr>col_index := i\<rparr>)))]"

text \<open>The members of all the anonymous structs of \<^verbatim>\<open>decodeExpr\<close>; each kind decodes the ones it declares.\<close>

record raw_expr =
  re_kind :: string
  re_column :: column
  re_op :: string
  re_negated :: bool
  re_literal :: literal
  re_low :: literal
  re_high :: literal
  re_list :: "literal list"
  re_left :: "json option"
  re_right :: "json option"
  re_expr :: "json option"

definition zero_raw :: raw_expr where
  "zero_raw = \<lparr>re_kind = [], re_column = zero_column, re_op = [], re_negated = False,
     re_literal = zero_literal, re_low = zero_literal, re_high = zero_literal, re_list = [],
     re_left = None, re_right = None, re_expr = None\<rparr>"

definition kind_field :: "raw_expr json_fields" where
  "kind_field = [(''kind'', \<lambda>j r. rbind (json_string j (re_kind r)) (\<lambda>s. Inr (r\<lparr>re_kind := s\<rparr>)))]"

definition column_field :: "raw_expr json_fields" where
  "column_field =
     [(''column'', \<lambda>j r. rbind (json_struct column_fields j (re_column r)) (\<lambda>c. Inr (r\<lparr>re_column := c\<rparr>)))]"

definition negated_field :: "raw_expr json_fields" where
  "negated_field = [(''negated'', \<lambda>j r. rbind (json_bool j (re_negated r)) (\<lambda>b. Inr (r\<lparr>re_negated := b\<rparr>)))]"

definition compare_fields :: "float_env \<Rightarrow> raw_expr json_fields" where
  "compare_fields env = column_field @
     [(''op'', \<lambda>j r. rbind (json_string j (re_op r)) (\<lambda>s. Inr (r\<lparr>re_op := s\<rparr>))),
      (''literal'', \<lambda>j r. rbind (unmarshal_literal env j (re_literal r)) (\<lambda>l. Inr (r\<lparr>re_literal := l\<rparr>)))]"

definition between_fields :: "float_env \<Rightarrow> raw_expr json_fields" where
  "between_fields env = column_field @ negated_field @
     [(''low'', \<lambda>j r. rbind (unmarshal_literal env j (re_low r)) (\<lambda>l. Inr (r\<lparr>re_low := l\<rparr>))),
      (''high'', \<lambda>j r. rbind (unmarshal_literal env j (re_high r)) (\<lambda>l. Inr (r\<lparr>re_high := l\<rparr>)))]"

definition in_list_fields :: "float_env \<Rightarrow> raw_expr json_fields" where
  "in_list_fields env = column_field @ negated_field @
     [(''list'', \<lambda>j r. rbind (json_slice (unmarshal_literal env) zero_literal j (re_list r))
        (\<lambda>ls. Inr (r\<lparr>re_list := ls\<rparr>)))]"

definition pair_fields :: "raw_expr json_fields" where
  "pair_fields =
     [(''left'', \<lambda>j r. Inr (r\<lparr>re_left := Some j\<rparr>)), (''right'', \<lambda>j r. Inr (r\<lparr>re_right := Some j\<rparr>))]"

definition not_fields :: "raw_expr json_fields" where
  "not_fields = [(''expr'', \<lambda>j r. Inr (r\<lparr>re_expr := Some j\<rparr>))]"

text \<open>The raw operands of a connective are parts of its tree, so the recursion ends.\<close>

definition raw_size :: "json option \<Rightarrow> nat" where
  "raw_size x = (case x of None \<Rightarrow> 0 | Some j \<Rightarrow> Suc (size j))"

lemma raw_size_simps [simp]: "raw_size None = 0" "raw_size (Some j) = Suc (size j)"
  by (simp_all add: raw_size_def)

lemma operand_size:
  assumes "json_struct flds j zero_raw = Inr raw" and "flds = pair_fields \<or> flds = not_fields"
  shows "raw_size (re_left raw) < Suc (size j) \<and> raw_size (re_right raw) < Suc (size j) \<and>
    raw_size (re_expr raw) < Suc (size j)"
proof -
  let ?P = "\<lambda>r. raw_size (re_left r) < Suc (size j) \<and> raw_size (re_right r) < Suc (size j) \<and>
    raw_size (re_expr r) < Suc (size j)"
  have zero: "?P zero_raw" by (simp add: zero_raw_def)
  show ?thesis
  proof (cases j)
    case (JObj ms)
    show ?thesis
    proof (rule json_members_keeps [where P = ?P and flds = flds and ms = ms and a = zero_raw])
      fix n d v a b
      assume "(n, d) \<in> set flds" "v \<in> snd ` set ms" "?P a" "d v a = Inr b"
      moreover from this have "Suc (size v) < Suc (size j)" using size_JObj_member JObj by fastforce
      ultimately show "?P b" using assms(2) by (auto simp: pair_fields_def not_fields_def)
    qed (use zero assms JObj in auto)
  qed (use assms zero in \<open>auto simp: json_struct_def\<close>)
qed

function decode_expr :: "float_env \<Rightarrow> json option \<Rightarrow> go_error + expr" where
  "decode_expr env data =
     (case data of
        None \<Rightarrow> Inl (Plain ''unexpected end of JSON input'')
      | Some j \<Rightarrow>
          rbind (json_struct kind_field j zero_raw) (\<lambda>k.
            if re_kind k = ''compare'' then
              rbind (json_struct (compare_fields env) j zero_raw) (\<lambda>raw.
                if re_op raw \<notin> set compare_ops then Inl (Plain ''unknown comparison operator'')
                else Inr (Compare (re_column raw) (re_op raw) (re_literal raw)))
            else if re_kind k = ''is_null'' then
              rbind (json_struct (column_field @ negated_field) j zero_raw) (\<lambda>raw.
                Inr (IsNull (re_column raw) (re_negated raw)))
            else if re_kind k = ''between'' then
              rbind (json_struct (between_fields env) j zero_raw) (\<lambda>raw.
                Inr (Between (re_column raw) (re_negated raw) (re_low raw) (re_high raw)))
            else if re_kind k = ''in_list'' then
              rbind (json_struct (in_list_fields env) j zero_raw) (\<lambda>raw.
                Inr (InList (re_column raw) (re_negated raw) (re_list raw)))
            else if re_kind k = ''and'' \<or> re_kind k = ''or'' then
              rbind (json_struct pair_fields j zero_raw) (\<lambda>raw.
                rbind (decode_expr env (re_left raw)) (\<lambda>left.
                  rbind (decode_expr env (re_right raw)) (\<lambda>right.
                    if re_kind k = ''and'' then Inr (AndE left right) else Inr (OrE left right))))
            else if re_kind k = ''not'' then
              rbind (json_struct not_fields j zero_raw) (\<lambda>raw.
                rbind (decode_expr env (re_expr raw)) (\<lambda>inner. Inr (NotE inner)))
            else Inl (Plain ''unknown filter expression kind'')))"
  by pat_completeness auto
termination
  by (relation "measure (\<lambda>(env, data). raw_size data)") (auto dest: operand_size)

declare decode_expr.simps [simp del]

text \<open>The document: \<open>None\<close> for bytes that are not a JSON text.\<close>

definition decode_filters :: "float_env \<Rightarrow> json option \<Rightarrow> go_error + expr list" where
  "decode_filters env data =
     (case data of
        None \<Rightarrow> Inl (Plain ''decoding pushed filters'')
      | Some j \<Rightarrow>
          (case json_slice (\<lambda>v old. Inr v) JNull j [] of
             Inl e \<Rightarrow> Inl (Wrapped ''decoding pushed filters'' e)
           | Inr raws \<Rightarrow>
               traverse (\<lambda>(i, raw). case decode_expr env (Some raw) of
                   Inl e \<Rightarrow> Inl (Wrapped (''decoding pushed filter '' @ show_nat i) e)
                 | Inr e \<Rightarrow> Inr e) (enumerate 0 raws)))"

subsection \<open>What a decoded filter can be\<close>

text \<open>The Go representation each literal type announces.\<close>

fun value_types :: "lit_value \<Rightarrow> string list" where
  "value_types LNil = []"
| "value_types (LBool b) = [''bool'']"
| "value_types (LInt8 i) = [''int8'']"
| "value_types (LInt16 i) = [''int16'']"
| "value_types (LInt32 i) = [''int32'', ''date32'']"
| "value_types (LInt64 i) = [''int64'', ''date64'', ''timestamp'']"
| "value_types (LUint8 i) = [''uint8'']"
| "value_types (LUint16 i) = [''uint16'']"
| "value_types (LUint32 i) = [''uint32'']"
| "value_types (LUint64 i) = [''uint64'']"
| "value_types (LFloat32 f) = [''float32'']"
| "value_types (LFloat64 f) = [''float64'']"
| "value_types (LString s) = [''utf8'']"
| "value_types (LBytes b) = [''binary'']"

definition literal_typed :: "literal \<Rightarrow> bool" where
  "literal_typed l \<longleftrightarrow> lit_type l \<in> set (value_types (lit_value l)) \<and>
     (lit_type l = ''timestamp'' \<longrightarrow> lit_unit l \<in> set time_units)"

definition literal_decoded :: "literal \<Rightarrow> bool" where
  "literal_decoded l \<longleftrightarrow> l = zero_literal \<or> literal_typed l"

fun expr_decoded :: "expr \<Rightarrow> bool" where
  "expr_decoded (Compare c op l) = (op \<in> set compare_ops \<and> literal_decoded l)"
| "expr_decoded (IsNull c n) = True"
| "expr_decoded (Between c n lo hi) = (literal_decoded lo \<and> literal_decoded hi)"
| "expr_decoded (InList c n ls) = (\<forall>l \<in> set ls. literal_typed l)"
| "expr_decoded (AndE a b) = (expr_decoded a \<and> expr_decoded b)"
| "expr_decoded (OrE a b) = (expr_decoded a \<and> expr_decoded b)"
| "expr_decoded (NotE a) = expr_decoded a"

lemma literal_decoder_typed:
  "literal_decoder env t = Some dec \<Longrightarrow> dec j = Inr v \<Longrightarrow> t \<in> set (value_types v)"
  by (auto simp: literal_decoder_def signed_value_def unsigned_value_def rbind_Inr_iff
      split: if_splits option.splits)

lemma set_literal_typed: "set_literal l raw v = Inr m \<Longrightarrow> rl_type raw \<in> set (value_types v) \<Longrightarrow> literal_typed m"
  by (auto simp: set_literal_def literal_typed_def split: if_splits)

lemma unmarshal_literal_Inr:
  "unmarshal_literal env j l = Inr m \<longleftrightarrow>
   (\<exists>raw value dec v. json_struct literal_fields j \<lparr>rl_type = [], rl_value = None, rl_unit = [], rl_tz = []\<rparr> = Inr raw \<and>
      rl_value raw = Some value \<and> literal_decoder env (rl_type raw) = Some dec \<and> dec value = Inr v \<and>
      set_literal l raw v = Inr m)"
  unfolding unmarshal_literal_def rbind_Inr_iff by (fastforce simp: rbind_Inr_iff split: option.splits)

lemma unmarshal_literal_typed: "unmarshal_literal env j l = Inr m \<Longrightarrow> literal_typed m"
  unfolding unmarshal_literal_Inr using set_literal_typed literal_decoder_typed by blast

definition raw_decoded :: "raw_expr \<Rightarrow> bool" where
  "raw_decoded r \<longleftrightarrow> literal_decoded (re_literal r) \<and> literal_decoded (re_low r) \<and>
     literal_decoded (re_high r) \<and> (\<forall>l \<in> set (re_list r). literal_typed l)"

lemma json_slice_typed:
  assumes "json_slice (unmarshal_literal env) z j old = Inr ls" and "l \<in> set ls"
  shows "literal_typed l"
proof (cases j)
  case (JArr js)
  from assms(2) obtain i where i: "i < length ls" "l = ls ! i" by (auto simp: in_set_conv_nth)
  from assms(1) JArr have t: "traverse (\<lambda>(i, j). unmarshal_literal env j (if i < length old then old ! i else z))
      (enumerate 0 js) = Inr ls" by simp
  with i have "i < length (enumerate 0 js)" using traverse_length [OF t] by simp
  from traverse_nth [OF t this] i(2) show ?thesis
    by (auto split: prod.splits intro: unmarshal_literal_typed)
qed (use assms in auto)

definition field_keeps :: "('a \<Rightarrow> bool) \<Rightarrow> (json \<Rightarrow> 'a \<Rightarrow> go_error + 'a) \<Rightarrow> bool" where
  "field_keeps P d \<longleftrightarrow> (\<forall>v a b. P a \<longrightarrow> d v a = Inr b \<longrightarrow> P b)"

lemma column_field_keeps: "(n, d) \<in> set column_field \<Longrightarrow> field_keeps raw_decoded d"
  by (auto simp: field_keeps_def column_field_def rbind_Inr_iff raw_decoded_def)

lemma negated_field_keeps: "(n, d) \<in> set negated_field \<Longrightarrow> field_keeps raw_decoded d"
  by (auto simp: field_keeps_def negated_field_def rbind_Inr_iff raw_decoded_def)

lemma literal_field_keeps:
  "field_keeps raw_decoded (\<lambda>j r. rbind (json_string j (re_op r)) (\<lambda>s. Inr (r\<lparr>re_op := s\<rparr>)))"
  "field_keeps raw_decoded (\<lambda>j r. rbind (unmarshal_literal env j (re_literal r)) (\<lambda>l. Inr (r\<lparr>re_literal := l\<rparr>)))"
  "field_keeps raw_decoded (\<lambda>j r. rbind (unmarshal_literal env j (re_low r)) (\<lambda>l. Inr (r\<lparr>re_low := l\<rparr>)))"
  "field_keeps raw_decoded (\<lambda>j r. rbind (unmarshal_literal env j (re_high r)) (\<lambda>l. Inr (r\<lparr>re_high := l\<rparr>)))"
  "field_keeps raw_decoded (\<lambda>j r. rbind (json_slice (unmarshal_literal env) zero_literal j (re_list r))
     (\<lambda>ls. Inr (r\<lparr>re_list := ls\<rparr>)))"
  unfolding field_keeps_def rbind_Inr_iff raw_decoded_def literal_decoded_def
  by (auto dest: unmarshal_literal_typed json_slice_typed)

lemma raw_decoded_struct:
  assumes "json_struct flds j zero_raw = Inr raw"
    and "flds = compare_fields env \<or> flds = between_fields env \<or> flds = in_list_fields env"
  shows "raw_decoded raw"
proof -
  have zero: "raw_decoded zero_raw" by (simp add: raw_decoded_def zero_raw_def literal_decoded_def)
  have keeps: "field_keeps raw_decoded d" if "(n, d) \<in> set flds" for n d
    using that assms(2)
    by (auto simp: compare_fields_def between_fields_def in_list_fields_def literal_field_keeps
        dest: column_field_keeps negated_field_keeps)
  show ?thesis
  proof (cases j)
    case (JObj ms)
    show ?thesis
      by (rule json_members_keeps [where P = raw_decoded and flds = flds and ms = ms and a = zero_raw])
         (use zero assms(1) JObj keeps in \<open>auto simp: field_keeps_def\<close>)
  qed (use assms zero in \<open>auto simp: json_struct_def\<close>)
qed

lemma decode_expr_None [simp]: "decode_expr env None = Inl (Plain ''unexpected end of JSON input'')"
  by (simp add: decode_expr.simps)

lemma decode_expr_decoded: "decode_expr env data = Inr e \<Longrightarrow> expr_decoded e"
proof (induction env data arbitrary: e rule: decode_expr.induct)
  case (1 env data)
  obtain j where j: "data = Some j" using "1.prems" by (cases data) auto
  obtain k where k: "json_struct kind_field j zero_raw = Inr k"
    using "1.prems" j by (cases "json_struct kind_field j zero_raw") (simp_all add: decode_expr.simps [of env "Some j"])
  have "decode_expr env (Some j) = Inr e" using "1.prems" j by simp
  note d = this [unfolded decode_expr.simps [of env "Some j"] option.case k rbind.simps]
  consider "re_kind k = ''compare''" | "re_kind k = ''is_null''" | "re_kind k = ''between''"
    | "re_kind k = ''in_list''" | "re_kind k = ''and'' \<or> re_kind k = ''or''" | "re_kind k = ''not''"
    | "re_kind k \<notin> set [''compare'', ''is_null'', ''between'', ''in_list'', ''and'', ''or'', ''not'']"
    unfolding list.set by blast
  then show ?case
  proof cases
    case 1
    with d obtain raw where "json_struct (compare_fields env) j zero_raw = Inr raw"
      "e = Compare (re_column raw) (re_op raw) (re_literal raw)" "re_op raw \<in> set compare_ops"
      by (auto simp: rbind_Inr_iff split: if_splits)
    then show ?thesis using raw_decoded_struct [of _ j raw env] by (simp add: raw_decoded_def)
  next
    case 2
    with d show ?thesis by (auto simp: rbind_Inr_iff)
  next
    case 3
    with d obtain raw where "json_struct (between_fields env) j zero_raw = Inr raw"
      "e = Between (re_column raw) (re_negated raw) (re_low raw) (re_high raw)"
      by (auto simp: rbind_Inr_iff)
    then show ?thesis using raw_decoded_struct [of _ j raw env] by (simp add: raw_decoded_def)
  next
    case 4
    with d obtain raw where "json_struct (in_list_fields env) j zero_raw = Inr raw"
      "e = InList (re_column raw) (re_negated raw) (re_list raw)"
      by (auto simp: rbind_Inr_iff)
    then show ?thesis using raw_decoded_struct [of _ j raw env] by (simp add: raw_decoded_def)
  next
    case 5
    then obtain raw l r where raw: "json_struct pair_fields j zero_raw = Inr raw"
      "decode_expr env (re_left raw) = Inr l" "decode_expr env (re_right raw) = Inr r" "e = AndE l r \<or> e = OrE l r"
      using d by (auto simp: rbind_Inr_iff)
    have "expr_decoded l" "expr_decoded r"
      using "1.IH"(1) [OF j k] "1.IH"(2) [OF j k] 5 raw by auto
    with raw show ?thesis by auto
  next
    case 6
    then obtain raw x where raw: "json_struct not_fields j zero_raw = Inr raw"
      "decode_expr env (re_expr raw) = Inr x" "e = NotE x"
      using d by (auto simp: rbind_Inr_iff)
    have "expr_decoded x" using "1.IH"(3) [OF j k] 6 raw by auto
    with raw show ?thesis by auto
  next
    case 7
    with d show ?thesis by simp
  qed
qed

text \<open>Whatever document arrives, a filter that decodes has a known operator and literals whose Go value is of the
  representation their type announces, with a valid unit for a timestamp; only the literals of a
  comparison or a range may instead be absent.\<close>

theorem decode_filters_typed:
  assumes "decode_filters env data = Inr es"
  shows "\<forall>e \<in> set es. expr_decoded e"
proof
  fix e assume "e \<in> set es"
  from assms obtain raws where t: "traverse (\<lambda>(i, raw). case decode_expr env (Some raw) of
      Inl e \<Rightarrow> Inl (Wrapped (''decoding pushed filter '' @ show_nat i) e) | Inr e \<Rightarrow> Inr e) (enumerate 0 raws) = Inr es"
    by (auto simp: decode_filters_def split: option.splits sum.splits)
  from \<open>e \<in> set es\<close> obtain i where i: "i < length es" "e = es ! i" by (auto simp: in_set_conv_nth)
  then have "i < length (enumerate 0 raws)" using traverse_length [OF t] by simp
  from traverse_nth [OF t this] i obtain raw where "decode_expr env (Some raw) = Inr e"
    by (auto split: prod.splits sum.splits)
  then show "expr_decoded e" by (rule decode_expr_decoded)
qed

theorem decode_filters_typed_witness:
  "\<exists>es. decode_filters \<lparr>parse_f32 = (\<lambda>s. None), parse_f64 = (\<lambda>s. None), show_f32 = (\<lambda>w. []), show_f64 = (\<lambda>w. [])\<rparr>
      (Some (JArr [JObj [(''kind'', JStr ''is_null''), (''column'', JObj [(''name'', JStr ''a'')])]])) = Inr es \<and>
    length es = 1 \<and> (\<forall>e \<in> set es. expr_decoded e)"
  (is "\<exists>es. decode_filters ?env ?doc = Inr es \<and> _")
proof -
  have "case decode_filters ?env ?doc of Inl e \<Rightarrow> False | Inr es \<Rightarrow> length es = 1" by code_simp
  then obtain es where "decode_filters ?env ?doc = Inr es" "length es = 1" by (auto split: sum.splits)
  with decode_filters_typed [OF this(1)] show ?thesis by blast
qed

subsection \<open>The writer\<close>

text \<open>
  \<^verbatim>\<open>PushExpr\<close> and \<^verbatim>\<open>Literal\<close> of \<^verbatim>\<open>rust/src/pushdown.rs\<close> as serde writes them: tagged objects whose tag comes
  first; \<^verbatim>\<open>serde_json\<close> writes a floating-point value that is not finite as \<^verbatim>\<open>null\<close>.
\<close>

definition finite32 :: "32 word \<Rightarrow> bool" where
  "finite32 w \<longleftrightarrow> uint w div 2 ^ 23 mod 2 ^ 8 \<noteq> 255"

definition finite64 :: "64 word \<Rightarrow> bool" where
  "finite64 w \<longleftrightarrow> uint w div 2 ^ 52 mod 2 ^ 11 \<noteq> 2047"

fun encode_value :: "float_env \<Rightarrow> lit_value \<Rightarrow> json" where
  "encode_value env LNil = JNull"
| "encode_value env (LBool b) = JBool b"
| "encode_value env (LInt8 w) = JNum (show_int (sint w))"
| "encode_value env (LInt16 w) = JNum (show_int (sint w))"
| "encode_value env (LInt32 w) = JNum (show_int (sint w))"
| "encode_value env (LInt64 w) = JNum (show_int (sint w))"
| "encode_value env (LUint8 w) = JNum (show_int (uint w))"
| "encode_value env (LUint16 w) = JNum (show_int (uint w))"
| "encode_value env (LUint32 w) = JNum (show_int (uint w))"
| "encode_value env (LUint64 w) = JNum (show_int (uint w))"
| "encode_value env (LFloat32 w) = (if finite32 w then JNum (show_f32 env w) else JNull)"
| "encode_value env (LFloat64 w) = (if finite64 w then JNum (show_f64 env w) else JNull)"
| "encode_value env (LString s) = JStr s"
| "encode_value env (LBytes b) = JStr (b64_encode b)"

definition encode_literal :: "float_env \<Rightarrow> literal \<Rightarrow> json" where
  "encode_literal env l = JObj
     ([(''type'', JStr (lit_type l)), (''value'', encode_value env (lit_value l))] @
      (if lit_type l = ''timestamp''
       then (''unit'', JStr (lit_unit l)) # (if lit_tz l = [] then [] else [(''tz'', JStr (lit_tz l))])
       else []))"

definition encode_column :: "column \<Rightarrow> json" where
  "encode_column c = JObj [(''name'', JStr (col_name c)), (''index'', JNum (show_int (col_index c)))]"

fun encode_expr :: "float_env \<Rightarrow> expr \<Rightarrow> json" where
  "encode_expr env (Compare c op l) = JObj
     [(''kind'', JStr ''compare''), (''column'', encode_column c), (''op'', JStr op), (''literal'', encode_literal env l)]"
| "encode_expr env (IsNull c n) = JObj
     [(''kind'', JStr ''is_null''), (''column'', encode_column c), (''negated'', JBool n)]"
| "encode_expr env (Between c n lo hi) = JObj
     [(''kind'', JStr ''between''), (''column'', encode_column c), (''negated'', JBool n),
      (''low'', encode_literal env lo), (''high'', encode_literal env hi)]"
| "encode_expr env (InList c n ls) = JObj
     [(''kind'', JStr ''in_list''), (''column'', encode_column c), (''negated'', JBool n),
      (''list'', JArr (map (encode_literal env) ls))]"
| "encode_expr env (AndE a b) = JObj
     [(''kind'', JStr ''and''), (''left'', encode_expr env a), (''right'', encode_expr env b)]"
| "encode_expr env (OrE a b) = JObj
     [(''kind'', JStr ''or''), (''left'', encode_expr env a), (''right'', encode_expr env b)]"
| "encode_expr env (NotE a) = JObj [(''kind'', JStr ''not''), (''expr'', encode_expr env a)]"

definition encode_filters :: "float_env \<Rightarrow> expr list \<Rightarrow> json" where
  "encode_filters env es = JArr (map (encode_expr env) es)"

subsection \<open>Round trip\<close>

text \<open>Printing and reading floating-point texts are inverse on finite values.\<close>

definition float_law :: "float_env \<Rightarrow> bool" where
  "float_law env \<longleftrightarrow> (\<forall>w. finite32 w \<longrightarrow> parse_f32 env (show_f32 env w) = Some w) \<and>
     (\<forall>w. finite64 w \<longrightarrow> parse_f64 env (show_f64 env w) = Some w)"

definition finite_value :: "lit_value \<Rightarrow> bool" where
  "finite_value v = (case v of LFloat32 w \<Rightarrow> finite32 w | LFloat64 w \<Rightarrow> finite64 w | _ \<Rightarrow> True)"

definition wf_literal :: "literal \<Rightarrow> bool" where
  "wf_literal l \<longleftrightarrow> literal_typed l \<and> finite_value (lit_value l) \<and>
     (lit_type l \<noteq> ''timestamp'' \<longrightarrow> lit_unit l = [] \<and> lit_tz l = [])"

definition wf_column :: "column \<Rightarrow> bool" where
  "wf_column c \<longleftrightarrow> 0 \<le> col_index c \<and> col_index c < 2 ^ 63"

fun wf_expr :: "expr \<Rightarrow> bool" where
  "wf_expr (Compare c op l) = (wf_column c \<and> op \<in> set compare_ops \<and> wf_literal l)"
| "wf_expr (IsNull c n) = wf_column c"
| "wf_expr (Between c n lo hi) = (wf_column c \<and> wf_literal lo \<and> wf_literal hi)"
| "wf_expr (InList c n ls) = (wf_column c \<and> (\<forall>l \<in> set ls. wf_literal l))"
| "wf_expr (AndE a b) = (wf_expr a \<and> wf_expr b)"
| "wf_expr (OrE a b) = (wf_expr a \<and> wf_expr b)"
| "wf_expr (NotE a) = wf_expr a"

lemma json_int_word:
  "json_int 8 (JNum (show_int (sint (a :: 8 word)))) z = Inr (sint a)"
  "json_int 16 (JNum (show_int (sint (b :: 16 word)))) z = Inr (sint b)"
  "json_int 32 (JNum (show_int (sint (c :: 32 word)))) z = Inr (sint c)"
  "json_int 64 (JNum (show_int (sint (d :: 64 word)))) z = Inr (sint d)"
  using sint_bounds8 [of a] sint_bounds16 [of b] sint_bounds32 [of c] sint64_bounds [of d] by simp_all

lemma json_uint_word:
  "json_uint 8 (JNum (show_int (uint (a :: 8 word)))) z = Inr (uint a)"
  "json_uint 16 (JNum (show_int (uint (b :: 16 word)))) z = Inr (uint b)"
  "json_uint 32 (JNum (show_int (uint (c :: 32 word)))) z = Inr (uint c)"
  "json_uint 64 (JNum (show_int (uint (d :: 64 word)))) z = Inr (uint d)"
  using uint_lt2p [of a] uint_lt2p [of b] uint_lt2p [of c] uint_lt2p [of d] by simp_all

lemma literal_decoder_simps:
  "literal_decoder env ''bool'' = Some (\<lambda>j. rbind (json_bool j False) (\<lambda>b. Inr (LBool b)))"
  "literal_decoder env ''int8'' = Some (signed_value 8 (\<lambda>i. LInt8 (word_of_int i)))"
  "literal_decoder env ''int16'' = Some (signed_value 16 (\<lambda>i. LInt16 (word_of_int i)))"
  "literal_decoder env ''int32'' = Some (signed_value 32 (\<lambda>i. LInt32 (word_of_int i)))"
  "literal_decoder env ''int64'' = Some (signed_value 64 (\<lambda>i. LInt64 (word_of_int i)))"
  "literal_decoder env ''uint8'' = Some (unsigned_value 8 (\<lambda>i. LUint8 (word_of_int i)))"
  "literal_decoder env ''uint16'' = Some (unsigned_value 16 (\<lambda>i. LUint16 (word_of_int i)))"
  "literal_decoder env ''uint32'' = Some (unsigned_value 32 (\<lambda>i. LUint32 (word_of_int i)))"
  "literal_decoder env ''uint64'' = Some (unsigned_value 64 (\<lambda>i. LUint64 (word_of_int i)))"
  "literal_decoder env ''float32'' = Some (\<lambda>j. rbind (json_float (parse_f32 env) j 0) (\<lambda>f. Inr (LFloat32 f)))"
  "literal_decoder env ''float64'' = Some (\<lambda>j. rbind (json_float (parse_f64 env) j 0) (\<lambda>f. Inr (LFloat64 f)))"
  "literal_decoder env ''utf8'' = Some (\<lambda>j. rbind (json_string j []) (\<lambda>s. Inr (LString s)))"
  "literal_decoder env ''binary'' = Some (\<lambda>j. rbind (json_string j []) (\<lambda>s.
     case b64_decode s of None \<Rightarrow> Inl (Plain ''literal: invalid base64'') | Some b \<Rightarrow> Inr (LBytes b)))"
  "literal_decoder env ''date32'' = Some (signed_value 32 (\<lambda>i. LInt32 (word_of_int i)))"
  "literal_decoder env ''date64'' = Some (signed_value 64 (\<lambda>i. LInt64 (word_of_int i)))"
  "literal_decoder env ''timestamp'' = Some (signed_value 64 (\<lambda>i. LInt64 (word_of_int i)))"
  by (simp_all add: literal_decoder_def)

text \<open>A literal's value decodes to itself under each type it can have.\<close>

lemma literal_decoder_encode:
  assumes "float_law env" and "finite_value v" and "t \<in> set (value_types v)"
  shows "\<exists>dec. literal_decoder env t = Some dec \<and> dec (encode_value env v) = Inr v"
proof (cases v)
  case (LInt32 w)
  with assms(3) consider "t = ''int32''" | "t = ''date32''" by auto
  then show ?thesis
    by cases (simp_all add: LInt32 literal_decoder_simps signed_value_def json_int_word del: json_int.simps)
next
  case (LInt64 w)
  with assms(3) consider "t = ''int64''" | "t = ''date64''" | "t = ''timestamp''" by auto
  then show ?thesis
    by cases (simp_all add: LInt64 literal_decoder_simps signed_value_def json_int_word del: json_int.simps)
qed (use assms in \<open>simp_all add: literal_decoder_simps signed_value_def unsigned_value_def json_int_word
      json_uint_word float_law_def finite_value_def del: json_int.simps json_uint.simps\<close>)

text \<open>The field names are their own foldings.\<close>

lemma fold_field_names [simp]:
  "fold_name ''kind'' = ''kind''"
  "fold_name ''column'' = ''column''"
  "fold_name ''op'' = ''op''"
  "fold_name ''literal'' = ''literal''"
  "fold_name ''negated'' = ''negated''"
  "fold_name ''low'' = ''low''"
  "fold_name ''high'' = ''high''"
  "fold_name ''list'' = ''list''"
  "fold_name ''left'' = ''left''"
  "fold_name ''right'' = ''right''"
  "fold_name ''expr'' = ''expr''"
  "fold_name ''type'' = ''type''"
  "fold_name ''value'' = ''value''"
  "fold_name ''unit'' = ''unit''"
  "fold_name ''tz'' = ''tz''"
  "fold_name ''name'' = ''name''"
  "fold_name ''index'' = ''index''"
  by code_simp+

lemma literal_members:
  "json_struct literal_fields (encode_literal env l) \<lparr>rl_type = [], rl_value = None, rl_unit = [], rl_tz = []\<rparr> =
     Inr \<lparr>rl_type = lit_type l, rl_value = Some (encode_value env (lit_value l)),
          rl_unit = (if lit_type l = ''timestamp'' then lit_unit l else []),
          rl_tz = (if lit_type l = ''timestamp'' then lit_tz l else [])\<rparr>"
  by (simp add: encode_literal_def literal_fields_def find_field_def)

lemma unmarshal_encode_literal:
  assumes "float_law env" and "wf_literal l"
  shows "unmarshal_literal env (encode_literal env l) zero_literal = Inr l"
proof -
  from assms obtain dec where "literal_decoder env (lit_type l) = Some dec"
    "dec (encode_value env (lit_value l)) = Inr (lit_value l)"
    using literal_decoder_encode [of env "lit_value l" "lit_type l"] by (auto simp: wf_literal_def literal_typed_def)
  with assms(2) show ?thesis
    by (auto simp: unmarshal_literal_def literal_members set_literal_def wf_literal_def literal_typed_def
        zero_literal_def)
qed

lemma decode_encode_column: "wf_column c \<Longrightarrow> json_struct column_fields (encode_column c) zero_column = Inr c"
  by (simp add: encode_column_def column_fields_def find_field_def wf_column_def zero_column_def)

lemma slice_encode:
  assumes "float_law env" and "\<forall>l \<in> set ls. wf_literal l"
  shows "json_slice (unmarshal_literal env) zero_literal (JArr (map (encode_literal env) ls)) [] = Inr ls"
proof -
  have "traverse (\<lambda>(i, j). unmarshal_literal env j zero_literal) (enumerate n (map (encode_literal env) ls)) = Inr ls" for n
    using assms by (induction ls arbitrary: n) (auto simp: unmarshal_encode_literal)
  then show ?thesis by (simp add: case_prod_beta')
qed

lemma find_kind_field:
  "find_field kind_field ''kind'' = Some (\<lambda>j r. rbind (json_string j (re_kind r)) (\<lambda>s. Inr (r\<lparr>re_kind := s\<rparr>)))"
  "find_field kind_field ''column'' = None" "find_field kind_field ''op'' = None"
  "find_field kind_field ''literal'' = None" "find_field kind_field ''negated'' = None"
  "find_field kind_field ''low'' = None" "find_field kind_field ''high'' = None"
  "find_field kind_field ''list'' = None" "find_field kind_field ''left'' = None"
  "find_field kind_field ''right'' = None" "find_field kind_field ''expr'' = None"
  by (simp_all add: kind_field_def find_field_def)

definition expr_kind :: "expr \<Rightarrow> string" where
  "expr_kind e = (case e of Compare _ _ _ \<Rightarrow> ''compare'' | IsNull _ _ \<Rightarrow> ''is_null'' | Between _ _ _ _ \<Rightarrow> ''between''
      | InList _ _ _ \<Rightarrow> ''in_list'' | AndE _ _ \<Rightarrow> ''and'' | OrE _ _ \<Rightarrow> ''or'' | NotE _ \<Rightarrow> ''not'')"

lemma kind_encoded: "json_struct kind_field (encode_expr env e) zero_raw = Inr (zero_raw\<lparr>re_kind := expr_kind e\<rparr>)"
  by (cases e) (simp_all add: find_kind_field expr_kind_def)

lemma find_compare_field:
  "find_field (compare_fields env) ''kind'' = None"
  "find_field (compare_fields env) ''column'' =
       Some (\<lambda>j r. rbind (json_struct column_fields j (re_column r)) (\<lambda>c. Inr (r\<lparr>re_column := c\<rparr>)))"
  "find_field (compare_fields env) ''op'' = Some (\<lambda>j r. rbind (json_string j (re_op r)) (\<lambda>s. Inr (r\<lparr>re_op := s\<rparr>)))"
  "find_field (compare_fields env) ''literal'' =
       Some (\<lambda>j r. rbind (unmarshal_literal env j (re_literal r)) (\<lambda>l. Inr (r\<lparr>re_literal := l\<rparr>)))"
  by (simp_all add: find_field_def compare_fields_def column_field_def)

lemma compare_encoded:
  assumes "float_law env" "wf_column c" "wf_literal l"
  shows "json_struct (compare_fields env) (encode_expr env (Compare c op l)) zero_raw =
    Inr (zero_raw\<lparr>re_column := c, re_op := op, re_literal := l\<rparr>)"
  using assms by (simp add: find_compare_field decode_encode_column unmarshal_encode_literal zero_raw_def)

lemma between_encoded:
  assumes "float_law env" "wf_column c" "wf_literal lo" "wf_literal hi"
  shows "json_struct (between_fields env) (encode_expr env (Between c n lo hi)) zero_raw =
    Inr (zero_raw\<lparr>re_column := c, re_negated := n, re_low := lo, re_high := hi\<rparr>)"
proof -
  have find: "find_field (between_fields env) ''kind'' = None"
    "find_field (between_fields env) ''column'' =
       Some (\<lambda>j r. rbind (json_struct column_fields j (re_column r)) (\<lambda>c. Inr (r\<lparr>re_column := c\<rparr>)))"
    "find_field (between_fields env) ''negated'' =
       Some (\<lambda>j r. rbind (json_bool j (re_negated r)) (\<lambda>b. Inr (r\<lparr>re_negated := b\<rparr>)))"
    "find_field (between_fields env) ''low'' =
       Some (\<lambda>j r. rbind (unmarshal_literal env j (re_low r)) (\<lambda>l. Inr (r\<lparr>re_low := l\<rparr>)))"
    "find_field (between_fields env) ''high'' =
       Some (\<lambda>j r. rbind (unmarshal_literal env j (re_high r)) (\<lambda>l. Inr (r\<lparr>re_high := l\<rparr>)))"
    by (simp_all add: find_field_def between_fields_def negated_field_def column_field_def)
  show ?thesis using assms by (simp add: find decode_encode_column unmarshal_encode_literal zero_raw_def)
qed

lemma in_list_encoded:
  assumes "float_law env" "wf_column c" "\<forall>l \<in> set ls. wf_literal l"
  shows "json_struct (in_list_fields env) (encode_expr env (InList c n ls)) zero_raw =
    Inr (zero_raw\<lparr>re_column := c, re_negated := n, re_list := ls\<rparr>)"
proof -
  have find: "find_field (in_list_fields env) ''kind'' = None"
    "find_field (in_list_fields env) ''column'' =
       Some (\<lambda>j r. rbind (json_struct column_fields j (re_column r)) (\<lambda>c. Inr (r\<lparr>re_column := c\<rparr>)))"
    "find_field (in_list_fields env) ''negated'' =
       Some (\<lambda>j r. rbind (json_bool j (re_negated r)) (\<lambda>b. Inr (r\<lparr>re_negated := b\<rparr>)))"
    "find_field (in_list_fields env) ''list'' =
       Some (\<lambda>j r. rbind (json_slice (unmarshal_literal env) zero_literal j (re_list r)) (\<lambda>ls. Inr (r\<lparr>re_list := ls\<rparr>)))"
    by (simp_all add: find_field_def in_list_fields_def negated_field_def column_field_def)
  show ?thesis using assms
    by (simp add: find decode_encode_column slice_encode zero_raw_def del: json_slice.simps)
qed

lemma is_null_encoded:
  "wf_column c \<Longrightarrow> json_struct (column_field @ negated_field) (encode_expr env (IsNull c n)) zero_raw =
    Inr (zero_raw\<lparr>re_column := c, re_negated := n\<rparr>)"
  by (simp add: column_field_def negated_field_def find_field_def decode_encode_column zero_raw_def)

lemma operands_encoded:
  "json_struct pair_fields (encode_expr env (AndE a b)) zero_raw =
     Inr (zero_raw\<lparr>re_left := Some (encode_expr env a), re_right := Some (encode_expr env b)\<rparr>)"
  "json_struct pair_fields (encode_expr env (OrE a b)) zero_raw =
     Inr (zero_raw\<lparr>re_left := Some (encode_expr env a), re_right := Some (encode_expr env b)\<rparr>)"
  "json_struct not_fields (encode_expr env (NotE a)) zero_raw = Inr (zero_raw\<lparr>re_expr := Some (encode_expr env a)\<rparr>)"
  by (simp_all add: pair_fields_def not_fields_def find_field_def)

lemma decode_encode_expr:
  "decode_expr env (Some (encode_expr env e)) = Inr e" if "float_law env" "wf_expr e" for e
  using that
proof (induction e)
  case (Compare c op l)
  then show ?case
    by (subst decode_expr.simps)
       (simp add: kind_encoded expr_kind_def compare_encoded del: encode_expr.simps)
next
  case (IsNull c n)
  then show ?case
    by (subst decode_expr.simps) (simp add: kind_encoded expr_kind_def is_null_encoded del: encode_expr.simps)
next
  case (Between c n lo hi)
  then show ?case
    by (subst decode_expr.simps) (simp add: kind_encoded expr_kind_def between_encoded del: encode_expr.simps)
next
  case (InList c n ls)
  then show ?case
    by (subst decode_expr.simps) (simp add: kind_encoded expr_kind_def in_list_encoded del: encode_expr.simps)
next
  case (AndE a b)
  then show ?case
    by (subst decode_expr.simps) (simp add: kind_encoded expr_kind_def operands_encoded del: encode_expr.simps)
next
  case (OrE a b)
  then show ?case
    by (subst decode_expr.simps) (simp add: kind_encoded expr_kind_def operands_encoded del: encode_expr.simps)
next
  case (NotE a)
  then show ?case
    by (subst decode_expr.simps) (simp add: kind_encoded expr_kind_def operands_encoded del: encode_expr.simps)
qed

text \<open>C11: the Go decoder inverts the writer: a document of filters whose floating-point literals are finite decodes to
  exactly the filters that were written, for every kind of expression and type of literal.\<close>

theorem decode_filters_inverts_writer:
  assumes "float_law env" and "\<forall>e \<in> set es. wf_expr e"
  shows "decode_filters env (Some (encode_filters env es)) = Inr es"
proof -
  have raws: "traverse (\<lambda>(i, j). Inr j) (enumerate n js) = (Inr js :: go_error + json list)" for n js
    by (induction js arbitrary: n) auto
  have "traverse (\<lambda>(i, raw). case decode_expr env (Some raw) of
      Inl e \<Rightarrow> Inl (Wrapped (''decoding pushed filter '' @ show_nat i) e) | Inr e \<Rightarrow> Inr e)
      (enumerate n (map (encode_expr env) es)) = Inr es" for n
    using assms by (induction es arbitrary: n) (auto simp: decode_encode_expr)
  then show ?thesis by (simp add: decode_filters_def encode_filters_def raws)
qed

text \<open>A concrete environment whose texts are the bits in decimal.\<close>

definition sample_floats :: float_env where
  "sample_floats =
     \<lparr>parse_f32 = (\<lambda>s. map_option word_of_int (parse_uint s)), parse_f64 = (\<lambda>s. map_option word_of_int (parse_uint s)),
      show_f32 = (\<lambda>w. show_int (uint w)), show_f64 = (\<lambda>w. show_int (uint w))\<rparr>"

lemma sample_floats_law: "float_law sample_floats"
  by (simp add: float_law_def sample_floats_def)

definition sample_filter :: expr where
  "sample_filter = AndE (NotE (IsNull \<lparr>col_name = ''id'', col_index = 0\<rparr> False))
     (Compare \<lparr>col_name = ''id'', col_index = 0\<rparr> ''gteq''
        \<lparr>lit_type = ''int64'', lit_value = LInt64 5, lit_unit = [], lit_tz = []\<rparr>)"

lemma wf_sample_filter: "wf_expr sample_filter"
  by (simp add: sample_filter_def wf_column_def wf_literal_def literal_typed_def finite_value_def compare_ops_def)

theorem decode_filters_inverts_writer_witness:
  "decode_filters sample_floats (Some (encode_filters sample_floats [sample_filter])) = Inr [sample_filter]"
  using decode_filters_inverts_writer [OF sample_floats_law, of "[sample_filter]"] wf_sample_filter by simp

text \<open>Two behaviours of the decoder that its own comment rules out.\<close>

lemma nonfinite_encoded:
  assumes "\<not> finite64 w" and "wf_column c"
  shows "unmarshal_literal env (encode_literal env
      \<lparr>lit_type = ''float64'', lit_value = LFloat64 w, lit_unit = [], lit_tz = []\<rparr>) zero_literal =
    Inr \<lparr>lit_type = ''float64'', lit_value = LFloat64 0, lit_unit = [], lit_tz = []\<rparr>"
  using assms
  by (simp add: unmarshal_literal_def literal_members literal_decoder_simps set_literal_def zero_literal_def)

text \<open>C34: a comparison with a floating-point literal that is not finite decodes without error to a comparison with zero:
  the writer has no text for the value, writes \<^verbatim>\<open>null\<close>, and \<^verbatim>\<open>null\<close> leaves the decoded variable at its zero
  value, so a provider that prunes by the filter drops rows the query selects.\<close>

theorem nonfinite_literal_becomes_zero:
  assumes "\<not> finite64 w" and "wf_column c" and "op \<in> set compare_ops"
  shows "decode_expr env (Some (encode_expr env (Compare c op
      \<lparr>lit_type = ''float64'', lit_value = LFloat64 w, lit_unit = [], lit_tz = []\<rparr>))) =
    Inr (Compare c op \<lparr>lit_type = ''float64'', lit_value = LFloat64 0, lit_unit = [], lit_tz = []\<rparr>)"
proof -
  let ?l = "\<lparr>lit_type = ''float64'', lit_value = LFloat64 w, lit_unit = [], lit_tz = []\<rparr>"
  have "json_struct (compare_fields env) (encode_expr env (Compare c op ?l)) zero_raw =
    Inr (zero_raw\<lparr>re_column := c, re_op := op,
      re_literal := \<lparr>lit_type = ''float64'', lit_value = LFloat64 0, lit_unit = [], lit_tz = []\<rparr>\<rparr>)"
    using assms(1,2)
    by (simp add: find_compare_field decode_encode_column nonfinite_encoded [OF assms(1,2)] zero_raw_def)
  then show ?thesis
    using assms(3)
    by (subst decode_expr.simps) (simp add: kind_encoded expr_kind_def del: encode_expr.simps)
qed

theorem nonfinite_literal_becomes_zero_witness:
  "decode_expr sample_floats (Some (encode_expr sample_floats (Compare \<lparr>col_name = ''x'', col_index = 0\<rparr> ''lt''
      \<lparr>lit_type = ''float64'', lit_value = LFloat64 0x7FF0000000000000, lit_unit = [], lit_tz = []\<rparr>))) =
    Inr (Compare \<lparr>col_name = ''x'', col_index = 0\<rparr> ''lt''
      \<lparr>lit_type = ''float64'', lit_value = LFloat64 0, lit_unit = [], lit_tz = []\<rparr>)"
proof -
  have "\<not> finite64 0x7FF0000000000000" by (simp add: finite64_def)
  moreover have "wf_column \<lparr>col_name = ''x'', col_index = 0\<rparr>" by (simp add: wf_column_def)
  moreover have "''lt'' \<in> set compare_ops" by (simp add: compare_ops_def)
  ultimately show ?thesis by (rule nonfinite_literal_becomes_zero)
qed

text \<open>a comparison whose column and literal are missing decodes without error, to the zero column and a literal
  without a value: a missing member is not a decode failure.\<close>

theorem missing_members_accepted:
  "decode_filters env (Some (JArr [JObj [(''kind'', JStr ''compare''), (''op'', JStr ''eq'')]])) =
     Inr [Compare zero_column ''eq'' zero_literal]"
proof -
  have "decode_expr env (Some (JObj [(''kind'', JStr ''compare''), (''op'', JStr ''eq'')])) =
      Inr (Compare zero_column ''eq'' zero_literal)"
    by (subst decode_expr.simps)
       (simp add: find_kind_field find_compare_field zero_raw_def compare_ops_def)
  then show ?thesis by (simp add: decode_filters_def)
qed

end
