(* ===== verification/Lifecycle.thy ===== *)
theory Lifecycle
  imports GoErrors
begin

text \<open>
  Connectors, connections and prepared statements (\<^verbatim>\<open>datafusion.go\<close>, \<^verbatim>\<open>connection.go\<close>, \<^verbatim>\<open>statement.go\<close>,
  \<^verbatim>\<open>session.go\<close>) over the handles of the native library (\<^verbatim>\<open>internal/native/native.go\<close>).  The state is a
  heap of Go objects, each map from an identity to its fields, and the set of live native handles.  What the native
  library, the context and the user's initialization callback answer are arguments of each operation.
  An operation of the model is one critical section of the code; operations that release their locks in
  between (\<^verbatim>\<open>Connect\<close>, \<^verbatim>\<open>ResetSession\<close>, a query with a temporary statement) are several, with the work in
  between recorded as a task.
\<close>

subsection \<open>Objects\<close>

record connector =
  cn_db :: nat
  cn_has_init :: bool
  cn_shared :: bool
  cn_closed :: bool
  cn_initialized :: bool

record conn =
  co_native :: "nat option"
  co_connector :: nat
  co_owns :: bool
  co_closed :: bool
  co_stmts :: "nat list"

record stmt =
  st_native :: "nat option"
  st_conn :: nat
  st_query :: string
  st_num_input :: int
  st_serializes :: bool
  st_closed :: bool

text \<open>
  Work between two critical sections: a new connection to initialize, a replacement to initialize, a
  replacement to swap in, an old native connection to close, a temporary statement in use.
\<close>

datatype task = TaskInit nat | TaskReset nat nat | TaskSwap nat nat | TaskClose nat | TaskQuery nat

record world =
  w_next :: nat
  w_connectors :: "nat \<Rightarrow> connector option"
  w_conns :: "nat \<Rightarrow> conn option"
  w_stmts :: "nat \<Rightarrow> stmt option"
  w_tasks :: "nat \<Rightarrow> task option"
  w_live :: "nat set"
  w_parent :: "nat \<Rightarrow> nat"
  w_inits :: "nat \<Rightarrow> nat"

text \<open>What a native constructor answers: a handle, an error, or success without a handle.\<close>

datatype native_answer = AnswerOk | AnswerError go_error | AnswerNil

subsection \<open>The native wrappers\<close>

text \<open>A wrapper whose handle has been closed has a nil pointer: it answers with an error and closes as a no-op.\<close>

definition check_no_nul_byte :: "string \<Rightarrow> string \<Rightarrow> go_error option" where
  "check_no_nul_byte value what =
     (if CHR 0x00 \<in> set value then Some (Plain (''datafusion-go '' @ what @ '' contains a NUL byte'')) else None)"

definition native_close :: "nat \<Rightarrow> world \<Rightarrow> world" where
  "native_close n w = w\<lparr>w_live := w_live w - {n}\<rparr>"

definition native_alloc :: "world \<Rightarrow> nat \<times> world" where
  "native_alloc w = (w_next w, w\<lparr>w_next := w_next w + 1, w_live := insert (w_next w) (w_live w)\<rparr>)"

definition database_connect :: "native_answer \<Rightarrow> nat \<Rightarrow> world \<Rightarrow> (go_error + nat) \<times> world" where
  "database_connect ans db w =
     (if db \<notin> w_live w then (Inl (Plain ''datafusion-go database is closed''), w)
      else case ans of
        AnswerError e \<Rightarrow> (Inl e, w)
      | AnswerNil \<Rightarrow> (Inl (Plain ''datafusion-go native connect returned nil connection''), w)
      | AnswerOk \<Rightarrow> (case native_alloc w of (n, w1) \<Rightarrow> (Inr n, w1)))"

definition connection_prepare ::
  "native_answer \<Rightarrow> nat option \<Rightarrow> string \<Rightarrow> world \<Rightarrow> (go_error + nat) \<times> world" where
  "connection_prepare ans nc query w =
     (case nc of
        None \<Rightarrow> (Inl (Plain ''datafusion-go connection is closed''), w)
      | Some n \<Rightarrow>
          if n \<notin> w_live w then (Inl (Plain ''datafusion-go connection is closed''), w)
          else (case check_no_nul_byte query ''query'' of
              Some e \<Rightarrow> (Inl e, w)
            | None \<Rightarrow> (case ans of
                  AnswerError e \<Rightarrow> (Inl e, w)
                | AnswerNil \<Rightarrow> (Inl (Plain ''datafusion-go native prepare returned nil statement''), w)
                | AnswerOk \<Rightarrow> (case native_alloc w of (s, w1) \<Rightarrow>
                    (Inr s, w1\<lparr>w_parent := (w_parent w1)(s := n)\<rparr>)))))"

subsection \<open>Connectors\<close>

definition new_connector :: "bool \<Rightarrow> bool \<Rightarrow> world \<Rightarrow> nat \<times> world" where
  "new_connector shared has_init w =
     (case native_alloc w of (db, w1) \<Rightarrow>
        (w_next w1, w1\<lparr>w_next := w_next w1 + 1, w_connectors := (w_connectors w1)(w_next w1 \<mapsto>
           \<lparr>cn_db = db, cn_has_init = has_init, cn_shared = shared, cn_closed = False, cn_initialized = False\<rparr>)\<rparr>))"

definition connector_close :: "nat \<Rightarrow> world \<Rightarrow> world" where
  "connector_close c w =
     (case w_connectors w c of
        None \<Rightarrow> w
      | Some x \<Rightarrow> if cn_closed x then w
          else native_close (cn_db x) (w\<lparr>w_connectors := (w_connectors w)(c \<mapsto> x\<lparr>cn_closed := True\<rparr>)\<rparr>))"

definition closed_error :: "string \<Rightarrow> go_error" where
  "closed_error what = driver_error ErrorClosed (''datafusion '' @ what @ '' is closed'') None"

definition connect_native ::
  "go_error option \<Rightarrow> native_answer \<Rightarrow> nat \<Rightarrow> world \<Rightarrow> (go_error + nat) \<times> world" where
  "connect_native ctx ans c w =
     (case ctx of
        Some e \<Rightarrow> (Inl e, w)
      | None \<Rightarrow> (case w_connectors w c of
          None \<Rightarrow> (Inl (closed_error ''connector''), w)
        | Some x \<Rightarrow>
            if cn_closed x then (Inl (closed_error ''connector''), w)
            else (case database_connect ans (cn_db x) w of
                (Inl e, w1) \<Rightarrow> (Inl (driver_error ErrorConnect ''could not connect to DataFusion database'' (Some e)), w1)
              | (Inr n, w1) \<Rightarrow> (Inr n, w1))))"

definition new_conn :: "nat \<Rightarrow> nat \<Rightarrow> world \<Rightarrow> nat \<times> world" where
  "new_conn native c w =
     (w_next w, w\<lparr>w_next := w_next w + 1, w_conns := (w_conns w)(w_next w \<mapsto>
        \<lparr>co_native = Some native, co_connector = c, co_owns = False, co_closed = False, co_stmts = []\<rparr>)\<rparr>)"

definition add_task :: "task \<Rightarrow> world \<Rightarrow> world" where
  "add_task t w = w\<lparr>w_next := w_next w + 1, w_tasks := (w_tasks w)(w_next w \<mapsto> t)\<rparr>"

definition end_task :: "nat \<Rightarrow> world \<Rightarrow> world" where
  "end_task i w = w\<lparr>w_tasks := (w_tasks w)(i := None)\<rparr>"

subsection \<open>Connections\<close>

definition close_stmt_native :: "nat \<Rightarrow> world \<Rightarrow> world" where
  "close_stmt_native k w =
     (case w_stmts w k of
        None \<Rightarrow> w
      | Some s \<Rightarrow> (case st_native s of
            None \<Rightarrow> w
          | Some n \<Rightarrow> (native_close n w)\<lparr>w_stmts := (w_stmts w)(k \<mapsto> s\<lparr>st_native := None\<rparr>)\<rparr>))"

definition invalidate_statements :: "nat list \<Rightarrow> world \<Rightarrow> world" where
  "invalidate_statements = fold close_stmt_native"

definition conn_close :: "nat \<Rightarrow> world \<Rightarrow> world" where
  "conn_close k w =
     (case w_conns w k of
        None \<Rightarrow> w
      | Some x \<Rightarrow>
          if co_closed x then w
          else
            let w1 = invalidate_statements (co_stmts x) w;
                w2 = (case co_native x of None \<Rightarrow> w1 | Some n \<Rightarrow> native_close n w1);
                w3 = w2\<lparr>w_conns := (w_conns w2)(k \<mapsto> x\<lparr>co_closed := True, co_native := None\<rparr>)\<rparr>
            in if co_owns x then connector_close (co_connector x) w3 else w3)"

definition conn_check_open :: "nat \<Rightarrow> world \<Rightarrow> go_error option" where
  "conn_check_open k w =
     (case w_conns w k of None \<Rightarrow> Some (closed_error ''connection'')
      | Some x \<Rightarrow> if co_closed x then Some (closed_error ''connection'') else None)"

definition conn_ping :: "go_error option \<Rightarrow> nat \<Rightarrow> world \<Rightarrow> go_error option" where
  "conn_ping ctx k w = (case ctx of Some e \<Rightarrow> Some e | None \<Rightarrow> conn_check_open k w)"

definition conn_begin_tx :: "go_error option \<Rightarrow> nat \<Rightarrow> world \<Rightarrow> go_error" where
  "conn_begin_tx ctx k w =
     (case ctx of
        Some e \<Rightarrow> e
      | None \<Rightarrow> (case conn_check_open k w of
            Some e \<Rightarrow> e
          | None \<Rightarrow> driver_error ErrorUnsupported ''DataFusion transactions are not supported'' None))"

definition conn_is_valid :: "nat \<Rightarrow> world \<Rightarrow> bool" where
  "conn_is_valid k w =
     (case w_conns w k of None \<Rightarrow> False | Some x \<Rightarrow> \<not> co_closed x \<and> co_native x \<noteq> None)"

text \<open>\<^verbatim>\<open>withNative\<close>: the function runs on the native handle, under the connection's lock.\<close>

definition with_native ::
  "nat \<Rightarrow> (nat \<Rightarrow> world \<Rightarrow> (go_error + 'a) \<times> world) \<Rightarrow> world \<Rightarrow> (go_error + 'a) \<times> world" where
  "with_native k f w =
     (case w_conns w k of
        None \<Rightarrow> (Inl (closed_error ''connection''), w)
      | Some x \<Rightarrow>
          if co_closed x then (Inl (closed_error ''connection''), w)
          else (case co_native x of None \<Rightarrow> (Inl (closed_error ''connection''), w) | Some n \<Rightarrow> f n w))"

text \<open>\<^verbatim>\<open>PrepareContext\<close>; the number of parameters and the serialization flag are the native statement's answers.\<close>

definition prepare_context ::
  "go_error option \<Rightarrow> native_answer \<Rightarrow> int \<Rightarrow> bool \<Rightarrow> nat \<Rightarrow> string \<Rightarrow> world \<Rightarrow> (go_error + nat) \<times> world" where
  "prepare_context ctx ans num_input serializes k query w =
     (case ctx of
        Some e \<Rightarrow> (Inl e, w)
      | None \<Rightarrow> (case w_conns w k of
          None \<Rightarrow> (Inl (closed_error ''connection''), w)
        | Some x \<Rightarrow>
            if co_closed x then (Inl (closed_error ''connection''), w)
            else (case connection_prepare ans (co_native x) query w of
                (Inl e, w1) \<Rightarrow> (Inl (driver_error ErrorPrepare ''could not prepare DataFusion statement'' (Some e)), w1)
              | (Inr n, w1) \<Rightarrow>
                  (Inr (w_next w1), w1\<lparr>w_next := w_next w1 + 1,
                     w_stmts := (w_stmts w1)(w_next w1 \<mapsto>
                       \<lparr>st_native = Some n, st_conn = k, st_query = query, st_num_input = num_input,
                        st_serializes = serializes, st_closed = False\<rparr>),
                     w_conns := (w_conns w1)(k \<mapsto> x\<lparr>co_stmts := w_next w1 # co_stmts x\<rparr>)\<rparr>))))"

subsection \<open>Statements\<close>

definition stmt_close :: "nat \<Rightarrow> world \<Rightarrow> world" where
  "stmt_close k w =
     (case w_stmts w k of
        None \<Rightarrow> w
      | Some s \<Rightarrow>
          if st_closed s then w
          else
            let w1 = (case st_native s of None \<Rightarrow> w | Some n \<Rightarrow> native_close n w);
                w2 = w1\<lparr>w_stmts := (w_stmts w1)(k \<mapsto> s\<lparr>st_closed := True, st_native := None\<rparr>)\<rparr>
            in (case w_conns w2 (st_conn s) of
                  None \<Rightarrow> w2
                | Some x \<Rightarrow> w2\<lparr>w_conns := (w_conns w2)(st_conn s \<mapsto> x\<lparr>co_stmts := removeAll k (co_stmts x)\<rparr>)\<rparr>))"

definition stmt_num_input :: "nat \<Rightarrow> world \<Rightarrow> int" where
  "stmt_num_input k w =
     (case w_stmts w k of None \<Rightarrow> - 1 | Some s \<Rightarrow> if st_closed s then - 1 else st_num_input s)"

definition stmt_serializes :: "nat \<Rightarrow> world \<Rightarrow> bool" where
  "stmt_serializes k w = (case w_stmts w k of None \<Rightarrow> False | Some s \<Rightarrow> \<not> st_closed s \<and> st_serializes s)"

text \<open>
  \<^verbatim>\<open>executeArrow\<close> up to the native execution: the native statement to execute, prepared again when a
  session reset has closed it.  The native execution itself runs under the statement's lock.
\<close>

definition stmt_acquire :: "native_answer \<Rightarrow> nat \<Rightarrow> world \<Rightarrow> (go_error + nat) \<times> world" where
  "stmt_acquire ans k w =
     (case w_stmts w k of
        None \<Rightarrow> (Inl (closed_error ''statement''), w)
      | Some s \<Rightarrow> (case w_conns w (st_conn s) of
          None \<Rightarrow> (Inl (closed_error ''statement''), w)
        | Some x \<Rightarrow>
            if st_closed s \<or> co_closed x then (Inl (closed_error ''statement''), w)
            else (case st_native s of
                Some n \<Rightarrow> (Inr n, w)
              | None \<Rightarrow> (case connection_prepare ans (co_native x) (st_query s) w of
                    (Inl e, w1) \<Rightarrow> (Inl (driver_error ErrorPrepare
                       ''could not reprepare DataFusion statement after session reset'' (Some e)), w1)
                  | (Inr n, w1) \<Rightarrow> (Inr n, w1\<lparr>w_stmts := (w_stmts w1)(k \<mapsto> s\<lparr>st_native := Some n\<rparr>)\<rparr>)))))"

text \<open>A direct query: a temporary statement, owned by the operation until it closes it.\<close>

definition query_prepare :: "native_answer \<Rightarrow> nat \<Rightarrow> string \<Rightarrow> world \<Rightarrow> (go_error + nat) \<times> world" where
  "query_prepare ans k query w =
     with_native k (\<lambda>n w.
       case connection_prepare ans (Some n) query w of
         (Inl e, w1) \<Rightarrow> (Inl (driver_error ErrorPrepare ''could not prepare DataFusion statement'' (Some e)), w1)
       | (Inr s, w1) \<Rightarrow> (Inr s, add_task (TaskQuery s) w1)) w"

definition query_finish :: "nat \<Rightarrow> nat \<Rightarrow> world \<Rightarrow> world" where
  "query_finish i s w = native_close s (end_task i w)"

subsection \<open>Connecting\<close>

text \<open>
  \<^verbatim>\<open>initializeShared\<close>: the checks of the context before and after waiting for the lock, the lock's own
  answer, and the callback's.
\<close>

definition initialize_shared ::
  "go_error option \<Rightarrow> go_error option \<Rightarrow> go_error option \<Rightarrow> go_error option \<Rightarrow> nat \<Rightarrow> world \<Rightarrow>
   go_error option \<times> world" where
  "initialize_shared ctx lock ctx2 init c w =
     (case ctx of Some e \<Rightarrow> (Some e, w) | None \<Rightarrow>
     (case lock of Some e \<Rightarrow> (Some e, w) | None \<Rightarrow>
     (case w_connectors w c of None \<Rightarrow> (Some (closed_error ''connector''), w) | Some x \<Rightarrow>
        if cn_initialized x then (None, w)
        else (case ctx2 of Some e \<Rightarrow> (Some e, w) | None \<Rightarrow>
          if cn_closed x then (Some (closed_error ''connector''), w)
          else (case init of Some e \<Rightarrow> (Some e, w) | None \<Rightarrow>
            (None, w\<lparr>w_connectors := (w_connectors w)(c \<mapsto> x\<lparr>cn_initialized := True\<rparr>),
                    w_inits := (w_inits w)(c := w_inits w c + 1)\<rparr>))))))"

definition connector_has_init :: "nat \<Rightarrow> world \<Rightarrow> bool" where
  "connector_has_init c w = (case w_connectors w c of None \<Rightarrow> False | Some x \<Rightarrow> cn_has_init x)"

definition connector_shared :: "nat \<Rightarrow> world \<Rightarrow> bool" where
  "connector_shared c w = (case w_connectors w c of None \<Rightarrow> False | Some x \<Rightarrow> cn_shared x)"

definition connect_begin ::
  "go_error option \<Rightarrow> native_answer \<Rightarrow> nat \<Rightarrow> world \<Rightarrow> (go_error + nat) \<times> world" where
  "connect_begin ctx ans c w =
     (case connect_native ctx ans c w of
        (Inl e, w1) \<Rightarrow> (Inl e, w1)
      | (Inr n, w1) \<Rightarrow> (case new_conn n c w1 of (k, w2) \<Rightarrow>
          (Inr k, if connector_has_init c w2 then add_task (TaskInit k) w2 else w2)))"

definition connect_init ::
  "go_error option \<Rightarrow> go_error option \<Rightarrow> go_error option \<Rightarrow> go_error option \<Rightarrow> nat \<Rightarrow> nat \<Rightarrow> world \<Rightarrow>
   (go_error + nat) \<times> world" where
  "connect_init ctx lock ctx2 init i k w =
     (case w_conns w k of
        None \<Rightarrow> (Inl (closed_error ''connection''), w)
      | Some x \<Rightarrow>
          (let w0 = end_task i w; c = co_connector x in
           case (if connector_shared c w0 then initialize_shared ctx lock ctx2 init c w0 else (init, w0)) of
             (Some e, w1) \<Rightarrow> (Inl e, conn_close k w1)
           | (None, w1) \<Rightarrow> (Inr k, w1)))"

subsection \<open>Resetting a session\<close>

datatype reset_progress = ResetDone "go_error option" | ResetContinue nat nat

definition bad_conn :: go_error where "bad_conn = Sentinel DriverErrBadConn"

definition reset_check :: "go_error option \<Rightarrow> nat \<Rightarrow> world \<Rightarrow> go_error option option" where
  "reset_check ctx k w =
     (case ctx of Some e \<Rightarrow> Some (Some e) | None \<Rightarrow>
      if \<not> conn_is_valid k w then Some (Some bad_conn)
      else (case w_connectors w (co_connector (the (w_conns w k))) of
          None \<Rightarrow> Some (Some bad_conn)
        | Some c \<Rightarrow> if cn_shared c then Some (if cn_closed c then Some bad_conn else None) else None))"

definition reset_connect ::
  "go_error option \<Rightarrow> native_answer \<Rightarrow> nat \<Rightarrow> world \<Rightarrow> reset_progress \<times> world" where
  "reset_connect ctx ans k w =
     (case w_conns w k of
        None \<Rightarrow> (ResetDone (Some bad_conn), w)
      | Some x \<Rightarrow> (case connect_native ctx ans (co_connector x) w of
            (Inl e, w1) \<Rightarrow> (ResetDone (Some (Joined [bad_conn, e])), conn_close k w1)
          | (Inr n, w1) \<Rightarrow> (case new_conn n (co_connector x) w1 of (r, w2) \<Rightarrow>
              (ResetContinue (w_next w2) r,
               add_task (if connector_has_init (co_connector x) w2 then TaskReset k r else TaskSwap k r) w2))))"

definition reset_init :: "go_error option \<Rightarrow> nat \<Rightarrow> nat \<Rightarrow> nat \<Rightarrow> world \<Rightarrow> reset_progress \<times> world" where
  "reset_init init i k r w =
     (case init of
        Some e \<Rightarrow> (ResetDone (Some (Joined [bad_conn, e])), conn_close k (conn_close r (end_task i w)))
      | None \<Rightarrow> (let w1 = end_task i w in (ResetContinue (w_next w1) r, add_task (TaskSwap k r) w1)))"

definition reset_swap :: "nat \<Rightarrow> nat \<Rightarrow> nat \<Rightarrow> world \<Rightarrow> reset_progress \<times> world" where
  "reset_swap i k r w =
     (let w0 = end_task i w in
      case (w_conns w0 k, w_conns w0 r) of
        (Some x, Some y) \<Rightarrow>
          (if co_closed x \<or> co_native x = None then (ResetDone (Some bad_conn), conn_close r w0)
           else
             (let w1 = invalidate_statements (co_stmts x) w0;
                  w2 = w1\<lparr>w_conns := (w_conns w1)(k \<mapsto> x\<lparr>co_native := co_native y\<rparr>, r \<mapsto> y\<lparr>co_native := None\<rparr>)\<rparr>
              in (ResetContinue (w_next w2) (the (co_native x)), add_task (TaskClose (the (co_native x))) w2)))
      | _ \<Rightarrow> (ResetDone (Some bad_conn), w0))"

definition reset_close :: "nat \<Rightarrow> nat \<Rightarrow> world \<Rightarrow> world" where
  "reset_close i old w = native_close old (end_task i w)"

text \<open>\<^verbatim>\<open>ResetSession\<close> without interference: the phases in order.\<close>

definition reset_session ::
  "go_error option \<Rightarrow> go_error option \<Rightarrow> native_answer \<Rightarrow> go_error option \<Rightarrow> nat \<Rightarrow> world \<Rightarrow>
   go_error option \<times> world" where
  "reset_session ctx ctx2 ans init k w =
     (case reset_check ctx k w of
        Some res \<Rightarrow> (res, w)
      | None \<Rightarrow> (case reset_connect ctx2 ans k w of
          (ResetDone e, w1) \<Rightarrow> (e, w1)
        | (ResetContinue i r, w1) \<Rightarrow>
            (case (if connector_has_init (co_connector (the (w_conns w k))) w1
                   then reset_init init i k r w1 else (ResetContinue i r, w1)) of
               (ResetDone e, w2) \<Rightarrow> (e, w2)
             | (ResetContinue j r2, w2) \<Rightarrow>
                 (case reset_swap j k r w2 of
                    (ResetDone e, w3) \<Rightarrow> (e, w3)
                  | (ResetContinue m old, w3) \<Rightarrow> (None, reset_close m old w3)))))"

subsection \<open>Interleaved executions\<close>

text \<open>
  Every critical section of every operation, on any object, with any answer: goroutines
  interleave at this grain.  A task proceeds at any time.
\<close>

inductive step :: "world \<Rightarrow> world \<Rightarrow> bool" where
  new_connector: "step w (snd (new_connector shared has_init w))"
| connector_close: "step w (connector_close c w)"
| connect_begin: "step w (snd (connect_begin ctx ans c w))"
| connect_init: "w_tasks w i = Some (TaskInit k) \<Longrightarrow> step w (snd (connect_init ctx lock ctx2 init i k w))"
| own_connector: "w_conns w k = Some x \<Longrightarrow> step w (w\<lparr>w_conns := (w_conns w)(k \<mapsto> x\<lparr>co_owns := True\<rparr>)\<rparr>)"
| conn_close: "step w (conn_close k w)"
| prepare_context: "step w (snd (prepare_context ctx ans num_input serializes k query w))"
| stmt_close: "step w (stmt_close k w)"
| stmt_acquire: "step w (snd (stmt_acquire ans k w))"
| query_prepare: "step w (snd (query_prepare ans k query w))"
| query_finish: "w_tasks w i = Some (TaskQuery s) \<Longrightarrow> step w (query_finish i s w)"
| reset_connect: "step w (snd (reset_connect ctx ans k w))"
| reset_init: "w_tasks w i = Some (TaskReset k r) \<Longrightarrow> step w (snd (reset_init init i k r w))"
| reset_swap: "w_tasks w i = Some (TaskSwap k r) \<Longrightarrow> step w (snd (reset_swap i k r w))"
| reset_close: "w_tasks w i = Some (TaskClose old) \<Longrightarrow> step w (reset_close i old w)"

definition init_world :: world where
  "init_world = \<lparr>w_next = 0, w_connectors = (\<lambda>_. None), w_conns = (\<lambda>_. None), w_stmts = (\<lambda>_. None),
     w_tasks = (\<lambda>_. None), w_live = {}, w_parent = (\<lambda>_. 0), w_inits = (\<lambda>_. 0)\<rparr>"

inductive reachable :: "world \<Rightarrow> bool" where
  start: "reachable init_world"
| step: "reachable w \<Longrightarrow> step w w1 \<Longrightarrow> reachable w1"

end
