(* ===== verification/Ownership.thy ===== *)
theory Ownership
  imports Lifecycle
begin

text \<open>
  Who closes which native handle: the invariant of every interleaving of the operations of
  \<^verbatim>\<open>Lifecycle\<close> that each live handle has exactly one owner and each owned handle is live.
\<close>

subsection \<open>The ledger of native handles\<close>

datatype owner = OwnDb nat | OwnConn nat | OwnStmt nat | OwnTask nat

fun task_native :: "task \<Rightarrow> nat option" where
  "task_native (TaskClose n) = Some n"
| "task_native (TaskQuery n) = Some n"
| "task_native t = None"

text \<open>The native handle an object is responsible for.\<close>

fun owns :: "world \<Rightarrow> owner \<Rightarrow> nat option" where
  "owns w (OwnDb c) =
     (case w_connectors w c of None \<Rightarrow> None | Some x \<Rightarrow> if cn_closed x then None else Some (cn_db x))"
| "owns w (OwnConn k) = (case w_conns w k of None \<Rightarrow> None | Some x \<Rightarrow> co_native x)"
| "owns w (OwnStmt k) = (case w_stmts w k of None \<Rightarrow> None | Some s \<Rightarrow> st_native s)"
| "owns w (OwnTask i) = (case w_tasks w i of None \<Rightarrow> None | Some t \<Rightarrow> task_native t)"

text \<open>Every live handle has exactly one owner, every owned handle is live.\<close>

definition ledger :: "nat set \<Rightarrow> nat \<Rightarrow> (owner \<Rightarrow> nat option) \<Rightarrow> bool" where
  "ledger live nx own \<longleftrightarrow> (\<forall>n. n \<in> live \<longleftrightarrow> (\<exists>a. own a = Some n)) \<and>
     (\<forall>a b n. own a = Some n \<longrightarrow> own b = Some n \<longrightarrow> a = b) \<and> (\<forall>a n. own a = Some n \<longrightarrow> n < nx)"

lemma ledgerD:
  assumes "ledger live nx own"
  shows "own a = Some n \<Longrightarrow> n \<in> live" "own a = Some n \<Longrightarrow> n < nx" "own a = Some n \<Longrightarrow> own b = Some n \<Longrightarrow> a = b"
    "n \<in> live \<Longrightarrow> \<exists>a. own a = Some n"
  using assms unfolding ledger_def by blast+

lemma ledgerI:
  assumes "\<And>n. n \<in> live \<Longrightarrow> \<exists>a. own a = Some n" and "\<And>a n. own a = Some n \<Longrightarrow> n \<in> live \<and> n < nx"
    and "\<And>a b n. own a = Some n \<Longrightarrow> own b = Some n \<Longrightarrow> a = b"
  shows "ledger live nx own"
  using assms unfolding ledger_def by blast

lemma ledger_alloc:
  assumes l: "ledger live nx own" and a: "own a = None"
  shows "ledger (insert nx live) (Suc nx) (own(a \<mapsto> nx))"
proof (rule ledgerI)
  fix n assume "n \<in> insert nx live"
  then show "\<exists>b. (own(a \<mapsto> nx)) b = Some n"
    using ledgerD(4) [OF l, of n] a by (metis fun_upd_apply insertE option.distinct(1))
next
  fix b n assume "(own(a \<mapsto> nx)) b = Some n"
  then show "n \<in> insert nx live \<and> n < Suc nx" using ledgerD(1,2) [OF l, of b n] by (auto split: if_splits)
next
  fix b c n assume "(own(a \<mapsto> nx)) b = Some n" "(own(a \<mapsto> nx)) c = Some n"
  then show "b = c" using ledgerD(2) [OF l, of b n] ledgerD(2) [OF l, of c n] ledgerD(3) [OF l, of b n c]
    by (auto split: if_splits)
qed

lemma ledger_free:
  assumes l: "ledger live nx own" and a: "own a = Some n"
  shows "ledger (live - {n}) nx (own(a := None))"
proof (rule ledgerI)
  fix m assume "m \<in> live - {n}"
  then obtain b where "own b = Some m" "m \<noteq> n" using ledgerD(4) [OF l, of m] by auto
  then show "\<exists>b. (own(a := None)) b = Some m" using a by (intro exI [of _ b]) auto
next
  fix b m assume "(own(a := None)) b = Some m"
  then show "m \<in> live - {n} \<and> m < nx"
    using ledgerD(1,2) [OF l, of b m] ledgerD(3) [OF l, of b n a] a
    unfolding fun_upd_apply by (cases "b = a"; cases "m = n") simp_all
next
  fix b c m assume "(own(a := None)) b = Some m" "(own(a := None)) c = Some m"
  then show "b = c" using ledgerD(3) [OF l, of b m c]
    unfolding fun_upd_apply by (cases "b = a"; cases "c = a") simp_all
qed

lemma ledger_move:
  assumes l: "ledger live nx own" and a: "own a = Some n" and b: "own b = None"
  shows "ledger live nx (own(a := None, b \<mapsto> n))"
proof (rule ledgerI)
  fix m assume "m \<in> live"
  then obtain c where c: "own c = Some m" using ledgerD(4) [OF l, of m] by auto
  show "\<exists>c. (own(a := None, b \<mapsto> n)) c = Some m"
  proof (cases "c = a")
    case True
    with a c show ?thesis by (intro exI [of _ b]) simp
  next
    case False
    with b c show ?thesis by (intro exI [of _ c]) auto
  qed
next
  fix c m assume "(own(a := None, b \<mapsto> n)) c = Some m"
  then show "m \<in> live \<and> m < nx" using ledgerD(1,2) [OF l, of c m] ledgerD(1,2) [OF l a] by (auto split: if_splits)
next
  fix c d m assume "(own(a := None, b \<mapsto> n)) c = Some m" "(own(a := None, b \<mapsto> n)) d = Some m"
  then show "c = d"
    using ledgerD(3) [OF l, of c m d] ledgerD(3) [OF l, of c n a] ledgerD(3) [OF l, of d n a] a
    unfolding fun_upd_apply by (cases "c = b"; cases "d = b"; cases "c = a"; cases "d = a") simp_all
qed

lemma ledger_next: "ledger live nx own \<Longrightarrow> nx \<le> ny \<Longrightarrow> ledger live ny own"
  unfolding ledger_def by (meson order_less_le_trans)

lemma owns_frame [simp]:
  "owns (w\<lparr>w_next := n\<rparr>) = owns w" "owns (w\<lparr>w_live := l\<rparr>) = owns w" "owns (w\<lparr>w_parent := p\<rparr>) = owns w"
  "owns (w\<lparr>w_inits := q\<rparr>) = owns w"
  by (rule ext, rename_tac a, case_tac a; simp)+

lemma owns_updates [simp]:
  "w_stmts w = ss \<Longrightarrow> owns (w\<lparr>w_stmts := ss(k \<mapsto> s)\<rparr>) = (owns w)(OwnStmt k := st_native s)"
  "w_conns w = xs \<Longrightarrow> owns (w\<lparr>w_conns := xs(k \<mapsto> x)\<rparr>) = (owns w)(OwnConn k := co_native x)"
  "w_connectors w = cs \<Longrightarrow> owns (w\<lparr>w_connectors := cs(c \<mapsto> y)\<rparr>) =
     (owns w)(OwnDb c := if cn_closed y then None else Some (cn_db y))"
  "w_tasks w = ts \<Longrightarrow> owns (w\<lparr>w_tasks := ts(i \<mapsto> t)\<rparr>) = (owns w)(OwnTask i := task_native t)"
  "w_tasks w = ts \<Longrightarrow> owns (w\<lparr>w_tasks := ts(i := None)\<rparr>) = (owns w)(OwnTask i := None)"
  by (rule ext, rename_tac a, case_tac a; simp)+

definition fresh :: "world \<Rightarrow> bool" where
  "fresh w \<longleftrightarrow> (\<forall>k \<ge> w_next w. w_connectors w k = None \<and> w_conns w k = None \<and> w_stmts w k = None \<and> w_tasks w k = None)"

definition owned :: "world \<Rightarrow> bool" where
  "owned w \<longleftrightarrow> ledger (w_live w) (w_next w) (owns w) \<and> fresh w"

lemma freshD:
  assumes "fresh w"
  shows "w_connectors w k = Some c \<Longrightarrow> k < w_next w" "w_conns w k = Some x \<Longrightarrow> k < w_next w"
    "w_stmts w k = Some s \<Longrightarrow> k < w_next w" "w_tasks w k = Some t \<Longrightarrow> k < w_next w"
  using assms unfolding fresh_def by (metis not_less option.distinct(1))+

lemma owned_fresh_owner:
  assumes "owned w" and "w_next w \<le> k"
  shows "owns w (OwnDb k) = None" "owns w (OwnConn k) = None" "owns w (OwnStmt k) = None" "owns w (OwnTask k) = None"
  using assms by (simp_all add: owned_def fresh_def)

lemma owned_same:
  "owned w \<Longrightarrow> owns v = owns w \<Longrightarrow> w_live v = w_live w \<Longrightarrow> w_next w \<le> w_next v \<Longrightarrow> fresh v \<Longrightarrow> owned v"
  unfolding owned_def using ledger_next by metis

lemma owned_new:
  "owned w \<Longrightarrow> owns v = (owns w)(a \<mapsto> w_next w) \<Longrightarrow> owns w a = None \<Longrightarrow>
   w_live v = insert (w_next w) (w_live w) \<Longrightarrow> w_next w < w_next v \<Longrightarrow> fresh v \<Longrightarrow> owned v"
  unfolding owned_def using ledger_next [OF ledger_alloc] by fastforce

lemma owned_drop:
  "owned w \<Longrightarrow> owns v = (owns w)(a := None) \<Longrightarrow> owns w a = Some n \<Longrightarrow>
   w_live v = w_live w - {n} \<Longrightarrow> w_next w \<le> w_next v \<Longrightarrow> fresh v \<Longrightarrow> owned v"
  unfolding owned_def using ledger_next [OF ledger_free] by fastforce

lemma owned_none: "owned w \<Longrightarrow> owns w a = None \<Longrightarrow> (owns w)(a := None) = owns w"
  by (simp add: fun_upd_idem)

subsubsection \<open>Closing\<close>

lemma fresh_upd:
  "fresh w \<Longrightarrow> k < w_next w \<Longrightarrow> fresh (w\<lparr>w_stmts := (w_stmts w)(k := s)\<rparr>)"
  "fresh w \<Longrightarrow> k < w_next w \<Longrightarrow> fresh (w\<lparr>w_conns := (w_conns w)(k := x)\<rparr>)"
  "fresh w \<Longrightarrow> k < w_next w \<Longrightarrow> fresh (w\<lparr>w_connectors := (w_connectors w)(k := c)\<rparr>)"
  "fresh w \<Longrightarrow> fresh (w\<lparr>w_tasks := (w_tasks w)(k := None)\<rparr>)"
  "fresh w \<Longrightarrow> fresh (w\<lparr>w_live := l\<rparr>)"
  by (auto simp: fresh_def)

lemma close_stmt_native_frame [simp]:
  "w_connectors (close_stmt_native k w) = w_connectors w" "w_conns (close_stmt_native k w) = w_conns w"
  "w_tasks (close_stmt_native k w) = w_tasks w" "w_next (close_stmt_native k w) = w_next w"
  "w_parent (close_stmt_native k w) = w_parent w" "w_inits (close_stmt_native k w) = w_inits w"
  by (auto simp: close_stmt_native_def native_close_def split: option.splits)

lemma invalidate_frame [simp]:
  "w_connectors (invalidate_statements ks w) = w_connectors w" "w_conns (invalidate_statements ks w) = w_conns w"
  "w_tasks (invalidate_statements ks w) = w_tasks w" "w_next (invalidate_statements ks w) = w_next w"
  "w_parent (invalidate_statements ks w) = w_parent w" "w_inits (invalidate_statements ks w) = w_inits w"
  by (induction ks arbitrary: w) (simp_all add: invalidate_statements_def)

lemma owned_close_stmt_native: "owned w \<Longrightarrow> owned (close_stmt_native k w)"
proof (cases "w_stmts w k")
  case (Some s)
  assume o: "owned w"
  show ?thesis
  proof (cases "st_native s")
    case None
    with o Some show ?thesis by (simp add: close_stmt_native_def)
  next
    case n: (Some n)
    have k: "k < w_next w" using o Some freshD(3) by (auto simp: owned_def)
    show ?thesis
      by (rule owned_drop [OF o, of _ "OwnStmt k" n])
         (use o Some n k in \<open>auto simp: close_stmt_native_def native_close_def owned_def fresh_def\<close>)
  qed
qed (simp add: close_stmt_native_def)

lemma owned_invalidate: "owned w \<Longrightarrow> owned (invalidate_statements ks w)"
  by (induction ks arbitrary: w) (simp_all add: invalidate_statements_def owned_close_stmt_native)

lemma owned_connector_close: "owned w \<Longrightarrow> owned (connector_close c w)"
proof (cases "w_connectors w c")
  case (Some x)
  assume o: "owned w"
  show ?thesis
  proof (cases "cn_closed x")
    case False
    have k: "c < w_next w" using o Some freshD(1) by (auto simp: owned_def)
    show ?thesis
      by (rule owned_drop [OF o, of _ "OwnDb c" "cn_db x"])
         (use o Some False k in \<open>auto simp: connector_close_def native_close_def owned_def fresh_def\<close>)
  qed (use o Some in \<open>simp add: connector_close_def\<close>)
qed (simp add: connector_close_def)

lemma owned_set_conn:
  assumes o: "owned w" and k: "w_conns w k = Some x" and y: "co_native y = co_native x"
  shows "owned (w\<lparr>w_conns := (w_conns w)(k \<mapsto> y)\<rparr>)"
proof (rule owned_same [OF o])
  have "owns w (OwnConn k) = co_native y" using k y by simp
  then show "owns (w\<lparr>w_conns := (w_conns w)(k \<mapsto> y)\<rparr>) = owns w" by (simp add: fun_upd_idem del: owns.simps)
  show "fresh (w\<lparr>w_conns := (w_conns w)(k \<mapsto> y)\<rparr>)" using o k freshD(2) by (auto simp: owned_def fresh_upd)
qed simp_all

lemma owned_close_conn_native:
  assumes o: "owned w" and k: "w_conns w k = Some x"
  shows "owned ((case co_native x of None \<Rightarrow> w | Some n \<Rightarrow> native_close n w)
    \<lparr>w_conns := (w_conns w)(k \<mapsto> y\<lparr>co_native := None\<rparr>)\<rparr>)"
proof -
  have lt: "k < w_next w" using o k freshD(2) by (auto simp: owned_def)
  show ?thesis
  proof (cases "co_native x")
    case None
    then have "owns w (OwnConn k) = None" using k by simp
    with o lt None show ?thesis
      by (intro owned_same [OF o]) (auto simp: owned_def fresh_def fun_upd_idem)
  next
    case (Some n)
    show ?thesis
      by (rule owned_drop [OF o, of _ "OwnConn k" n])
         (use o k Some lt in \<open>auto simp: native_close_def owned_def fresh_def\<close>)
  qed
qed

lemma conn_close_unfold:
  "conn_close k w = (case w_conns w k of None \<Rightarrow> w | Some x \<Rightarrow>
     if co_closed x then w
     else let w1 = invalidate_statements (co_stmts x) w;
              w3 = (case co_native x of None \<Rightarrow> w1 | Some n \<Rightarrow> native_close n w1)
                 \<lparr>w_conns := (w_conns w1)(k \<mapsto> x\<lparr>co_closed := True, co_native := None\<rparr>)\<rparr>
          in if co_owns x then connector_close (co_connector x) w3 else w3)"
  by (auto simp: conn_close_def native_close_def Let_def split: option.splits)

lemma owned_conn_close: "owned w \<Longrightarrow> owned (conn_close k w)"
proof (cases "w_conns w k")
  case (Some x)
  assume "owned w"
  then have o: "owned (invalidate_statements (co_stmts x) w)" by (rule owned_invalidate)
  have "w_conns (invalidate_statements (co_stmts x) w) k = Some x" using Some by simp
  from owned_close_conn_native [OF o this, of "x\<lparr>co_closed := True\<rparr>"] \<open>owned w\<close> Some show ?thesis
    by (simp add: conn_close_unfold Let_def owned_connector_close)
qed (simp add: conn_close_unfold)

lemma owned_stmt_close: "owned w \<Longrightarrow> owned (stmt_close k w)"
proof (cases "w_stmts w k")
  case (Some s)
  assume o: "owned w"
  have k: "k < w_next w" using o Some freshD(3) by (auto simp: owned_def)
  let ?w1 = "case st_native s of None \<Rightarrow> w | Some n \<Rightarrow> native_close n w"
  let ?w2 = "?w1\<lparr>w_stmts := (w_stmts ?w1)(k \<mapsto> s\<lparr>st_closed := True, st_native := None\<rparr>)\<rparr>"
  have o2: "owned ?w2"
  proof (cases "st_native s")
    case None
    then have "owns w (OwnStmt k) = None" using Some by simp
    with o k None show ?thesis by (intro owned_same [OF o]) (auto simp: owned_def fresh_def fun_upd_idem)
  next
    case n: (Some n)
    show ?thesis
      by (rule owned_drop [OF o, of _ "OwnStmt k" n])
         (use o k Some n in \<open>auto simp: native_close_def owned_def fresh_def\<close>)
  qed
  from owned_set_conn [OF o2] o o2 Some show ?thesis
    by (simp add: stmt_close_def Let_def split: option.split del: owns.simps)
qed (simp add: stmt_close_def)

subsubsection \<open>Creating\<close>

lemma connection_prepare_cases:
  assumes "connection_prepare ans nc query w = (res, w1)"
  shows "(\<exists>e. res = Inl e \<and> w1 = w) \<or>
    (\<exists>n. res = Inr (w_next w) \<and> nc = Some n \<and> n \<in> w_live w \<and> check_no_nul_byte query ''query'' = None \<and>
       w1 = w\<lparr>w_next := w_next w + 1, w_live := insert (w_next w) (w_live w), w_parent := (w_parent w)(w_next w := n)\<rparr>)"
  using assms by (auto simp: connection_prepare_def native_alloc_def split: option.splits if_splits native_answer.splits)

lemma connect_native_cases:
  assumes "connect_native ctx ans c w = (res, w1)"
  shows "(\<exists>e. res = Inl e \<and> w1 = w) \<or>
    (\<exists>x. res = Inr (w_next w) \<and> w_connectors w c = Some x \<and> \<not> cn_closed x \<and>
       w1 = w\<lparr>w_next := w_next w + 1, w_live := insert (w_next w) (w_live w)\<rparr>)"
  using assms by (auto simp: connect_native_def database_connect_def native_alloc_def
      split: option.splits if_splits native_answer.splits)

lemma owned_add_task: "owned w \<Longrightarrow> task_native t = None \<Longrightarrow> owned (add_task t w)"
proof -
  assume o: "owned w" and t: "task_native t = None"
  have n: "owns w (OwnTask (w_next w)) = None" using owned_fresh_owner(4) [OF o] by simp
  show ?thesis
    by (rule owned_same [OF o])
       (use o t n in \<open>auto simp: add_task_def owned_def fresh_def fun_upd_idem simp del: owns.simps\<close>)
qed

lemma owned_end_task: "owned w \<Longrightarrow> w_tasks w i = Some t \<Longrightarrow> task_native t = None \<Longrightarrow> owned (end_task i w)"
proof -
  assume o: "owned w" and i: "w_tasks w i = Some t" "task_native t = None"
  then have "owns w (OwnTask i) = None" by simp
  with o show ?thesis
    by (intro owned_same [OF o]) (auto simp: end_task_def owned_def fresh_def fun_upd_idem simp del: owns.simps)
qed

lemma owned_end_task_close:
  "owned w \<Longrightarrow> w_tasks w i = Some t \<Longrightarrow> task_native t = Some n \<Longrightarrow> owned (native_close n (end_task i w))"
  by (rule owned_drop [of w _ "OwnTask i" n]) (auto simp: native_close_def end_task_def owned_def fresh_def)

lemma owned_new_connector: "owned w \<Longrightarrow> owned (snd (new_connector shared has_init w))"
  by (rule owned_new [of w _ "OwnDb (Suc (w_next w))"])
     (auto simp: new_connector_def native_alloc_def owned_def fresh_def)

text \<open>A native connection just opened gets its Go object.\<close>

lemma owned_connected:
  assumes o: "owned w" and w1: "w1 = w\<lparr>w_next := w_next w + 1, w_live := insert (w_next w) (w_live w)\<rparr>"
  shows "owned (snd (new_conn (w_next w) c w1))"
  by (rule owned_new [OF o, of _ "OwnConn (Suc (w_next w))"])
     (use o in \<open>auto simp: w1 new_conn_def owned_def fresh_def\<close>)

lemma owned_connect_begin: "owned w \<Longrightarrow> owned (snd (connect_begin ctx ans c w))"
proof -
  assume o: "owned w"
  obtain res w1 where r: "connect_native ctx ans c w = (res, w1)" by fastforce
  from connect_native_cases [OF r] show ?thesis
  proof (elim disjE exE conjE)
    fix x assume "res = Inr (w_next w)"
      and w1: "w1 = w\<lparr>w_next := w_next w + 1, w_live := insert (w_next w) (w_live w)\<rparr>"
    moreover obtain k w2 where "new_conn (w_next w) c w1 = (k, w2)" by fastforce
    ultimately show ?thesis
      using r owned_connected [OF o w1, of c] by (simp add: connect_begin_def owned_add_task)
  qed (use o r in \<open>simp add: connect_begin_def\<close>)
qed

lemma owned_initialize_shared:
  assumes o: "owned w"
  shows "owned (snd (initialize_shared ctx lock ctx2 init c w))"
proof (cases "w_connectors w c")
  case (Some x)
  have "owns w (OwnDb c) = (if cn_closed x then None else Some (cn_db x))" using Some by simp
  then have "owned (w\<lparr>w_connectors := (w_connectors w)(c \<mapsto> x\<lparr>cn_initialized := True\<rparr>), w_inits := q\<rparr>)" for q
    using o Some freshD(1) [of w c x]
    by (intro owned_same [OF o]) (auto simp: owned_def fresh_def fun_upd_idem simp del: owns.simps)
  with o Some show ?thesis by (simp add: initialize_shared_def split: option.split)
qed (use o in \<open>simp add: initialize_shared_def split: option.split\<close>)

lemma owned_connect_init:
  assumes o: "owned w" and i: "w_tasks w i = Some (TaskInit k)"
  shows "owned (snd (connect_init ctx lock ctx2 init i k w))"
proof (cases "w_conns w k")
  case (Some x)
  let ?c = "co_connector x" and ?w0 = "end_task i w"
  have o0: "owned ?w0" using owned_end_task [OF o i] by simp
  obtain res w1 where r: "(if connector_shared ?c ?w0 then initialize_shared ctx lock ctx2 init ?c ?w0
      else (init, ?w0)) = (res, w1)" by fastforce
  then have "owned w1"
    using o0 owned_initialize_shared [OF o0, of ctx lock ctx2 init ?c] by (auto split: if_splits)
  with Some r show ?thesis
    by (cases res) (simp_all add: connect_init_def Let_def owned_conn_close)
qed (use o in \<open>simp add: connect_init_def\<close>)

lemma owned_prepare_context: "owned w \<Longrightarrow> owned (snd (prepare_context ctx ans ni se k query w))"
proof (cases "ctx \<noteq> None \<or> w_conns w k = None \<or> co_closed (the (w_conns w k))")
  case False
  assume o: "owned w"
  from False obtain x where x: "ctx = None" "w_conns w k = Some x" "\<not> co_closed x" by auto
  then have k: "k < w_next w" using o freshD(2) by (auto simp: owned_def)
  obtain res w1 where r: "connection_prepare ans (co_native x) query w = (res, w1)" by fastforce
  from connection_prepare_cases [OF r] show ?thesis
  proof (elim disjE exE conjE)
    fix n assume n: "res = Inr (w_next w)"
      "w1 = w\<lparr>w_next := w_next w + 1, w_live := insert (w_next w) (w_live w), w_parent := (w_parent w)(w_next w := n)\<rparr>"
    let ?st = "\<lparr>st_native = Some (w_next w), st_conn = k, st_query = query, st_num_input = ni,
      st_serializes = se, st_closed = False\<rparr>"
    let ?v = "w1\<lparr>w_next := w_next w1 + 1, w_stmts := (w_stmts w1)(w_next w1 \<mapsto> ?st)\<rparr>"
    have v: "owned ?v"
      by (rule owned_new [OF o, of _ "OwnStmt (Suc (w_next w))"])
         (use o n in \<open>auto simp: owned_def fresh_def\<close>)
    have "w_conns ?v k = Some x" using n x by simp
    from owned_set_conn [OF v this, of "x\<lparr>co_stmts := w_next w1 # co_stmts x\<rparr>"] show ?thesis
      using x r n by (simp add: prepare_context_def)
  qed (use o r x in \<open>simp add: prepare_context_def\<close>)
qed (auto simp: prepare_context_def split: option.splits)

lemma owned_stmt_acquire: "owned w \<Longrightarrow> owned (snd (stmt_acquire ans k w))"
proof (cases "w_stmts w k")
  case (Some s)
  assume o: "owned w"
  show ?thesis
  proof (cases "w_conns w (st_conn s) = None \<or> st_closed s \<or> co_closed (the (w_conns w (st_conn s))) \<or> st_native s \<noteq> None")
    case False
    then obtain x where x: "w_conns w (st_conn s) = Some x" "\<not> st_closed s" "\<not> co_closed x" "st_native s = None" by auto
    have k: "k < w_next w" using o Some freshD(3) by (auto simp: owned_def)
    obtain res w1 where r: "connection_prepare ans (co_native x) (st_query s) w = (res, w1)" by fastforce
    from connection_prepare_cases [OF r] show ?thesis
    proof (elim disjE exE conjE)
      fix n assume n: "res = Inr (w_next w)"
        "w1 = w\<lparr>w_next := w_next w + 1, w_live := insert (w_next w) (w_live w), w_parent := (w_parent w)(w_next w := n)\<rparr>"
      have "owned (w1\<lparr>w_stmts := (w_stmts w1)(k \<mapsto> s\<lparr>st_native := Some (w_next w)\<rparr>)\<rparr>)"
        by (rule owned_new [OF o, of _ "OwnStmt k"])
           (use o n k x Some in \<open>auto simp: owned_def fresh_def\<close>)
      with Some x r n show ?thesis by (simp add: stmt_acquire_def)
    qed (use o r x Some in \<open>simp add: stmt_acquire_def\<close>)
  qed (use o Some in \<open>auto simp: stmt_acquire_def split: option.splits\<close>)
qed (simp add: stmt_acquire_def)

lemma owned_query_prepare: "owned w \<Longrightarrow> owned (snd (query_prepare ans k query w))"
proof (cases "w_conns w k = None \<or> co_closed (the (w_conns w k)) \<or> co_native (the (w_conns w k)) = None")
  case False
  assume o: "owned w"
  from False obtain x m where x: "w_conns w k = Some x" "\<not> co_closed x" "co_native x = Some m" by auto
  obtain res w1 where r: "connection_prepare ans (Some m) query w = (res, w1)" by fastforce
  from connection_prepare_cases [OF r] show ?thesis
  proof (elim disjE exE conjE)
    fix n assume n: "res = Inr (w_next w)"
      "w1 = w\<lparr>w_next := w_next w + 1, w_live := insert (w_next w) (w_live w), w_parent := (w_parent w)(w_next w := n)\<rparr>"
    have "owned (add_task (TaskQuery (w_next w)) w1)"
      by (rule owned_new [OF o, of _ "OwnTask (Suc (w_next w))"])
         (use o n in \<open>auto simp: owned_def fresh_def add_task_def\<close>)
    with x r n show ?thesis by (simp add: query_prepare_def with_native_def)
  qed (use o r x in \<open>simp add: query_prepare_def with_native_def\<close>)
qed (auto simp: query_prepare_def with_native_def split: option.splits)

subsubsection \<open>Resetting\<close>

text \<open>A replacement is never the connection it replaces.\<close>

definition tasks_ok :: "world \<Rightarrow> bool" where
  "tasks_ok w \<longleftrightarrow> (\<forall>i k r. w_tasks w i = Some (TaskReset k r) \<or> w_tasks w i = Some (TaskSwap k r) \<longrightarrow> k \<noteq> r)"

lemma owned_reset_connect: "owned w \<Longrightarrow> owned (snd (reset_connect ctx ans k w))"
proof (cases "w_conns w k")
  case (Some x)
  assume o: "owned w"
  obtain res w1 where r: "connect_native ctx ans (co_connector x) w = (res, w1)" by fastforce
  from connect_native_cases [OF r] show ?thesis
  proof (elim disjE exE conjE)
    fix y assume "res = Inr (w_next w)"
      and w1: "w1 = w\<lparr>w_next := w_next w + 1, w_live := insert (w_next w) (w_live w)\<rparr>"
    moreover obtain m w2 where "new_conn (w_next w) (co_connector x) w1 = (m, w2)" by fastforce
    ultimately show ?thesis
      using r Some owned_connected [OF o w1, of "co_connector x"] by (simp add: reset_connect_def owned_add_task)
  qed (use o r Some in \<open>simp add: reset_connect_def owned_conn_close\<close>)
qed (simp add: reset_connect_def)

lemma owned_reset_init:
  "owned w \<Longrightarrow> w_tasks w i = Some (TaskReset k r) \<Longrightarrow> owned (snd (reset_init init i k r w))"
  using owned_end_task [of w i "TaskReset k r"]
  by (auto simp: reset_init_def Let_def owned_conn_close owned_add_task split: option.split)

text \<open>The swap hands the old handle to the task that will close it and the new one to the connection.\<close>

lemma owned_swap:
  assumes o: "owned w" and k: "w_conns w k = Some x" "co_native x = Some old" and r: "w_conns w r = Some y" "k \<noteq> r"
  shows "owned (add_task (TaskClose old)
    (w\<lparr>w_conns := (w_conns w)(k \<mapsto> x\<lparr>co_native := co_native y\<rparr>, r \<mapsto> y\<lparr>co_native := None\<rparr>)\<rparr>))"
proof -
  let ?t = "OwnTask (w_next w)"
  let ?o1 = "(owns w)(OwnConn k := None, ?t \<mapsto> old)"
  have lt: "k < w_next w" "r < w_next w" using o k r freshD(2) by (auto simp: owned_def)
  have l1: "ledger (w_live w) (w_next w) ?o1"
    using o owned_fresh_owner(4) [OF o, of "w_next w"] k by (intro ledger_move) (auto simp: owned_def)
  have l2: "ledger (w_live w) (w_next w) (?o1(OwnConn r := None, OwnConn k := co_native y))"
  proof (cases "co_native y")
    case None
    then have "?o1(OwnConn r := None, OwnConn k := co_native y) = ?o1" using r by (auto simp: fun_eq_iff)
    with l1 show ?thesis by simp
  next
    case (Some m)
    then have a: "?o1 (OwnConn r) = Some m" using r by simp
    have b: "?o1 (OwnConn k) = None" by simp
    from ledger_move [OF l1 a b] show ?thesis by (simp only: Some)
  qed
  have "owns (w\<lparr>w_conns := (w_conns w)(k \<mapsto> x\<lparr>co_native := co_native y\<rparr>, r \<mapsto> y\<lparr>co_native := None\<rparr>)\<rparr>) =
      (owns w)(OwnConn k := co_native y, OwnConn r := None)"
    using r(2) by (intro ext, rename_tac a, case_tac a) auto
  then have "owns (add_task (TaskClose old)
      (w\<lparr>w_conns := (w_conns w)(k \<mapsto> x\<lparr>co_native := co_native y\<rparr>, r \<mapsto> y\<lparr>co_native := None\<rparr>)\<rparr>)) =
    ?o1(OwnConn r := None, OwnConn k := co_native y)"
    using r(2) by (simp add: add_task_def fun_upd_twist)
  with l2 o lt show ?thesis by (auto simp: owned_def add_task_def fresh_def intro: ledger_next)
qed

lemma end_task_frame [simp]:
  "w_conns (end_task i w) = w_conns w" "w_stmts (end_task i w) = w_stmts w"
  "w_connectors (end_task i w) = w_connectors w" "w_next (end_task i w) = w_next w"
  "w_live (end_task i w) = w_live w" "w_parent (end_task i w) = w_parent w" "w_inits (end_task i w) = w_inits w"
  by (simp_all add: end_task_def)

lemma owned_reset_swap:
  assumes o: "owned w" and t: "w_tasks w i = Some (TaskSwap k r)" and ok: "tasks_ok w"
  shows "owned (snd (reset_swap i k r w))"
proof -
  have o0: "owned (end_task i w)" using owned_end_task [OF o t] by simp
  have ne: "k \<noteq> r" using ok t by (auto simp: tasks_ok_def)
  show ?thesis
  proof (cases "w_conns w k = None \<or> w_conns w r = None \<or> co_closed (the (w_conns w k)) \<or> co_native (the (w_conns w k)) = None")
    case True
    with o0 show ?thesis by (auto simp: reset_swap_def Let_def owned_conn_close split: option.split)
  next
    case False
    then obtain x y old where x: "w_conns w k = Some x" "\<not> co_closed x" "co_native x = Some old" and y: "w_conns w r = Some y"
      by auto
    have "owned (invalidate_statements (co_stmts x) (end_task i w))" using o0 by (rule owned_invalidate)
    from owned_swap [OF this, of k x old r y] x y ne show ?thesis by (simp add: reset_swap_def Let_def)
  qed
qed

lemma owned_reset_close: "owned w \<Longrightarrow> w_tasks w i = Some (TaskClose old) \<Longrightarrow> owned (reset_close i old w)"
  using owned_end_task_close [of w i "TaskClose old" old] by (simp add: reset_close_def)

lemma owned_query_finish: "owned w \<Longrightarrow> w_tasks w i = Some (TaskQuery s) \<Longrightarrow> owned (query_finish i s w)"
  using owned_end_task_close [of w i "TaskQuery s" s] by (simp add: query_finish_def)

lemma owned_step: "step w v \<Longrightarrow> tasks_ok w \<Longrightarrow> owned w \<Longrightarrow> owned v"
  by (induction rule: step.induct)
     (simp_all add: owned_new_connector owned_connector_close owned_connect_begin owned_connect_init
       owned_set_conn owned_conn_close owned_prepare_context owned_stmt_close owned_stmt_acquire owned_query_prepare
       owned_query_finish owned_reset_connect owned_reset_init owned_reset_swap owned_reset_close)

subsection \<open>Tasks\<close>

text \<open>Which operations add which tasks.\<close>

lemma conn_close_tasks [simp]: "w_tasks (conn_close k w) = w_tasks w"
  by (auto simp: conn_close_unfold Let_def connector_close_def native_close_def split: option.splits)

lemma connect_native_tasks: "connect_native ctx ans c w = (res, w1) \<Longrightarrow> w_tasks w1 = w_tasks w \<and> w_conns w1 = w_conns w"
  using connect_native_cases by fastforce

lemma connection_prepare_tasks: "connection_prepare ans nc q w = (res, w1) \<Longrightarrow> w_tasks w1 = w_tasks w"
  using connection_prepare_cases by fastforce

lemma tasks_ok_subset: "tasks_ok w \<Longrightarrow> w_tasks v \<subseteq>\<^sub>m w_tasks w \<Longrightarrow> tasks_ok v"
  unfolding tasks_ok_def map_le_def by (metis domI)

lemma tasks_ok_same: "tasks_ok w \<Longrightarrow> w_tasks v = w_tasks w \<Longrightarrow> tasks_ok v"
  by (simp add: tasks_ok_def)

lemma tasks_ok_end [simp]: "tasks_ok w \<Longrightarrow> tasks_ok (end_task i w)"
  by (simp add: tasks_ok_def end_task_def)

lemma tasks_ok_add:
  "tasks_ok w \<Longrightarrow> (\<And>k r. t = TaskReset k r \<or> t = TaskSwap k r \<Longrightarrow> k \<noteq> r) \<Longrightarrow> tasks_ok (add_task t w)"
  by (auto simp: tasks_ok_def add_task_def)

lemma stmt_close_tasks [simp]: "w_tasks (stmt_close k w) = w_tasks w"
  by (auto simp: stmt_close_def Let_def native_close_def split: option.split)

lemma stmt_acquire_tasks [simp]: "w_tasks (snd (stmt_acquire ans k w)) = w_tasks w"
  by (auto simp: stmt_acquire_def split: option.split prod.split sum.split dest: connection_prepare_tasks)

lemma prepare_context_tasks [simp]: "w_tasks (snd (prepare_context ctx ans ni se k q w)) = w_tasks w"
  by (auto simp: prepare_context_def split: option.split prod.split sum.split dest: connection_prepare_tasks)

lemma initialize_shared_tasks [simp]: "w_tasks (snd (initialize_shared ctx lock ctx2 init c w)) = w_tasks w"
  by (auto simp: initialize_shared_def split: option.split)

lemma connector_tasks [simp]:
  "w_tasks (connector_close c w) = w_tasks w" "w_tasks (snd (new_connector sh hi w)) = w_tasks w"
  by (auto simp: connector_close_def native_close_def new_connector_def native_alloc_def split: option.split)

lemma tasks_ok_conn_close: "tasks_ok w \<Longrightarrow> tasks_ok (conn_close k w)"
  by (rule tasks_ok_same) simp_all

lemma query_finish_tasks: "tasks_ok w \<Longrightarrow> tasks_ok (query_finish i s w)"
  by (simp add: query_finish_def native_close_def tasks_ok_same [OF tasks_ok_end])

lemma reset_close_tasks: "tasks_ok w \<Longrightarrow> tasks_ok (reset_close i old w)"
  by (simp add: reset_close_def native_close_def tasks_ok_same [OF tasks_ok_end])

lemma tasks_ok_reset_swap:
  assumes "tasks_ok w"
  shows "tasks_ok (snd (reset_swap i k r w))"
proof (cases "w_conns w k = None \<or> w_conns w r = None \<or> co_closed (the (w_conns w k)) \<or> co_native (the (w_conns w k)) = None")
  case True
  have "tasks_ok (conn_close r (end_task i w))" by (rule tasks_ok_same [OF tasks_ok_end [OF assms]]) simp
  with True assms show ?thesis by (auto simp: reset_swap_def Let_def split: option.split)
next
  case False
  then obtain x y old where x: "w_conns w k = Some x" "\<not> co_closed x" "co_native x = Some old" "w_conns w r = Some y"
    by auto
  let ?w2 = "invalidate_statements (co_stmts x) (end_task i w)
    \<lparr>w_conns := (w_conns w)(k \<mapsto> x\<lparr>co_native := co_native y\<rparr>, r \<mapsto> y\<lparr>co_native := None\<rparr>)\<rparr>"
  have "tasks_ok ?w2" by (rule tasks_ok_same [OF tasks_ok_end [OF assms]]) simp
  then have "tasks_ok (add_task (TaskClose old) ?w2)" by (rule tasks_ok_add) simp
  with x show ?thesis by (simp add: reset_swap_def Let_def)
qed

lemma tasks_ok_step: "step w v \<Longrightarrow> owned w \<Longrightarrow> tasks_ok w \<Longrightarrow> tasks_ok v"
proof (induction rule: step.induct)
  case (connect_begin w ctx ans c)
  obtain res w1 where r: "connect_native ctx ans c w = (res, w1)" by fastforce
  have "tasks_ok w1" using connect_native_tasks [OF r] connect_begin by (auto intro: tasks_ok_same)
  then have t: "tasks_ok (snd (new_conn n c w1))" for n by (auto simp: new_conn_def intro: tasks_ok_same)
  show ?case
  proof (cases res)
    case (Inl e)
    with r \<open>tasks_ok w1\<close> show ?thesis by (simp add: connect_begin_def)
  next
    case (Inr n)
    obtain k w2 where n: "new_conn n c w1 = (k, w2)" by fastforce
    with t [of n] have "tasks_ok w2" by simp
    with r Inr n show ?thesis by (auto simp: connect_begin_def intro!: tasks_ok_add)
  qed
next
  case (connect_init w i k ctx lock ctx2 init)
  show ?case
  proof (cases "w_conns w k")
    case (Some x)
    let ?c = "co_connector x" and ?w0 = "end_task i w"
    obtain res w1 where r: "(if connector_shared ?c ?w0 then initialize_shared ctx lock ctx2 init ?c ?w0
        else (init, ?w0)) = (res, w1)" by fastforce
    then have "w_tasks w1 = w_tasks ?w0"
      by (metis initialize_shared_tasks snd_conv)
    with connect_init have "tasks_ok w1" by (auto intro: tasks_ok_same [OF tasks_ok_end])
    with Some r show ?thesis
      by (cases res) (auto simp: connect_init_def Let_def intro: tasks_ok_same)
  qed (use connect_init in \<open>simp add: connect_init_def\<close>)
next
  case (query_prepare w ans k query)
  have "tasks_ok w1" if "connection_prepare ans nc query w = (res, w1)" for nc res w1
    using that query_prepare connection_prepare_tasks by (auto intro: tasks_ok_same)
  with query_prepare show ?case
    by (auto simp: query_prepare_def with_native_def split: option.split prod.split sum.split intro!: tasks_ok_add)
next
  case (reset_connect w ctx ans k)
  show ?case
  proof (cases "w_conns w k")
    case (Some x)
    obtain res w1 where r: "connect_native ctx ans (co_connector x) w = (res, w1)" by fastforce
    have t: "tasks_ok w1" using connect_native_tasks [OF r] reset_connect by (auto intro: tasks_ok_same)
    have k: "k < w_next w" using reset_connect(1) Some freshD(2) by (auto simp: owned_def)
    show ?thesis
    proof (cases res)
      case (Inl e)
      with r Some t show ?thesis by (auto simp: reset_connect_def intro: tasks_ok_same)
    next
      case (Inr n)
      then have "w_next w \<le> w_next w1" using connect_native_cases [OF r] by auto
      then have ne: "fst (new_conn n (co_connector x) w1) \<noteq> k" using k by (simp add: new_conn_def)
      have "tasks_ok (snd (new_conn n (co_connector x) w1))" using t by (auto simp: new_conn_def intro: tasks_ok_same)
      with r Some Inr ne show ?thesis
        by (auto simp: reset_connect_def split: prod.split intro!: tasks_ok_add)
    qed
  qed (use reset_connect in \<open>simp add: reset_connect_def\<close>)
next
  case (reset_init w i k r init)
  then have "k \<noteq> r" by (auto simp: tasks_ok_def)
  with reset_init show ?case
    by (cases init) (auto simp: reset_init_def Let_def tasks_ok_conn_close intro!: tasks_ok_add)
next
  case (query_finish w i s)
  then show ?case by (simp add: query_finish_tasks)
next
  case (reset_swap w i k r)
  then show ?case by (simp add: tasks_ok_reset_swap)
next
  case (reset_close w i old)
  then show ?case by (simp add: reset_close_tasks)
next
  case (own_connector w k x)
  then show ?case by (simp add: tasks_ok_def)
next
  case (new_connector w shared has_init)
  then show ?case by (simp add: tasks_ok_same [of w])
next
  case (connector_close w c)
  then show ?case by (simp add: tasks_ok_same [of w])
next
  case (conn_close w k)
  then show ?case by (simp add: tasks_ok_same [of w])
next
  case (prepare_context w ctx ans num_input serializes k query)
  then show ?case by (simp add: tasks_ok_same [of w])
next
  case (stmt_close w k)
  then show ?case by (simp add: tasks_ok_same [of w])
next
  case (stmt_acquire w ans k)
  then show ?case by (simp add: tasks_ok_same [of w])
qed

end
