(* ===== verification/Sessions.thy ===== *)
theory Sessions
  imports Ownership
begin

text \<open>
  Which native session a statement runs on, and what the operations of \<^verbatim>\<open>Lifecycle\<close> guarantee of
  whole executions.
\<close>

subsection \<open>Statements belong to the session of their connection\<close>

definition stmt_ok :: "world \<Rightarrow> nat \<Rightarrow> stmt \<Rightarrow> bool" where
  "stmt_ok w k s \<longleftrightarrow>
     (if st_closed s then st_native s = None
      else (\<exists>x. w_conns w (st_conn s) = Some x \<and> k \<in> set (co_stmts x) \<and>
        (\<forall>n. st_native s = Some n \<longrightarrow> \<not> co_closed x \<and> (co_native x = None \<or> co_native x = Some (w_parent w n)))))"

definition stmts_ok :: "world \<Rightarrow> bool" where
  "stmts_ok w \<longleftrightarrow> (\<forall>k s. w_stmts w k = Some s \<longrightarrow> stmt_ok w k s) \<and>
     (\<forall>k x. w_conns w k = Some x \<longrightarrow> co_closed x \<longrightarrow> co_native x = None)"

lemma native_old: "owned w \<Longrightarrow> w_stmts w k = Some s \<Longrightarrow> st_native s = Some n \<Longrightarrow> n < w_next w"
  using ledgerD(2) [of "w_live w" "w_next w" "owns w" "OwnStmt k" n] by (simp add: owned_def)

text \<open>Operations that only add connections and handles.\<close>

lemma stmts_ok_extend:
  assumes ok: "stmts_ok w" and o: "owned w" and st: "w_stmts v = w_stmts w"
    and old: "\<And>j x. w_conns w j = Some x \<Longrightarrow> w_conns v j = Some x"
    and new: "\<And>j x. w_conns v j = Some x \<Longrightarrow> w_conns w j = None \<Longrightarrow> \<not> co_closed x"
    and parent: "\<And>n. n < w_next w \<Longrightarrow> w_parent v n = w_parent w n"
  shows "stmts_ok v"
  unfolding stmts_ok_def
proof (intro conjI allI impI)
  fix k s assume k: "w_stmts v k = Some s"
  then have s: "stmt_ok w k s" using ok st by (simp add: stmts_ok_def)
  have "w_parent v n = w_parent w n" if "st_native s = Some n" for n
    using parent native_old [OF o] k st that by simp
  with s old show "stmt_ok v k s" unfolding stmt_ok_def by (metis (no_types, lifting))
next
  fix k x assume "w_conns v k = Some x" "co_closed x"
  then show "co_native x = None"
    using ok old new unfolding stmts_ok_def by (metis not_None_eq option.inject)
qed

text \<open>Operations that replace one connection object.\<close>

lemma stmts_ok_conn:
  assumes ok: "stmts_ok w" and st: "w_stmts v = w_stmts w" and p: "w_parent v = w_parent w"
    and x: "w_conns w k = Some x"
    and c: "w_conns v = (w_conns w)(k \<mapsto> y)" and closed: "co_closed y \<longrightarrow> co_native y = None"
    and sub: "\<And>j s. w_stmts w j = Some s \<Longrightarrow> st_conn s = k \<Longrightarrow> \<not> st_closed s \<Longrightarrow> j \<in> set (co_stmts x) \<Longrightarrow> j \<in> set (co_stmts y)"
    and own: "(\<forall>j s. w_stmts w j = Some s \<longrightarrow> st_conn s = k \<longrightarrow> st_native s = None) \<or>
      (co_closed y \<longrightarrow> co_closed x) \<and> (co_native y = co_native x \<or> co_native y = None)"
  shows "stmts_ok v"
  unfolding stmts_ok_def
proof (intro conjI allI impI)
  fix j s assume j: "w_stmts v j = Some s"
  then have s: "stmt_ok w j s" using ok st by (simp add: stmts_ok_def)
  show "stmt_ok v j s"
  proof (cases "st_closed s \<or> st_conn s \<noteq> k")
    case True
    with s c p show ?thesis by (auto simp: stmt_ok_def)
  next
    case False
    then have j': "j \<in> set (co_stmts y)" using s j st x sub by (auto simp: stmt_ok_def)
    show ?thesis
    proof (cases "st_native s")
      case None
      with False c j' show ?thesis by (simp add: stmt_ok_def)
    next
      case (Some n)
      then have "\<not> co_closed x" "co_native x = None \<or> co_native x = Some (w_parent w n)"
        using False s x by (auto simp: stmt_ok_def)
      moreover have "(co_closed y \<longrightarrow> co_closed x) \<and> (co_native y = co_native x \<or> co_native y = None)"
        using own Some False j st by auto
      ultimately show ?thesis using False c j' p Some by (auto simp: stmt_ok_def)
    qed
  qed
next
  fix j z assume "w_conns v j = Some z" "co_closed z"
  then show "co_native z = None"
    using ok c closed unfolding stmts_ok_def by (cases "j = k") auto
qed

lemma invalidate_stmts:
  "w_stmts (invalidate_statements ks w) j =
     map_option (\<lambda>s. if j \<in> set ks then s\<lparr>st_native := None\<rparr> else s) (w_stmts w j)"
proof (induction ks arbitrary: w)
  case Nil
  then show ?case by (simp add: invalidate_statements_def option.map_ident)
next
  case (Cons k ks)
  have "w_stmts (close_stmt_native k w) j =
      map_option (\<lambda>s. if j = k then s\<lparr>st_native := None\<rparr> else s) (w_stmts w j)"
    by (cases "w_stmts w j") (auto simp: close_stmt_native_def native_close_def split: option.splits)
  with Cons [of "close_stmt_native k w"] show ?case
    by (cases "w_stmts w j") (auto simp: invalidate_statements_def)
qed

lemma stmts_ok_invalidate:
  assumes "stmts_ok w"
  shows "stmts_ok (invalidate_statements ks w)"
  unfolding stmts_ok_def
proof (intro conjI allI impI)
  fix j s assume "w_stmts (invalidate_statements ks w) j = Some s"
  then obtain s0 where s0: "w_stmts w j = Some s0" "s = (if j \<in> set ks then s0\<lparr>st_native := None\<rparr> else s0)"
    by (auto simp: invalidate_stmts)
  with assms have "stmt_ok w j s0" by (simp add: stmts_ok_def)
  with s0(2) show "stmt_ok (invalidate_statements ks w) j s"
    by (cases "j \<in> set ks"; cases "st_closed s0") (auto simp: stmt_ok_def)
next
  fix k x assume "w_conns (invalidate_statements ks w) k = Some x" "co_closed x"
  with assms show "co_native x = None" by (simp add: stmts_ok_def)
qed

text \<open>After invalidation no statement of the connection holds a native statement.\<close>

lemma invalidated:
  assumes "stmts_ok w" and "w_conns w k = Some x"
    and "w_stmts (invalidate_statements (co_stmts x) w) j = Some s" and "st_conn s = k"
  shows "st_native s = None"
proof -
  from assms(3) obtain s0 where s0: "w_stmts w j = Some s0"
    "s = (if j \<in> set (co_stmts x) then s0\<lparr>st_native := None\<rparr> else s0)" by (auto simp: invalidate_stmts)
  with assms(1) have "stmt_ok w j s0" by (simp add: stmts_ok_def)
  with s0(2) assms(2,4) show ?thesis
    by (cases "j \<in> set (co_stmts x)"; cases "st_closed s0") (auto simp: stmt_ok_def)
qed

lemma stmts_ok_same:
  "stmts_ok w \<Longrightarrow> w_stmts v = w_stmts w \<Longrightarrow> w_conns v = w_conns w \<Longrightarrow> w_parent v = w_parent w \<Longrightarrow> stmts_ok v"
  by (simp add: stmts_ok_def stmt_ok_def)

lemma connector_close_frame [simp]:
  "w_stmts (connector_close c w) = w_stmts w" "w_conns (connector_close c w) = w_conns w"
  "w_parent (connector_close c w) = w_parent w"
  by (auto simp: connector_close_def native_close_def split: option.split)

lemma add_task_frame [simp]:
  "w_stmts (add_task t w) = w_stmts w" "w_conns (add_task t w) = w_conns w" "w_parent (add_task t w) = w_parent w"
  by (simp_all add: add_task_def)

lemma stmts_ok_conn_close:
  assumes "stmts_ok w"
  shows "stmts_ok (conn_close k w)"
proof (cases "w_conns w k")
  case (Some x)
  let ?w1 = "invalidate_statements (co_stmts x) w"
  let ?v = "(case co_native x of None \<Rightarrow> ?w1 | Some n \<Rightarrow> native_close n ?w1)
    \<lparr>w_conns := (w_conns ?w1)(k \<mapsto> x\<lparr>co_closed := True, co_native := None\<rparr>)\<rparr>"
  have "stmts_ok ?v"
    by (rule stmts_ok_conn [OF stmts_ok_invalidate [OF assms, of "co_stmts x"],
          of _ k x "x\<lparr>co_closed := True, co_native := None\<rparr>"])
       (use Some invalidated [OF assms Some] in \<open>auto simp: native_close_def split: option.split\<close>)
  then show ?thesis
    using Some assms by (auto simp: conn_close_unfold Let_def intro: stmts_ok_same)
qed (use assms in \<open>simp add: conn_close_unfold\<close>)

lemma stmts_ok_new_conn:
  assumes "stmts_ok w" and "owned w" and "connect_native ctx ans c w = (Inr n, w1)"
  shows "stmts_ok (snd (new_conn n d w1))"
proof -
  from connect_native_cases [OF assms(3)] have w1: "n = w_next w"
    "w1 = w\<lparr>w_next := w_next w + 1, w_live := insert (w_next w) (w_live w)\<rparr>" by auto
  have f: "w_conns w (Suc (w_next w)) = None" using assms(2) by (simp add: owned_def fresh_def)
  show ?thesis
    by (rule stmts_ok_extend [OF assms(1,2)]) (use f w1 in \<open>auto simp: new_conn_def split: if_splits\<close>)
qed

lemma connect_native_Inl: "connect_native ctx ans c w = (Inl e, w1) \<Longrightarrow> w1 = w"
  using connect_native_cases [of ctx ans c w "Inl e" w1] by auto

lemma connection_prepare_Inl: "connection_prepare ans nc q w = (Inl e, w1) \<Longrightarrow> w1 = w"
  using connection_prepare_cases [of ans nc q w "Inl e" w1] by auto

lemma initialize_shared_frame [simp]:
  "w_stmts (snd (initialize_shared ctx lock ctx2 init c w)) = w_stmts w"
  "w_conns (snd (initialize_shared ctx lock ctx2 init c w)) = w_conns w"
  "w_parent (snd (initialize_shared ctx lock ctx2 init c w)) = w_parent w"
  by (auto simp: initialize_shared_def split: option.split)

lemma stmts_ok_prepared:
  assumes ok: "stmts_ok w" and o: "owned w" and r: "connection_prepare ans nc q w = (res, w1)"
  shows "stmts_ok w1"
  using connection_prepare_cases [OF r]
proof (elim disjE exE conjE)
  fix n assume "w1 = w\<lparr>w_next := w_next w + 1, w_live := insert (w_next w) (w_live w), w_parent := (w_parent w)(w_next w := n)\<rparr>"
  then show ?thesis by (intro stmts_ok_extend [OF ok o]) auto
qed (use ok in simp)

text \<open>A statement gets a handle just prepared on its connection.\<close>

lemma stmts_ok_set_stmt:
  assumes ok: "stmts_ok w" and "w_stmts v = (w_stmts w)(k \<mapsto> s)" "w_conns v = w_conns w" "w_parent v = w_parent w"
    and s: "stmt_ok w k s"
  shows "stmts_ok v"
  using assms by (auto simp: stmts_ok_def stmt_ok_def split: if_splits)

lemma stmts_ok_prepare_context:
  assumes ok: "stmts_ok w" and o: "owned w"
  shows "stmts_ok (snd (prepare_context ctx ans ni se k q w))"
proof (cases "ctx \<noteq> None \<or> w_conns w k = None \<or> co_closed (the (w_conns w k))")
  case False
  then obtain x where x: "ctx = None" "w_conns w k = Some x" "\<not> co_closed x" by auto
  obtain res w1 where r: "connection_prepare ans (co_native x) q w = (res, w1)" by fastforce
  have ok1: "stmts_ok w1" by (rule stmts_ok_prepared [OF ok o r])
  from connection_prepare_cases [OF r] show ?thesis
  proof (elim disjE exE conjE)
    fix n assume n: "res = Inr (w_next w)" "co_native x = Some n"
      "w1 = w\<lparr>w_next := w_next w + 1, w_live := insert (w_next w) (w_live w), w_parent := (w_parent w)(w_next w := n)\<rparr>"
    let ?j = "Suc (w_next w)"
    let ?y = "x\<lparr>co_stmts := ?j # co_stmts x\<rparr>"
    let ?st = "\<lparr>st_native = Some (w_next w), st_conn = k, st_query = q, st_num_input = ni, st_serializes = se,
      st_closed = False\<rparr>"
    let ?w2 = "w1\<lparr>w_conns := (w_conns w1)(k \<mapsto> ?y)\<rparr>"
    have ok2: "stmts_ok ?w2"
      by (rule stmts_ok_conn [OF ok1, of _ k x ?y]) (use x n in auto)
    have "stmt_ok ?w2 ?j ?st" using x n by (auto simp: stmt_ok_def)
    then have "stmts_ok (?w2\<lparr>w_stmts := (w_stmts ?w2)(?j \<mapsto> ?st)\<rparr>)"
      by (intro stmts_ok_set_stmt [OF ok2]) auto
    then show ?thesis using x r n by (auto simp: prepare_context_def elim: stmts_ok_same)
  qed (use ok r x in \<open>simp add: prepare_context_def\<close>)
qed (use ok in \<open>auto simp: prepare_context_def split: option.splits\<close>)

lemma stmts_ok_stmt_acquire:
  assumes ok: "stmts_ok w" and o: "owned w"
  shows "stmts_ok (snd (stmt_acquire ans k w))"
proof (cases "w_stmts w k")
  case (Some s)
  show ?thesis
  proof (cases "w_conns w (st_conn s) = None \<or> st_closed s \<or> co_closed (the (w_conns w (st_conn s))) \<or> st_native s \<noteq> None")
    case False
    then obtain x where x: "w_conns w (st_conn s) = Some x" "\<not> st_closed s" "\<not> co_closed x" "st_native s = None" by auto
    obtain res w1 where r: "connection_prepare ans (co_native x) (st_query s) w = (res, w1)" by fastforce
    have ok1: "stmts_ok w1" by (rule stmts_ok_prepared [OF ok o r])
    from connection_prepare_cases [OF r] show ?thesis
    proof (elim disjE exE conjE)
      fix n assume n: "res = Inr (w_next w)" "co_native x = Some n"
        "w1 = w\<lparr>w_next := w_next w + 1, w_live := insert (w_next w) (w_live w), w_parent := (w_parent w)(w_next w := n)\<rparr>"
      have "stmt_ok w k s" using ok Some by (simp add: stmts_ok_def)
      then have "stmt_ok w1 k (s\<lparr>st_native := Some (w_next w)\<rparr>)" using x n by (simp add: stmt_ok_def)
      then have "stmts_ok (w1\<lparr>w_stmts := (w_stmts w1)(k \<mapsto> s\<lparr>st_native := Some (w_next w)\<rparr>)\<rparr>)"
        by (intro stmts_ok_set_stmt [OF ok1]) auto
      then show ?thesis using x n r Some by (simp add: stmt_acquire_def)
    qed (use ok r x Some in \<open>simp add: stmt_acquire_def\<close>)
  qed (use ok Some in \<open>auto simp: stmt_acquire_def split: option.splits\<close>)
qed (use ok in \<open>simp add: stmt_acquire_def\<close>)

lemma stmts_ok_stmt_close:
  assumes ok: "stmts_ok w"
  shows "stmts_ok (stmt_close k w)"
proof (cases "w_stmts w k")
  case (Some s)
  show ?thesis
  proof (cases "st_closed s")
    case False
    let ?w1 = "case st_native s of None \<Rightarrow> w | Some n \<Rightarrow> native_close n w"
    let ?w2 = "?w1\<lparr>w_stmts := (w_stmts ?w1)(k \<mapsto> s\<lparr>st_closed := True, st_native := None\<rparr>)\<rparr>"
    have f: "w_stmts ?w2 = (w_stmts w)(k \<mapsto> s\<lparr>st_closed := True, st_native := None\<rparr>)"
      "w_conns ?w2 = w_conns w" "w_parent ?w2 = w_parent w"
      by (auto simp: native_close_def split: option.split)
    have ok2: "stmts_ok ?w2"
      by (rule stmts_ok_set_stmt [OF ok f]) (simp add: stmt_ok_def)
    show ?thesis
    proof (cases "w_conns w (st_conn s)")
      case None
      with ok2 f Some False show ?thesis by (simp add: stmt_close_def Let_def)
    next
      case x: (Some x)
      let ?y = "x\<lparr>co_stmts := removeAll k (co_stmts x)\<rparr>"
      have "stmts_ok (?w2\<lparr>w_conns := (w_conns ?w2)(st_conn s \<mapsto> ?y)\<rparr>)"
        by (rule stmts_ok_conn [OF ok2, of _ "st_conn s" x ?y])
           (use x f ok in \<open>auto simp: stmts_ok_def split: if_splits\<close>)
      with f x Some False show ?thesis by (simp add: stmt_close_def Let_def)
    qed
  qed (use ok Some in \<open>simp add: stmt_close_def\<close>)
qed (use ok in \<open>simp add: stmt_close_def\<close>)

lemma stmts_ok_query_prepare:
  assumes ok: "stmts_ok w" and o: "owned w"
  shows "stmts_ok (snd (query_prepare ans k q w))"
proof (cases "w_conns w k = None \<or> co_closed (the (w_conns w k)) \<or> co_native (the (w_conns w k)) = None")
  case False
  then obtain x m where x: "w_conns w k = Some x" "\<not> co_closed x" "co_native x = Some m" by auto
  obtain res w1 where r: "connection_prepare ans (Some m) q w = (res, w1)" by fastforce
  have "stmts_ok w1" by (rule stmts_ok_prepared [OF ok o r])
  then have "stmts_ok (add_task t w1)" for t by (rule stmts_ok_same) simp_all
  with x r \<open>stmts_ok w1\<close> show ?thesis by (cases res) (simp_all add: query_prepare_def with_native_def)
qed (use ok in \<open>auto simp: query_prepare_def with_native_def split: option.splits\<close>)

lemma stmts_ok_end_task: "stmts_ok w \<Longrightarrow> stmts_ok (end_task i w)"
  by (rule stmts_ok_same) simp_all

lemma stmts_ok_native_close: "stmts_ok w \<Longrightarrow> stmts_ok (native_close n w)"
  by (rule stmts_ok_same) (simp_all add: native_close_def)

lemma stmts_ok_add_task: "stmts_ok w \<Longrightarrow> stmts_ok (add_task t w)"
  by (rule stmts_ok_same) simp_all

lemma stmts_ok_connect_begin:
  assumes ok: "stmts_ok w" and o: "owned w"
  shows "stmts_ok (snd (connect_begin ctx ans c w))"
proof -
  obtain res w1 where r: "connect_native ctx ans c w = (res, w1)" by fastforce
  show ?thesis
  proof (cases res)
    case (Inl e)
    with r have "w1 = w" by (simp add: connect_native_Inl)
    with Inl r ok show ?thesis by (simp add: connect_begin_def)
  next
    case (Inr n)
    obtain k w2 where n: "new_conn n c w1 = (k, w2)" by fastforce
    with stmts_ok_new_conn [OF ok o, of ctx ans c n w1 c] r Inr have "stmts_ok w2" by simp
    with r Inr n show ?thesis by (simp add: connect_begin_def stmts_ok_add_task)
  qed
qed

lemma stmts_ok_connect_init:
  assumes ok: "stmts_ok w"
  shows "stmts_ok (snd (connect_init ctx lock ctx2 init i k w))"
proof (cases "w_conns w k")
  case (Some x)
  let ?c = "co_connector x" and ?w0 = "end_task i w"
  obtain res w1 where r: "(if connector_shared ?c ?w0 then initialize_shared ctx lock ctx2 init ?c ?w0
      else (init, ?w0)) = (res, w1)" by fastforce
  have "w_stmts w1 = w_stmts ?w0" "w_conns w1 = w_conns ?w0" "w_parent w1 = w_parent ?w0"
    using r initialize_shared_frame [of ctx lock ctx2 init ?c ?w0] by (metis snd_conv)+
  then have "stmts_ok w1" by (rule stmts_ok_same [OF stmts_ok_end_task [OF ok]])
  with Some r show ?thesis by (cases res) (simp_all add: connect_init_def Let_def stmts_ok_conn_close)
qed (use ok in \<open>simp add: connect_init_def\<close>)

lemma stmts_ok_reset_connect:
  assumes ok: "stmts_ok w" and o: "owned w"
  shows "stmts_ok (snd (reset_connect ctx ans k w))"
proof (cases "w_conns w k")
  case (Some x)
  obtain res w1 where r: "connect_native ctx ans (co_connector x) w = (res, w1)" by fastforce
  show ?thesis
  proof (cases res)
    case (Inl e)
    with r have "w1 = w" by (simp add: connect_native_Inl)
    with Some Inl r ok show ?thesis by (simp add: reset_connect_def stmts_ok_conn_close)
  next
    case (Inr n)
    obtain m w2 where n: "new_conn n (co_connector x) w1 = (m, w2)" by fastforce
    with stmts_ok_new_conn [OF ok o r [unfolded Inr], of "co_connector x"] have "stmts_ok w2" by simp
    with r Inr n Some show ?thesis by (simp add: reset_connect_def stmts_ok_add_task)
  qed
qed (use ok in \<open>simp add: reset_connect_def\<close>)

lemma stmts_ok_reset_init: "stmts_ok w \<Longrightarrow> stmts_ok (snd (reset_init init i k r w))"
  by (cases init) (simp_all add: reset_init_def Let_def stmts_ok_conn_close stmts_ok_end_task stmts_ok_add_task)

lemma stmts_ok_reset_swap:
  assumes ok: "stmts_ok w" and ne: "k \<noteq> r"
  shows "stmts_ok (snd (reset_swap i k r w))"
proof (cases "w_conns w k = None \<or> w_conns w r = None \<or> co_closed (the (w_conns w k)) \<or> co_native (the (w_conns w k)) = None")
  case True
  with stmts_ok_conn_close [OF stmts_ok_end_task [OF ok]] stmts_ok_end_task [OF ok] show ?thesis
    by (auto simp: reset_swap_def Let_def split: option.split)
next
  case False
  then obtain x y old where x: "w_conns w k = Some x" "\<not> co_closed x" "co_native x = Some old" and y: "w_conns w r = Some y"
    by auto
  let ?w0 = "end_task i w"
  let ?w1 = "invalidate_statements (co_stmts x) ?w0"
  let ?w2 = "?w1\<lparr>w_conns := (w_conns ?w1)(k \<mapsto> x\<lparr>co_native := co_native y\<rparr>)\<rparr>"
  let ?w3 = "?w2\<lparr>w_conns := (w_conns ?w2)(r \<mapsto> y\<lparr>co_native := None\<rparr>)\<rparr>"
  have ok0: "stmts_ok ?w0" using ok by (rule stmts_ok_end_task)
  have ok1: "stmts_ok ?w1" using ok0 by (rule stmts_ok_invalidate)
  have i: "\<forall>j s. w_stmts ?w1 j = Some s \<longrightarrow> st_conn s = k \<longrightarrow> st_native s = None"
    using invalidated [OF ok0, of k x] x by simp
  have ok2: "stmts_ok ?w2"
    by (rule stmts_ok_conn [OF ok1, of _ k x "x\<lparr>co_native := co_native y\<rparr>"]) (use x i in auto)
  have ok3: "stmts_ok ?w3"
    by (rule stmts_ok_conn [OF ok2, of _ r y "y\<lparr>co_native := None\<rparr>"]) (use x y ne in auto)
  then show ?thesis using x y by (simp add: reset_swap_def Let_def stmts_ok_add_task)
qed

lemma stmts_ok_own_connector:
  assumes "stmts_ok w" and "w_conns w k = Some x"
  shows "stmts_ok (w\<lparr>w_conns := (w_conns w)(k \<mapsto> x\<lparr>co_owns := True\<rparr>)\<rparr>)"
  by (rule stmts_ok_conn [OF assms(1), of _ k x "x\<lparr>co_owns := True\<rparr>"])
     (use assms in \<open>auto simp: stmts_ok_def\<close>)

lemma stmts_ok_step:
  "step w v \<Longrightarrow> owned w \<Longrightarrow> tasks_ok w \<Longrightarrow> stmts_ok w \<Longrightarrow> stmts_ok v"
proof (induction rule: step.induct)
  case (new_connector w shared has_init)
  from new_connector(3) show ?case
    by (rule stmts_ok_same) (simp_all add: new_connector_def native_alloc_def)
next
  case (connector_close w c)
  from connector_close(3) show ?case by (rule stmts_ok_same) simp_all
next
  case (reset_swap w i k r)
  then have "k \<noteq> r" by (auto simp: tasks_ok_def)
  with reset_swap show ?case by (simp add: stmts_ok_reset_swap)
qed (simp_all add: stmts_ok_connect_begin stmts_ok_connect_init stmts_ok_own_connector stmts_ok_conn_close
    stmts_ok_prepare_context stmts_ok_stmt_close stmts_ok_stmt_acquire stmts_ok_query_prepare query_finish_def
    reset_close_def stmts_ok_native_close stmts_ok_end_task stmts_ok_reset_connect stmts_ok_reset_init)

subsection \<open>Every execution\<close>

lemma reachable_inv: "reachable w \<Longrightarrow> owned w \<and> tasks_ok w \<and> stmts_ok w"
proof (induction rule: reachable.induct)
  case start
  have "owns init_world a = None" for a by (cases a) (simp_all add: init_world_def)
  then show ?case
    by (auto simp: owned_def ledger_def fresh_def tasks_ok_def stmts_ok_def) (simp_all add: init_world_def)
next
  case (step w v)
  then show ?case using owned_step tasks_ok_step stmts_ok_step by blast
qed

lemmas reachable_owned = reachable_inv [THEN conjunct1]
lemmas reachable_tasks = reachable_inv [THEN conjunct2, THEN conjunct1]
lemmas reachable_stmts = reachable_inv [THEN conjunct2, THEN conjunct2]

subsubsection \<open>Shared initialization\<close>

definition inits_ok :: "world \<Rightarrow> bool" where
  "inits_ok w \<longleftrightarrow> (\<forall>c. w_inits w c = (case w_connectors w c of None \<Rightarrow> 0 | Some x \<Rightarrow> of_bool (cn_initialized x)))"

lemma inits_ok_same: "inits_ok w \<Longrightarrow> w_inits v = w_inits w \<Longrightarrow> w_connectors v = w_connectors w \<Longrightarrow> inits_ok v"
  by (simp add: inits_ok_def)

lemma inits_ok_connector_close: "inits_ok w \<Longrightarrow> inits_ok (connector_close c w)"
  by (auto simp: inits_ok_def connector_close_def native_close_def split: option.splits)

lemma inits_ok_conn_close: "inits_ok w \<Longrightarrow> inits_ok (conn_close k w)"
proof (cases "w_conns w k")
  case (Some x)
  assume ok: "inits_ok w"
  let ?w1 = "invalidate_statements (co_stmts x) w"
  have "inits_ok ((case co_native x of None \<Rightarrow> ?w1 | Some n \<Rightarrow> native_close n ?w1)
      \<lparr>w_conns := (w_conns ?w1)(k \<mapsto> x\<lparr>co_closed := True, co_native := None\<rparr>)\<rparr>)"
    by (rule inits_ok_same [OF ok]) (auto simp: native_close_def split: option.split)
  with Some ok show ?thesis by (auto simp: conn_close_unfold Let_def inits_ok_connector_close)
qed (simp add: conn_close_unfold)

lemma inits_ok_initialize_shared: "inits_ok w \<Longrightarrow> inits_ok (snd (initialize_shared ctx lock ctx2 init c w))"
  by (auto simp: initialize_shared_def inits_ok_def split: option.splits)

lemma inits_ok_step: "step w v \<Longrightarrow> owned w \<Longrightarrow> inits_ok w \<Longrightarrow> inits_ok v"
proof (induction rule: step.induct)
  case (new_connector w shared has_init)
  then show ?case
    by (auto simp: new_connector_def native_alloc_def inits_ok_def owned_def fresh_def)
next
  case (connect_begin w ctx ans c)
  obtain res w1 where r: "connect_native ctx ans c w = (res, w1)" by fastforce
  with connect_native_cases [OF r] connect_begin show ?case
    by (auto simp: connect_begin_def new_conn_def add_task_def elim: inits_ok_same)
next
  case (connect_init w i k ctx lock ctx2 init)
  show ?case
  proof (cases "w_conns w k")
    case (Some x)
    let ?c = "co_connector x" and ?w0 = "end_task i w"
    obtain res w1 where r: "(if connector_shared ?c ?w0 then initialize_shared ctx lock ctx2 init ?c ?w0
        else (init, ?w0)) = (res, w1)" by fastforce
    have "inits_ok ?w0" using connect_init by (auto elim: inits_ok_same)
    with inits_ok_initialize_shared [OF this, of ctx lock ctx2 init ?c] r have "inits_ok w1"
      by (metis snd_conv)
    with Some r show ?thesis by (cases res) (simp_all add: connect_init_def Let_def inits_ok_conn_close)
  qed (use connect_init in \<open>simp add: connect_init_def\<close>)
next
  case (prepare_context w ctx ans num_input serializes k query)
  then show ?case
    by (auto simp: prepare_context_def elim!: inits_ok_same dest!: connection_prepare_cases
        split: option.splits prod.split sum.split)
next
  case (stmt_close w k)
  then show ?case
    by (auto simp: stmt_close_def Let_def native_close_def elim: inits_ok_same split: option.split)
next
  case (stmt_acquire w ans k)
  then show ?case
    by (auto simp: stmt_acquire_def elim!: inits_ok_same dest!: connection_prepare_cases
        split: option.splits prod.split sum.split)
next
  case (query_prepare w ans k query)
  then show ?case
    by (auto simp: query_prepare_def with_native_def add_task_def elim!: inits_ok_same dest!: connection_prepare_cases
        split: option.splits prod.split sum.split)
next
  case (reset_connect w ctx ans k)
  show ?case
  proof (cases "w_conns w k")
    case (Some x)
    obtain res w1 where r: "connect_native ctx ans (co_connector x) w = (res, w1)" by fastforce
    with connect_native_cases [OF r] reset_connect Some show ?thesis
      by (auto simp: reset_connect_def new_conn_def add_task_def inits_ok_conn_close elim: inits_ok_same)
  qed (use reset_connect in \<open>simp add: reset_connect_def\<close>)
next
  case (reset_init w i k r init)
  then have "inits_ok (end_task i w)" by (auto elim: inits_ok_same)
  then show ?case
    by (cases init) (auto simp: reset_init_def Let_def inits_ok_conn_close add_task_def elim: inits_ok_same)
next
  case (reset_swap w i k r)
  then have "inits_ok (end_task i w)" by (auto elim: inits_ok_same)
  then show ?case
    by (auto simp: reset_swap_def Let_def inits_ok_conn_close add_task_def elim: inits_ok_same split: option.split)
qed (auto simp: inits_ok_connector_close inits_ok_conn_close query_finish_def reset_close_def native_close_def
    elim: inits_ok_same)

lemma reachable_inits: "reachable w \<Longrightarrow> inits_ok w"
proof (induction rule: reachable.induct)
  case start
  then show ?case by (simp add: inits_ok_def init_world_def)
next
  case (step w v)
  then show ?case using inits_ok_step reachable_owned by blast
qed

subsubsection \<open>What closing achieves\<close>

lemma conn_close_closed: "w_conns w k = Some x \<Longrightarrow> \<not> conn_is_valid k (conn_close k w)"
  by (auto simp: conn_is_valid_def conn_close_unfold Let_def)

lemma native_close_live: "w_live (native_close n w) = w_live w - {n}"
  by (simp add: native_close_def)

lemma close_stmt_live: "w_live (close_stmt_native k w) \<subseteq> w_live w"
  by (auto simp: close_stmt_native_def native_close_live split: option.split)

lemma invalidate_live: "w_live (invalidate_statements ks w) \<subseteq> w_live w"
proof (induction ks arbitrary: w)
  case (Cons k ks)
  from Cons [of "close_stmt_native k w"] close_stmt_live show ?case
    by (fastforce simp: invalidate_statements_def)
qed (simp add: invalidate_statements_def)

lemma connector_close_live: "w_live (connector_close c w) \<subseteq> w_live w"
  by (auto simp: connector_close_def native_close_live split: option.split)

lemma conn_close_live: "w_live (conn_close k w) \<subseteq> w_live w"
proof (cases "w_conns w k")
  case (Some x)
  let ?w1 = "invalidate_statements (co_stmts x) w"
  let ?w3 = "(case co_native x of None \<Rightarrow> ?w1 | Some n \<Rightarrow> native_close n ?w1)
    \<lparr>w_conns := (w_conns ?w1)(k \<mapsto> x\<lparr>co_closed := True, co_native := None\<rparr>)\<rparr>"
  have "w_live ?w3 \<subseteq> w_live w"
    using invalidate_live [of "co_stmts x" w] by (auto simp: native_close_live split: option.split)
  then have "w_live (connector_close (co_connector x) ?w3) \<subseteq> w_live w"
    using connector_close_live by blast
  with \<open>w_live ?w3 \<subseteq> w_live w\<close> Some show ?thesis by (simp add: conn_close_unfold Let_def)
qed (simp add: conn_close_unfold)

lemma conn_close_frees:
  assumes "w_conns w k = Some x" "\<not> co_closed x" "co_native x = Some n"
  shows "n \<notin> w_live (conn_close k w)"
proof -
  let ?w1 = "invalidate_statements (co_stmts x) w"
  let ?w3 = "(native_close n ?w1)\<lparr>w_conns := (w_conns ?w1)(k \<mapsto> x\<lparr>co_closed := True, co_native := None\<rparr>)\<rparr>"
  have "n \<notin> w_live ?w3" by (simp add: native_close_live)
  with connector_close_live [of "co_connector x" ?w3] assms show ?thesis
    by (auto simp: conn_close_unfold Let_def)
qed

lemma conn_close_frame:
  assumes "j \<noteq> k"
  shows "w_conns (conn_close k w) j = w_conns w j"
  using assms by (simp add: conn_close_unfold Let_def split: option.split)

subsubsection \<open>A reset without interference\<close>

text \<open>The connection after a successful connect, and after the initialization of the replacement.\<close>

lemma reset_connect_ok:
  assumes x: "w_conns w k = Some x" and o: "owned w"
    and r: "reset_connect ctx ans k w = (ResetContinue i r, w1)"
  shows "r = Suc (w_next w)" "w_conns w1 k = Some x" "w_stmts w1 = w_stmts w" "w_connectors w1 = w_connectors w"
    "\<exists>y. w_conns w1 r = Some y \<and> co_native y = Some (w_next w)" "k \<noteq> r" "i < w_next w1"
    "w_tasks w1 i = Some (if connector_has_init (co_connector x) w1 then TaskReset k r else TaskSwap k r)"
proof -
  obtain res w0 where c: "connect_native ctx ans (co_connector x) w = (res, w0)" by fastforce
  with r x have "\<And>e. res \<noteq> Inl e" by (auto simp: reset_connect_def)
  with connect_native_cases [OF c] have w0: "res = Inr (w_next w)"
    "w0 = w\<lparr>w_next := w_next w + 1, w_live := insert (w_next w) (w_live w)\<rparr>" by auto
  have k: "k < w_next w" using x o freshD(2) by (auto simp: owned_def)
  from r x c w0 k show "r = Suc (w_next w)" "w_conns w1 k = Some x" "w_stmts w1 = w_stmts w"
    "w_connectors w1 = w_connectors w" "\<exists>y. w_conns w1 r = Some y \<and> co_native y = Some (w_next w)" "k \<noteq> r"
    "i < w_next w1"
    "w_tasks w1 i = Some (if connector_has_init (co_connector x) w1 then TaskReset k r else TaskSwap k r)"
    by (auto simp: reset_connect_def new_conn_def add_task_def connector_has_init_def)
qed

lemma reset_connect_failed:
  assumes x: "w_conns w k = Some x" and r: "reset_connect ctx ans k w = (ResetDone e, w1)"
  shows "\<exists>err. e = Some (Joined [bad_conn, err]) \<and> w1 = conn_close k w"
proof -
  obtain res w0 where c: "connect_native ctx ans (co_connector x) w = (res, w0)" by fastforce
  with r x obtain err where "res = Inl err" "e = Some (Joined [bad_conn, err])" "w1 = conn_close k w0"
    by (auto simp: reset_connect_def new_conn_def split: sum.splits)
  with c connect_native_Inl show ?thesis by blast
qed

text \<open>The state in which the swap runs, whatever ran before.\<close>

definition swap_ready :: "nat \<Rightarrow> nat \<Rightarrow> nat \<Rightarrow> nat \<Rightarrow> conn \<Rightarrow> world \<Rightarrow> bool" where
  "swap_ready i n k r x w \<longleftrightarrow> owned w \<and> tasks_ok w \<and> stmts_ok w \<and> w_tasks w i = Some (TaskSwap k r) \<and>
     w_conns w k = Some x \<and> (\<exists>y. w_conns w r = Some y \<and> co_native y = Some n)"

lemma reset_swap_ok:
  assumes s: "swap_ready i n k r x w" and x: "\<not> co_closed x" "co_native x = Some old"
    and w1: "reset_swap i k r w = (res, w1)"
  shows "\<exists>m. res = ResetContinue m old \<and>
    (let v = reset_close m old w1 in
      w_conns v k = Some (x\<lparr>co_native := Some n\<rparr>) \<and> old \<notin> w_live v \<and> n \<in> w_live v \<and>
      w_stmts v = w_stmts (invalidate_statements (co_stmts x) w))"
proof -
  from s obtain y where y: "w_conns w r = Some y" "co_native y = Some n" "w_conns w k = Some x"
    "w_tasks w i = Some (TaskSwap k r)" "owned w" "tasks_ok w" "stmts_ok w" by (auto simp: swap_ready_def)
  then have ne: "k \<noteq> r" by (auto simp: tasks_ok_def)
  let ?w2 = "(invalidate_statements (co_stmts x) (end_task i w))
    \<lparr>w_conns := (w_conns w)(k \<mapsto> x\<lparr>co_native := Some n\<rparr>, r \<mapsto> y\<lparr>co_native := None\<rparr>)\<rparr>"
  have r: "res = ResetContinue (w_next ?w2) old" "w1 = add_task (TaskClose old) ?w2"
    using w1 x y ne by (auto simp: reset_swap_def Let_def)
  have o1: "owned w1" using owned_reset_swap [OF y(5,4,6)] w1 by simp
  have t1: "w_tasks w1 (w_next ?w2) = Some (TaskClose old)" by (simp add: r add_task_def)
  let ?v = "reset_close (w_next ?w2) old w1"
  have o2: "owned ?v" by (rule owned_reset_close [OF o1 t1])
  have c: "w_conns ?v k = Some (x\<lparr>co_native := Some n\<rparr>)" using ne by (simp add: reset_close_def native_close_def r)
  then have "owns ?v (OwnConn k) = Some n" by simp
  moreover have "ledger (w_live ?v) (w_next ?v) (owns ?v)" using o2 by (simp add: owned_def)
  ultimately have "n \<in> w_live ?v" by (rule ledgerD(1) [rotated])
  moreover have "old \<notin> w_live ?v" by (simp add: reset_close_def native_close_live)
  moreover have "w_stmts ?v = w_stmts (invalidate_statements (co_stmts x) w)"
    by (rule ext) (simp add: reset_close_def native_close_def r invalidate_stmts)
  ultimately show ?thesis using c r by (auto simp: Let_def)
qed

lemma reset_init_ok:
  "reset_init None i k r w = (ResetContinue j r2, w1) \<Longrightarrow> r2 = r \<and> w_conns w1 = w_conns w \<and> w_stmts w1 = w_stmts w \<and>
     w_tasks w1 j = Some (TaskSwap k r)"
  by (auto simp: reset_init_def Let_def add_task_def)

lemma reset_connect_step: "step w (snd (reset_connect ctx ans k w))" by (rule step.reset_connect)

text \<open>After connect and initialization, the replacement is ready to be swapped in.\<close>

lemma reset_ready:
  assumes w: "reachable w" and x: "w_conns w k = Some x"
    and c: "reset_connect ctx2 ans k w = (ResetContinue i r, w1)"
    and n: "(if connector_has_init (co_connector x) w1 then reset_init None i k r w1 else (ResetContinue i r, w1)) =
      (ResetContinue j r2, w2)"
  shows "swap_ready j (w_next w) k r x w2 \<and> w_stmts w2 = w_stmts w"
proof -
  note ok = reset_connect_ok [OF x reachable_owned [OF w] c]
  have r1: "reachable w1" using reachable.step [OF w step.reset_connect, of ctx2 ans k] c by simp
  show ?thesis
  proof (cases "connector_has_init (co_connector x) w1")
    case True
    then have t: "w_tasks w1 i = Some (TaskReset k r)" using ok(8) by simp
    from True n have i: "reset_init None i k r w1 = (ResetContinue j r2, w2)" by simp
    have "reachable w2" using reachable.step [OF r1 step.reset_init, OF t, of None] i by simp
    then show ?thesis
      using reset_init_ok [OF i] ok by (simp add: swap_ready_def reachable_owned reachable_tasks reachable_stmts)
  next
    case False
    with n ok r1 show ?thesis by (simp add: swap_ready_def reachable_owned reachable_tasks reachable_stmts)
  qed
qed

lemma reset_session_succeeds:
  assumes w: "reachable w" and x: "w_conns w k = Some x" "\<not> co_closed x" "co_native x = Some old"
    and sh: "w_connectors w (co_connector x) = Some c" "\<not> cn_shared c"
    and r: "reset_session ctx ctx2 ans init k w = (None, w1)"
  shows "w_conns w1 k = Some (x\<lparr>co_native := Some (w_next w)\<rparr>) \<and> old \<notin> w_live w1 \<and> w_next w \<in> w_live w1 \<and>
     w_stmts w1 = w_stmts (invalidate_statements (co_stmts x) w)"
proof -
  from r x sh have ctx: "ctx = None" by (auto simp: reset_session_def reset_check_def split: option.splits)
  have nc: "reset_check ctx k w = None" using x sh ctx by (simp add: reset_check_def conn_is_valid_def)
  obtain p v1 where c: "reset_connect ctx2 ans k w = (p, v1)" by fastforce
  with r nc reset_connect_failed [OF x(1)] obtain i m where p: "p = ResetContinue i m"
    by (cases p) (auto simp: reset_session_def)
  obtain q v2 where n: "(if connector_has_init (co_connector x) v1 then reset_init init i m' m v1
      else (ResetContinue i m, v1)) = (q, v2)" if "m' = k" for m' by fastforce
  then have n: "(if connector_has_init (co_connector x) v1 then reset_init init i k m v1
      else (ResetContinue i m, v1)) = (q, v2)" by simp
  with r nc c p x(1) obtain j r2 where q: "q = ResetContinue j r2"
    by (cases q; cases init) (auto simp: reset_session_def reset_init_def Let_def split: if_splits)
  have n0: "(if connector_has_init (co_connector x) v1 then reset_init None i k m v1
      else (ResetContinue i m, v1)) = (ResetContinue j r2, v2)"
    using n q by (cases init) (auto simp: reset_init_def Let_def split: if_splits)
  from reset_ready [OF w x(1) c [unfolded p] n0] have ready: "swap_ready j (w_next w) k m x v2" "w_stmts v2 = w_stmts w"
    by auto
  obtain res v3 where s: "reset_swap j k m v2 = (res, v3)" by fastforce
  from reset_swap_ok [OF ready(1) x(2,3) s] obtain l where l: "res = ResetContinue l old"
    "w_conns (reset_close l old v3) k = Some (x\<lparr>co_native := Some (w_next w)\<rparr>)" "old \<notin> w_live (reset_close l old v3)"
    "w_next w \<in> w_live (reset_close l old v3)"
    "w_stmts (reset_close l old v3) = w_stmts (invalidate_statements (co_stmts x) v2)" by (auto simp: Let_def)
  have "w1 = reset_close l old v3" using r nc c p n q s l(1) x(1) by (simp add: reset_session_def)
  with l ready(2) show ?thesis by (simp add: fun_eq_iff invalidate_stmts)
qed

lemma reset_session_fails:
  assumes w: "reachable w" and x: "w_conns w k = Some x" "\<not> co_closed x" "co_native x = Some old"
    and sh: "w_connectors w (co_connector x) = Some c" "\<not> cn_shared c"
    and r: "reset_session None ctx2 ans init k w = (Some e, w1)"
  shows "\<not> conn_is_valid k w1 \<and> (\<exists>err. e = Joined [bad_conn, err]) \<and> w_live w1 \<subseteq> w_live w - {old}"
proof -
  have nc: "reset_check None k w = None" using x sh by (simp add: reset_check_def conn_is_valid_def)
  obtain p v1 where c: "reset_connect ctx2 ans k w = (p, v1)" by fastforce
  show ?thesis
  proof (cases p)
    case (ResetDone d)
    with reset_connect_failed [OF x(1), of ctx2 ans d v1] c obtain err where
      d: "d = Some (Joined [bad_conn, err])" "v1 = conn_close k w" by auto
    with r nc c ResetDone have "w1 = conn_close k w" "e = Joined [bad_conn, err]" by (auto simp: reset_session_def)
    then show ?thesis
      using conn_close_closed [OF x(1)] conn_close_live [of k w] conn_close_frees [OF x] by auto
  next
    case (ResetContinue i m)
    note ok = reset_connect_ok [OF x(1) reachable_owned [OF w] c [unfolded ResetContinue]]
    show ?thesis
    proof (cases "connector_has_init (co_connector x) v1 \<and> init \<noteq> None")
      case True
      then obtain err where i: "init = Some err" by auto
      have w1: "w1 = conn_close k (conn_close m (end_task i v1))" "e = Joined [bad_conn, err]"
        using r nc c ResetContinue True x(1) i by (auto simp: reset_session_def reset_init_def)
      let ?v = "conn_close m (end_task i v1)"
      from ok(5) obtain y where y: "w_conns v1 m = Some y" "co_native y = Some (w_next w)" by auto
      have xk: "w_conns ?v k = Some x" using ok(2,6) by (simp add: conn_close_frame)
      have ny: "\<not> co_closed y"
        using y reachable_stmts [OF reachable.step [OF w step.reset_connect, of ctx2 ans k]] c
        by (auto simp: stmts_ok_def)
      have "w_next w \<notin> w_live ?v" using conn_close_frees [of "end_task i v1" m y "w_next w"] y ny by simp
      moreover have "w_live v1 \<subseteq> insert (w_next w) (w_live w)"
      proof -
        obtain res w0 where cn: "connect_native ctx2 ans (co_connector x) w = (res, w0)" by fastforce
        with connect_native_cases [OF cn] c ResetContinue x(1) show ?thesis
          by (auto simp: reset_connect_def new_conn_def add_task_def)
      qed
      ultimately have "w_live ?v \<subseteq> w_live w" using conn_close_live [of m "end_task i v1"] by auto
      then show ?thesis
        using w1 conn_close_closed [OF xk] conn_close_live [of k ?v] conn_close_frees [OF xk x(2,3)] by auto
    next
      case False
      then obtain j r2 v2 where n: "(if connector_has_init (co_connector x) v1 then reset_init None i k m v1
          else (ResetContinue i m, v1)) = (ResetContinue j r2, v2)"
        "(if connector_has_init (co_connector x) v1 then reset_init init i k m v1 else (ResetContinue i m, v1)) =
          (ResetContinue j r2, v2)"
        by (cases "connector_has_init (co_connector x) v1") (auto simp: reset_init_def Let_def)
      from reset_ready [OF w x(1) c [unfolded ResetContinue] n(1)] have ready: "swap_ready j (w_next w) k m x v2" by simp
      obtain res v3 where s: "reset_swap j k m v2 = (res, v3)" by fastforce
      from reset_swap_ok [OF ready x(2,3) s] have "\<exists>l. res = ResetContinue l old" by auto
      then have "fst (reset_session None ctx2 ans init k w) = None"
        using nc c ResetContinue n(2) s x(1) by (auto simp: reset_session_def)
      with r show ?thesis by simp
    qed
  qed
qed

subsection \<open>Properties\<close>

text \<open>C1: In every interleaving, every live native handle has exactly one owner (an open connector, a
  connection, a statement, or an operation in progress), and every handle an object still owns is live:
  no handle leaks, none is closed twice or used after it was closed.\<close>

theorem every_live_handle_has_one_owner:
  assumes "reachable w"
  shows "n \<in> w_live w \<longleftrightarrow> (\<exists>!a. owns w a = Some n)"
  using reachable_owned [OF assms] unfolding owned_def ledger_def by metis




text \<open>The initialization callback of a shared session succeeds at most once for a connector, however
  many connections are opened concurrently, and it has succeeded exactly when the connector says so.\<close>

theorem shared_initialization_once:
  assumes "reachable w" and "w_connectors w c = Some x"
  shows "w_inits w c = (if cn_initialized x then 1 else 0)"
  using reachable_inits [OF assms(1)] assms(2) by (simp add: inits_ok_def)

subsection \<open>A concrete execution\<close>

text \<open>A connector, a connection, a prepared statement; then the connection and the connector are closed.\<close>

definition sample_open :: world where
  "sample_open = snd (prepare_context None AnswerOk 1 False 3 ''SELECT ?''
     (snd (connect_begin None AnswerOk 1 (snd (new_connector False False init_world)))))"

definition sample_closed :: world where
  "sample_closed = connector_close 1 (conn_close 3 sample_open)"

lemma sample_open_reachable: "reachable sample_open"
  unfolding sample_open_def
  by (rule reachable.step [OF reachable.step [OF reachable.step [OF reachable.start step.new_connector]
      step.connect_begin] step.prepare_context])

lemma sample_closed_reachable: "reachable sample_closed"
  unfolding sample_closed_def
  by (rule reachable.step [OF reachable.step [OF sample_open_reachable step.conn_close] step.connector_close])

lemma check_select [simp]: "check_no_nul_byte ''SELECT ?'' w = None"
  by (simp add: check_no_nul_byte_def)

lemma sample_open_eq:
  "sample_open = \<lparr>w_next = 6, w_connectors = [1 \<mapsto> \<lparr>cn_db = 0, cn_has_init = False, cn_shared = False,
       cn_closed = False, cn_initialized = False\<rparr>],
     w_conns = [3 \<mapsto> \<lparr>co_native = Some 2, co_connector = 1, co_owns = False, co_closed = False, co_stmts = [5]\<rparr>],
     w_stmts = [5 \<mapsto> \<lparr>st_native = Some 4, st_conn = 3, st_query = ''SELECT ?'', st_num_input = 1,
       st_serializes = False, st_closed = False\<rparr>],
     w_tasks = (\<lambda>_. None), w_live = {0, 2, 4}, w_parent = (\<lambda>_. 0)(4 := 2), w_inits = (\<lambda>_. 0)\<rparr>"
  by (simp add: sample_open_def init_world_def new_connector_def native_alloc_def connect_begin_def connect_native_def
      database_connect_def new_conn_def connector_has_init_def prepare_context_def connection_prepare_def eval_nat_numeral insert_commute)

lemma sample_closed_eq:
  "sample_closed = \<lparr>w_next = 6, w_connectors = [1 \<mapsto> \<lparr>cn_db = 0, cn_has_init = False, cn_shared = False,
       cn_closed = True, cn_initialized = False\<rparr>],
     w_conns = [3 \<mapsto> \<lparr>co_native = None, co_connector = 1, co_owns = False, co_closed = True, co_stmts = [5]\<rparr>],
     w_stmts = [5 \<mapsto> \<lparr>st_native = None, st_conn = 3, st_query = ''SELECT ?'', st_num_input = 1,
       st_serializes = False, st_closed = False\<rparr>],
     w_tasks = (\<lambda>_. None), w_live = {}, w_parent = (\<lambda>_. 0)(4 := 2), w_inits = (\<lambda>_. 0)\<rparr>"
  by (auto simp: sample_closed_def sample_open_eq conn_close_unfold invalidate_statements_def close_stmt_native_def
      native_close_def connector_close_def Let_def)

lemma every_live_handle_has_one_owner_witness: "\<exists>!a. owns sample_open a = Some 4"
  using every_live_handle_has_one_owner [OF sample_open_reachable, of 4] by (simp add: sample_open_eq)




lemma shared_initialization_once_witness: "w_inits sample_open 1 = 0"
  using shared_initialization_once [OF sample_open_reachable, of 1] by (simp add: sample_open_eq)

end
