(* ===== verification/Execution.thy ===== *)
theory Execution
  imports Params SqlRows ExecResult ProviderReaders
begin

text \<open>
  One query from its arguments to its result (\<^verbatim>\<open>execution.go\<close>, \<^verbatim>\<open>context_mutex.go\<close>, \<^verbatim>\<open>arrow.go\<close>,
  \<^verbatim>\<open>exec.go\<close>): the cancellable mutex that serializes statements, the result that owns the lock until it is
  closed, the registration of a reader as a table, and the helper that runs a list of statements.
  What the context, the native library and the Arrow IPC writer answer are arguments.
\<close>

subsection \<open>The cancellable mutex\<close>

text \<open>
  The mutex is a channel of capacity one: it is held while the channel is full.  Of the two branches of
  \<^verbatim>\<open>select\<close> the scheduler picks one that is ready: the send, then followed by another look at the
  context, or the context's \<^verbatim>\<open>Done\<close>.  A lock that can only send to a full channel blocks: \<open>None\<close>.
\<close>

datatype select_choice = SelectSend "go_error option" | SelectDone go_error

definition mutex_unlock :: "bool \<Rightarrow> bool option" where
  "mutex_unlock full = (if full then Some False else None)"

definition mutex_lock :: "go_error option \<Rightarrow> select_choice \<Rightarrow> bool \<Rightarrow> (go_error option \<times> bool) option" where
  "mutex_lock ctx choice full =
     (case ctx of
        Some e \<Rightarrow> Some (Some e, full)
      | None \<Rightarrow> (case choice of
            SelectDone e \<Rightarrow> Some (Some e, full)
          | SelectSend ctx2 \<Rightarrow>
              if full then None
              else (case ctx2 of
                  Some e \<Rightarrow> map_option (\<lambda>m. (Some e, m)) (mutex_unlock True)
                | None \<Rightarrow> Some (None, True))))"

locale context_lock =
  fixes lock :: "go_error option \<Rightarrow> select_choice \<Rightarrow> 'm \<Rightarrow> (go_error option \<times> 'm) option"
    and unlock :: "'m \<Rightarrow> 'm option" and held :: "'m \<Rightarrow> bool"
  assumes locked: "lock ctx choice m = Some (None, n) \<Longrightarrow> \<not> held m \<and> held n"
    and not_locked: "lock ctx choice m = Some (Some e, n) \<Longrightarrow> n = m"
    and blocked: "lock ctx choice m = None \<Longrightarrow> held m"
    and unlocked: "held m \<Longrightarrow> \<exists>n. unlock m = Some n \<and> \<not> held n"
begin

lemma free_never_blocks: "\<not> held m \<Longrightarrow> \<exists>r. lock ctx choice m = Some r"
  using blocked by fastforce

lemma lock_section: "lock ctx choice m = Some (None, n) \<Longrightarrow> \<exists>l. unlock n = Some l \<and> \<not> held l \<and> \<not> held m"
  using locked unlocked by blast

lemma next_waiter:
  assumes "held m"
  obtains n where "unlock m = Some n" "\<And>ctx choice. lock ctx choice n \<noteq> None"
  using unlocked [OF assms] free_never_blocks by (metis option.distinct(1))

end

interpretation cm: context_lock mutex_lock mutex_unlock id
  by unfold_locales (auto simp: mutex_lock_def mutex_unlock_def split: option.splits select_choice.splits if_splits)

subsection \<open>Operations\<close>

text \<open>
  The locks: one per connector, one per connection.  A direct query owns a temporary statement, closed
  when the operation ends; a prepared one borrows its statement.
\<close>

datatype lock_id = ConnectorLock nat | ConnectionLock nat

record query_operation =
  qo_connector :: "(nat \<times> bool) option"
  qo_connection :: nat
  qo_serializes :: bool
  qo_closes :: bool

type_synonym locks = "lock_id \<Rightarrow> bool"

definition lock_at ::
  "go_error option \<Rightarrow> select_choice \<Rightarrow> lock_id \<Rightarrow> locks \<Rightarrow> ((go_error + lock_id option) \<times> locks) option" where
  "lock_at ctx choice l held =
     (case mutex_lock ctx choice (held l) of
        None \<Rightarrow> None
      | Some (Some e, m) \<Rightarrow> Some (Inl e, held(l := m))
      | Some (None, m) \<Rightarrow> Some (Inr (Some l), held(l := m)))"

definition lock_serialized_statement ::
  "go_error option \<Rightarrow> select_choice \<Rightarrow> nat option \<Rightarrow> bool \<Rightarrow> locks \<Rightarrow>
   ((go_error + lock_id option) \<times> locks) option" where
  "lock_serialized_statement ctx choice c serializes held =
     (case c of
        None \<Rightarrow> Some (Inr None, held)
      | Some k \<Rightarrow> if \<not> serializes then Some (Inr None, held) else lock_at ctx choice (ConnectorLock k) held)"

definition isolated_connector :: "query_operation \<Rightarrow> bool" where
  "isolated_connector op = (case qo_connector op of None \<Rightarrow> False | Some (c, shared) \<Rightarrow> \<not> shared)"

definition acquire_lock ::
  "go_error option \<Rightarrow> select_choice \<Rightarrow> query_operation \<Rightarrow> locks \<Rightarrow> ((go_error + lock_id option) \<times> locks) option" where
  "acquire_lock ctx choice op held =
     (if qo_serializes op \<and> isolated_connector op
      then lock_at ctx choice (ConnectionLock (qo_connection op)) held
      else lock_serialized_statement ctx choice (map_option fst (qo_connector op)) (qo_serializes op) held)"

text \<open>\<^verbatim>\<open>unlock\<close> is the method value of the lock's \<^verbatim>\<open>Unlock\<close>; a receive from an empty channel would block.\<close>

definition release_lock :: "lock_id option \<Rightarrow> locks \<Rightarrow> locks option" where
  "release_lock unlock held =
     (case unlock of None \<Rightarrow> Some held | Some l \<Rightarrow> map_option (\<lambda>m. held(l := m)) (mutex_unlock (held l)))"

text \<open>A result: a plain native reader, or one wrapped with the unlock function and its \<^verbatim>\<open>sync.Once\<close>.\<close>

record serialized_reader =
  sr_reader :: arrow_reader
  sr_unlock :: "lock_id option"
  sr_once :: bool
  sr_err :: "go_error option"

definition new_serialized_reader :: "arrow_reader \<Rightarrow> lock_id option \<Rightarrow> serialized_reader" where
  "new_serialized_reader r unlock = \<lparr>sr_reader = r, sr_unlock = unlock, sr_once = False, sr_err = None\<rparr>"

definition serialized_read :: "serialized_reader \<Rightarrow> (go_error + batch) \<times> serialized_reader" where
  "serialized_read r = (case reader_read (sr_reader r) of (res, s) \<Rightarrow> (res, r\<lparr>sr_reader := s\<rparr>))"

definition serialized_close ::
  "go_error option \<Rightarrow> serialized_reader \<Rightarrow> locks \<Rightarrow> (go_error option \<times> serialized_reader \<times> locks) option" where
  "serialized_close err r held =
     (case sr_unlock r of
        None \<Rightarrow> Some (err, r\<lparr>sr_reader := close_reader (sr_reader r)\<rparr>, held)
      | Some l \<Rightarrow>
          if sr_once r then Some (sr_err r, r, held)
          else map_option (\<lambda>h. (err, r\<lparr>sr_reader := close_reader (sr_reader r), sr_once := True, sr_err := err\<rparr>, h))
            (release_lock (Some l) held))"

definition execute_native_statement :: "go_error + arrow_reader \<Rightarrow> go_error + arrow_reader" where
  "execute_native_statement res =
     (case res of
        Inl e \<Rightarrow> Inl (driver_error ErrorExecute ''could not execute DataFusion statement'' (Some e))
      | Inr r \<Rightarrow> Inr r)"

subsection \<open>A query\<close>

text \<open>
  The state every query of the program shares: the locks, the queries in progress, the temporary statements not yet
  closed and the results handed out.  A query is three steps, and the goroutines interleave between them.
\<close>

datatype query_phase = QueryWaiting query_operation "named_value list"
  | QueryRunning query_operation "named_value list" "lock_id option"

record query_world =
  qw_next :: nat
  qw_held :: locks
  qw_queries :: "nat \<Rightarrow> query_phase option"
  qw_temps :: "nat set"
  qw_results :: "nat \<Rightarrow> serialized_reader option"

definition query_begin ::
  "param_env \<Rightarrow> go_error option \<Rightarrow> named_value list \<Rightarrow> go_error + query_operation \<Rightarrow> query_world \<Rightarrow>
   (go_error + nat) \<times> query_world" where
  "query_begin env ctx args prepare w =
     (case ctx of Some e \<Rightarrow> (Inl e, w) | None \<Rightarrow>
     (case normalize_named_value_slice env args of Inl e \<Rightarrow> (Inl e, w) | Inr named \<Rightarrow>
     (case prepare of Inl e \<Rightarrow> (Inl e, w) | Inr op \<Rightarrow>
        (Inr (qw_next w), w\<lparr>qw_next := qw_next w + 1,
           qw_queries := (qw_queries w)(qw_next w \<mapsto> QueryWaiting op named),
           qw_temps := (if qo_closes op then insert (qw_next w) (qw_temps w) else qw_temps w)\<rparr>))))"

text \<open>The deferred \<^verbatim>\<open>op.close()\<close>.\<close>

definition query_end :: "nat \<Rightarrow> query_operation \<Rightarrow> query_world \<Rightarrow> query_world" where
  "query_end i op w = w\<lparr>qw_queries := (qw_queries w)(i := None),
     qw_temps := (if qo_closes op then qw_temps w - {i} else qw_temps w)\<rparr>"

definition query_lock ::
  "go_error option \<Rightarrow> select_choice \<Rightarrow> nat \<Rightarrow> query_operation \<Rightarrow> named_value list \<Rightarrow> query_world \<Rightarrow>
   ((go_error + lock_id option) \<times> query_world) option" where
  "query_lock ctx choice i op named w =
     (case acquire_lock ctx choice op (qw_held w) of
        None \<Rightarrow> None
      | Some (Inl e, held) \<Rightarrow> Some (Inl e, query_end i op (w\<lparr>qw_held := held\<rparr>))
      | Some (Inr unlock, held) \<Rightarrow>
          Some (Inr unlock, w\<lparr>qw_held := held, qw_queries := (qw_queries w)(i \<mapsto> QueryRunning op named unlock)\<rparr>))"

definition query_execute ::
  "(named_value list \<Rightarrow> go_error + arrow_reader) \<Rightarrow> nat \<Rightarrow> query_operation \<Rightarrow> named_value list \<Rightarrow> lock_id option \<Rightarrow>
   query_world \<Rightarrow> ((go_error + nat) \<times> query_world) option" where
  "query_execute execute i op named unlock w =
     (case execute_native_statement (execute named) of
        Inl e \<Rightarrow> map_option (\<lambda>held. (Inl e, query_end i op (w\<lparr>qw_held := held\<rparr>))) (release_lock unlock (qw_held w))
      | Inr r \<Rightarrow> Some (Inr i, query_end i op
          (w\<lparr>qw_results := (qw_results w)(i \<mapsto> new_serialized_reader r unlock)\<rparr>)))"

text \<open>\<^verbatim>\<open>runArrowQuery\<close> with no other goroutine in between.\<close>

definition run_arrow_query ::
  "param_env \<Rightarrow> go_error option \<Rightarrow> named_value list \<Rightarrow> go_error + query_operation \<Rightarrow> go_error option \<Rightarrow> select_choice \<Rightarrow>
   (named_value list \<Rightarrow> go_error + arrow_reader) \<Rightarrow> query_world \<Rightarrow> ((go_error + nat) \<times> query_world) option" where
  "run_arrow_query env ctx args prepare ctx2 choice execute w =
     (case query_begin env ctx args prepare w of
        (Inl e, w1) \<Rightarrow> Some (Inl e, w1)
      | (Inr i, w1) \<Rightarrow> (case qw_queries w1 i of
          Some (QueryWaiting op named) \<Rightarrow>
            (case query_lock ctx2 choice i op named w1 of
               None \<Rightarrow> None
             | Some (Inl e, w2) \<Rightarrow> Some (Inl e, w2)
             | Some (Inr unlock, w2) \<Rightarrow> query_execute execute i op named unlock w2)
        | _ \<Rightarrow> None))"

definition result_close :: "go_error option \<Rightarrow> nat \<Rightarrow> query_world \<Rightarrow> (go_error option \<times> query_world) option" where
  "result_close err j w =
     (case qw_results w j of
        None \<Rightarrow> None
      | Some r \<Rightarrow> map_option (\<lambda>(e, r1, held). (e, w\<lparr>qw_held := held, qw_results := (qw_results w)(j \<mapsto> r1)\<rparr>))
          (serialized_close err r (qw_held w)))"

definition result_read :: "nat \<Rightarrow> query_world \<Rightarrow> ((go_error + batch) \<times> query_world) option" where
  "result_read j w =
     (case qw_results w j of
        None \<Rightarrow> None
      | Some r \<Rightarrow> (case serialized_read r of (res, r1) \<Rightarrow> Some (res, w\<lparr>qw_results := (qw_results w)(j \<mapsto> r1)\<rparr>)))"

inductive query_step :: "query_world \<Rightarrow> query_world \<Rightarrow> bool" where
  begin_query: "query_step w (snd (query_begin env ctx args prepare w))"
| lock_query: "qw_queries w i = Some (QueryWaiting op named) \<Longrightarrow>
    query_lock ctx choice i op named w = Some (res, v) \<Longrightarrow> query_step w v"
| execute_query: "qw_queries w i = Some (QueryRunning op named unlock) \<Longrightarrow>
    query_execute execute i op named unlock w = Some (res, v) \<Longrightarrow> query_step w v"
| read_result: "result_read j w = Some (res, v) \<Longrightarrow> query_step w v"
| close_result: "result_close err j w = Some (e, v) \<Longrightarrow> query_step w v"

definition query_start :: query_world where
  "query_start = \<lparr>qw_next = 0, qw_held = (\<lambda>_. False), qw_queries = (\<lambda>_. None), qw_temps = {},
     qw_results = (\<lambda>_. None)\<rparr>"

inductive query_reachable :: "query_world \<Rightarrow> bool" where
  start: "query_reachable query_start"
| step: "query_reachable w \<Longrightarrow> query_step w v \<Longrightarrow> query_reachable v"

subsection \<open>Who holds a lock\<close>

datatype holder = HoldQuery nat | HoldResult nat

fun phase_lock :: "query_phase \<Rightarrow> lock_id option" where
  "phase_lock (QueryWaiting op named) = None"
| "phase_lock (QueryRunning op named unlock) = unlock"

fun phase_op :: "query_phase \<Rightarrow> query_operation" where
  "phase_op (QueryWaiting op named) = op"
| "phase_op (QueryRunning op named unlock) = op"

definition result_lock :: "serialized_reader \<Rightarrow> lock_id option" where
  "result_lock r = (if sr_once r then None else sr_unlock r)"

fun holds :: "query_world \<Rightarrow> holder \<Rightarrow> lock_id option" where
  "holds w (HoldQuery i) = (case qw_queries w i of None \<Rightarrow> None | Some p \<Rightarrow> phase_lock p)"
| "holds w (HoldResult i) = (case qw_results w i of None \<Rightarrow> None | Some r \<Rightarrow> result_lock r)"

definition exclusive :: "('l \<Rightarrow> bool) \<Rightarrow> ('h \<Rightarrow> 'l option) \<Rightarrow> bool" where
  "exclusive held own \<longleftrightarrow> (\<forall>l. held l \<longleftrightarrow> (\<exists>h. own h = Some l)) \<and>
     (\<forall>g h l. own g = Some l \<longrightarrow> own h = Some l \<longrightarrow> g = h)"

lemma exclusiveD:
  assumes "exclusive held own"
  shows "own h = Some l \<Longrightarrow> held l" "held l \<Longrightarrow> \<exists>h. own h = Some l" "own g = Some l \<Longrightarrow> own h = Some l \<Longrightarrow> g = h"
  using assms unfolding exclusive_def by blast+

lemma exclusiveI:
  assumes "\<And>h l. own h = Some l \<Longrightarrow> held l" "\<And>l. held l \<Longrightarrow> \<exists>h. own h = Some l"
    "\<And>g h l. own g = Some l \<Longrightarrow> own h = Some l \<Longrightarrow> g = h"
  shows "exclusive held own"
  using assms unfolding exclusive_def by blast

lemma exclusive_acquire:
  assumes x: "exclusive held own" and f: "\<not> held l" "own h = None"
  shows "exclusive (held(l := True)) (own(h \<mapsto> l))"
proof (rule exclusiveI)
  fix g m assume "(own(h \<mapsto> l)) g = Some m"
  then show "(held(l := True)) m" using exclusiveD(1) [OF x, of g m] by (auto split: if_splits)
next
  fix m assume m: "(held(l := True)) m"
  show "\<exists>g. (own(h \<mapsto> l)) g = Some m"
  proof (cases "m = l")
    case False
    with m obtain g where "own g = Some m" using exclusiveD(2) [OF x] by auto
    with f show ?thesis by (intro exI [of _ g]) auto
  qed auto
next
  fix g k m assume "(own(h \<mapsto> l)) g = Some m" "(own(h \<mapsto> l)) k = Some m"
  then show "g = k" using exclusiveD(1) [OF x, of g m] exclusiveD(1) [OF x, of k m] exclusiveD(3) [OF x, of g m k] f(1)
    unfolding fun_upd_apply by (cases "g = h"; cases "k = h") auto
qed

lemma exclusive_release:
  assumes x: "exclusive held own" and h: "own h = Some l"
  shows "exclusive (held(l := False)) (own(h := None))"
proof (rule exclusiveI)
  fix g m assume g: "(own(h := None)) g = Some m"
  then have "own g = Some m" "g \<noteq> h" by (auto split: if_splits)
  with exclusiveD(1,3) [OF x] h show "(held(l := False)) m" by (metis fun_upd_apply)
next
  fix m assume "(held(l := False)) m"
  then have "held m" "m \<noteq> l" by (auto split: if_splits)
  with exclusiveD(2) [OF x, of m] h show "\<exists>g. (own(h := None)) g = Some m"
    by (metis fun_upd_apply option.inject)
next
  fix g k m assume "(own(h := None)) g = Some m" "(own(h := None)) k = Some m"
  then show "g = k" using exclusiveD(3) [OF x, of g m k] by (auto split: if_splits)
qed

lemma exclusive_move:
  assumes x: "exclusive held own" and h: "own h = Some l" "own g = None"
  shows "exclusive held (own(h := None, g \<mapsto> l))"
proof -
  have "held l" using exclusiveD(1) [OF x h(1)] .
  have "exclusive ((held(l := False))(l := True)) ((own(h := None))(g \<mapsto> l))"
    by (rule exclusive_acquire [OF exclusive_release [OF x h(1)]]) (use h in auto)
  with \<open>held l\<close> show ?thesis by (simp add: fun_upd_idem)
qed

lemma holds_updates [simp]:
  "holds (w\<lparr>qw_next := n\<rparr>) = holds w" "holds (w\<lparr>qw_held := x\<rparr>) = holds w" "holds (w\<lparr>qw_temps := t\<rparr>) = holds w"
  "qw_queries w = qs \<Longrightarrow> holds (w\<lparr>qw_queries := qs(i := None)\<rparr>) = (holds w)(HoldQuery i := None)"
  "qw_queries w = qs \<Longrightarrow> holds (w\<lparr>qw_queries := qs(i \<mapsto> p)\<rparr>) = (holds w)(HoldQuery i := phase_lock p)"
  "qw_results w = rs \<Longrightarrow> holds (w\<lparr>qw_results := rs(i \<mapsto> r)\<rparr>) = (holds w)(HoldResult i := result_lock r)"
  by (rule ext, rename_tac h, case_tac h; simp)+

text \<open>The lock of an operation: the connection's when its session is isolated, the connector's when it is shared.\<close>

definition operation_lock :: "query_operation \<Rightarrow> lock_id option" where
  "operation_lock op =
     (if qo_serializes op then
        (case qo_connector op of None \<Rightarrow> None
         | Some (c, shared) \<Rightarrow> Some (if shared then ConnectorLock c else ConnectionLock (qo_connection op)))
      else None)"

lemma lock_at_cases:
  assumes "lock_at ctx choice l held = Some (res, held1)"
  shows "(\<exists>e. res = Inl e \<and> held1 = held) \<or> (res = Inr (Some l) \<and> \<not> held l \<and> held1 = held(l := True))"
proof (cases "mutex_lock ctx choice (held l)")
  case (Some r)
  obtain e m where r: "r = (e, m)" by fastforce
  show ?thesis
  proof (cases e)
    case None
    with Some r have "mutex_lock ctx choice (held l) = Some (None, m)" by simp
    from cm.locked [OF this] have "\<not> held l" "m" by simp_all
    with None Some r assms show ?thesis by (simp add: lock_at_def)
  next
    case e: (Some d)
    with Some r have "mutex_lock ctx choice (held l) = Some (Some d, m)" by simp
    from cm.not_locked [OF this] have "m = held l" .
    with e Some r assms show ?thesis by (auto simp: lock_at_def)
  qed
qed (use assms in \<open>simp add: lock_at_def\<close>)

lemma acquire_lock_cases:
  assumes "acquire_lock ctx choice op held = Some (res, held1)"
  shows "(\<exists>e. res = Inl e \<and> held1 = held) \<or>
    (res = Inr (operation_lock op) \<and>
     (case operation_lock op of None \<Rightarrow> held1 = held | Some l \<Rightarrow> \<not> held l \<and> held1 = held(l := True)))"
proof (cases "qo_connector op")
  case None
  with assms show ?thesis
    by (auto simp: acquire_lock_def lock_serialized_statement_def isolated_connector_def operation_lock_def)
next
  case (Some cs)
  then obtain c shared where c: "qo_connector op = Some (c, shared)" by (cases cs) auto
  with assms show ?thesis
    by (cases "qo_serializes op"; cases shared)
       (auto simp: acquire_lock_def lock_serialized_statement_def isolated_connector_def operation_lock_def
         dest!: lock_at_cases)
qed

lemma release_lock_held:
  "release_lock unlock held = Some held1 \<Longrightarrow>
   held1 = (case unlock of None \<Rightarrow> held | Some l \<Rightarrow> held(l := False)) \<and> (case unlock of None \<Rightarrow> True | Some l \<Rightarrow> held l)"
  by (auto simp: release_lock_def mutex_unlock_def split: option.splits if_splits)

subsection \<open>The invariant of all executions\<close>

definition query_inv :: "query_world \<Rightarrow> bool" where
  "query_inv w \<longleftrightarrow> exclusive (qw_held w) (holds w) \<and>
     (\<forall>i \<ge> qw_next w. qw_queries w i = None \<and> qw_results w i = None) \<and>
     (\<forall>i. i \<in> qw_temps w \<longleftrightarrow> (\<exists>p. qw_queries w i = Some p \<and> qo_closes (phase_op p))) \<and>
     (\<forall>i. qw_queries w i \<noteq> None \<longrightarrow> qw_results w i = None)"

lemma query_invD:
  assumes "query_inv w"
  shows "exclusive (qw_held w) (holds w)" "qw_next w \<le> i \<Longrightarrow> qw_queries w i = None"
    "qw_next w \<le> i \<Longrightarrow> qw_results w i = None"
    "i \<in> qw_temps w \<longleftrightarrow> (\<exists>p. qw_queries w i = Some p \<and> qo_closes (phase_op p))"
    "qw_queries w i = Some p \<Longrightarrow> qw_results w i = None" "qw_queries w i = Some p \<Longrightarrow> i < qw_next w"
  using assms unfolding query_inv_def by (auto intro: leI)

lemma query_invI:
  assumes "exclusive (qw_held w) (holds w)" "\<And>i. qw_next w \<le> i \<Longrightarrow> qw_queries w i = None"
    "\<And>i. qw_next w \<le> i \<Longrightarrow> qw_results w i = None"
    "\<And>i. i \<in> qw_temps w \<longleftrightarrow> (\<exists>p. qw_queries w i = Some p \<and> qo_closes (phase_op p))"
    "\<And>i p. qw_queries w i = Some p \<Longrightarrow> qw_results w i = None"
  shows "query_inv w"
  using assms unfolding query_inv_def by auto

lemma holds_query_end [simp]: "holds (query_end i op w) = (holds w)(HoldQuery i := None)"
  by (simp add: query_end_def)

text \<open>Ending a query that holds no lock, or whose lock has been released or handed on.\<close>

lemma query_inv_end:
  assumes w: "query_inv w" and q: "qw_queries w i = Some p" "phase_op p = op"
    and x: "exclusive held ((holds w)(HoldQuery i := None))"
  shows "query_inv (query_end i op (w\<lparr>qw_held := held\<rparr>))"
proof (rule query_invI)
  show "exclusive (qw_held (query_end i op (w\<lparr>qw_held := held\<rparr>))) (holds (query_end i op (w\<lparr>qw_held := held\<rparr>)))"
    using x by (simp add: query_end_def)
  fix j
  show "j \<in> qw_temps (query_end i op (w\<lparr>qw_held := held\<rparr>)) \<longleftrightarrow>
      (\<exists>p. qw_queries (query_end i op (w\<lparr>qw_held := held\<rparr>)) j = Some p \<and> qo_closes (phase_op p))"
    using query_invD(4) [OF w, of j] q by (cases "j = i") (simp_all add: query_end_def)
  show "qw_next (query_end i op (w\<lparr>qw_held := held\<rparr>)) \<le> j \<Longrightarrow> qw_queries (query_end i op (w\<lparr>qw_held := held\<rparr>)) j = None"
    "qw_next (query_end i op (w\<lparr>qw_held := held\<rparr>)) \<le> j \<Longrightarrow> qw_results (query_end i op (w\<lparr>qw_held := held\<rparr>)) j = None"
    "qw_queries (query_end i op (w\<lparr>qw_held := held\<rparr>)) j = Some p' \<Longrightarrow> qw_results (query_end i op (w\<lparr>qw_held := held\<rparr>)) j = None"
    for p'
    using query_invD(2,3,5) [OF w, of j] by (auto simp: query_end_def split: if_splits)
qed

lemma query_inv_begin: "query_inv w \<Longrightarrow> query_inv (snd (query_begin env ctx args prepare w))"
proof (cases "\<exists>named op. ctx = None \<and> normalize_named_value_slice env args = Inr named \<and> prepare = Inr op")
  case True
  assume w: "query_inv w"
  from True obtain named op where c: "ctx = None" "normalize_named_value_slice env args = Inr named" "prepare = Inr op"
    by auto
  let ?v = "snd (query_begin env ctx args prepare w)"
  have "holds w (HoldQuery (qw_next w)) = None" using query_invD(2) [OF w] by simp
  then have "holds ?v = holds w" using c by (simp add: query_begin_def fun_upd_idem)
  then show ?thesis
    by (intro query_invI) (use c query_invD [OF w] in \<open>auto simp: query_begin_def split: if_splits\<close>)
qed (auto simp: query_begin_def split: option.splits sum.splits)

lemma query_inv_lock:
  assumes w: "query_inv w" and q: "qw_queries w i = Some (QueryWaiting op named)"
    and l: "query_lock ctx choice i op named w = Some (res, v)"
  shows "query_inv v"
proof -
  have h0: "holds w (HoldQuery i) = None" using q by simp
  obtain r held where a: "acquire_lock ctx choice op (qw_held w) = Some (r, held)"
    using l by (auto simp: query_lock_def split: option.splits)
  from acquire_lock_cases [OF a] show ?thesis
  proof (elim disjE exE conjE)
    fix e assume "r = Inl e" "held = qw_held w"
    with a l have v: "v = query_end i op (w\<lparr>qw_held := qw_held w\<rparr>)" by (auto simp: query_lock_def)
    show ?thesis unfolding v
      by (rule query_inv_end [OF w q]) (use query_invD(1) [OF w] h0 in \<open>simp_all add: fun_upd_idem\<close>)
  next
    assume r: "r = Inr (operation_lock op)"
      and held: "case operation_lock op of None \<Rightarrow> held = qw_held w | Some l \<Rightarrow> \<not> qw_held w l \<and> held = (qw_held w)(l := True)"
    with a l have v: "v = w\<lparr>qw_held := held, qw_queries := (qw_queries w)(i \<mapsto> QueryRunning op named (operation_lock op))\<rparr>"
      by (auto simp: query_lock_def)
    have "exclusive held ((holds w)(HoldQuery i := operation_lock op))"
      using held query_invD(1) [OF w] h0
      by (cases "operation_lock op") (simp_all add: exclusive_acquire fun_upd_idem)
    with query_invD [OF w] v q show ?thesis by (intro query_invI) (auto split: if_splits)
  qed
qed

lemma query_inv_execute:
  assumes w: "query_inv w" and q: "qw_queries w i = Some (QueryRunning op named unlock)"
    and x: "query_execute execute i op named unlock w = Some (res, v)"
  shows "query_inv v"
proof -
  have h0: "holds w (HoldQuery i) = unlock" using q by simp
  have n0: "holds w (HoldResult i) = None" using query_invD(5) [OF w q] by simp
  show ?thesis
  proof (cases "execute_native_statement (execute named)")
    case (Inl e)
    with x obtain held where r: "release_lock unlock (qw_held w) = Some held"
      and v: "v = query_end i op (w\<lparr>qw_held := held\<rparr>)" by (auto simp: query_execute_def)
    from release_lock_held [OF r] have held: "held = (case unlock of None \<Rightarrow> qw_held w | Some l \<Rightarrow> (qw_held w)(l := False))"
      by simp
    have "exclusive held ((holds w)(HoldQuery i := None))"
      using query_invD(1) [OF w] h0 held by (cases unlock) (simp_all add: exclusive_release fun_upd_idem)
    with query_inv_end [OF w q] show ?thesis by (simp add: v)
  next
    case (Inr r)
    let ?s = "new_serialized_reader r unlock"
    from Inr x have v: "v = query_end i op (w\<lparr>qw_results := (qw_results w)(i \<mapsto> ?s)\<rparr>)"
      by (simp add: query_execute_def)
    have lk: "result_lock ?s = unlock" by (simp add: result_lock_def new_serialized_reader_def)
    have "exclusive (qw_held w) ((holds w)(HoldQuery i := None, HoldResult i := unlock))"
      using query_invD(1) [OF w] h0 n0
      by (cases unlock) (simp_all add: exclusive_move fun_upd_idem fun_upd_twist)
    then have x: "exclusive (qw_held v) (holds v)"
      using lk by (simp add: v fun_upd_twist) (simp add: query_end_def)
    show ?thesis
    proof (rule query_invI [OF x])
      fix j
      show "j \<in> qw_temps v \<longleftrightarrow> (\<exists>p. qw_queries v j = Some p \<and> qo_closes (phase_op p))"
        using query_invD(4) [OF w, of j] q by (cases "j = i") (simp_all add: query_end_def v)
      show "qw_next v \<le> j \<Longrightarrow> qw_queries v j = None" "qw_next v \<le> j \<Longrightarrow> qw_results v j = None"
        "qw_queries v j = Some p \<Longrightarrow> qw_results v j = None" for p
        using query_invD(2,3,5) [OF w, of j] query_invD(6) [OF w q] by (auto simp: query_end_def v split: if_splits)
    qed
  qed
qed

lemma query_inv_result:
  assumes w: "query_inv w" and j: "qw_results w j = Some r"
    and x: "exclusive held ((holds w)(HoldResult j := result_lock s))"
  shows "query_inv (w\<lparr>qw_held := held, qw_results := (qw_results w)(j \<mapsto> s)\<rparr>)"
  by (rule query_invI) (use x j query_invD [OF w] in \<open>auto split: if_splits\<close>)

lemma query_inv_close:
  assumes w: "query_inv w" and c: "result_close err j w = Some (e, v)"
  shows "query_inv v"
proof -
  from c obtain r r1 held where r: "qw_results w j = Some r" "serialized_close err r (qw_held w) = Some (e, r1, held)"
    and v: "v = w\<lparr>qw_held := held, qw_results := (qw_results w)(j \<mapsto> r1)\<rparr>"
    by (auto simp: result_close_def split: option.splits)
  have h: "holds w (HoldResult j) = result_lock r" using r by simp
  have "exclusive held ((holds w)(HoldResult j := result_lock r1))"
  proof (cases "result_lock r")
    case None
    with r(2) have "held = qw_held w" "result_lock r1 = None"
      by (auto simp: serialized_close_def result_lock_def split: option.splits if_splits)
    with query_invD(1) [OF w] h None show ?thesis by (simp add: fun_upd_idem)
  next
    case (Some l)
    with r(2) have "held = (qw_held w)(l := False)" "result_lock r1 = None"
      by (auto simp: serialized_close_def result_lock_def dest!: release_lock_held split: option.splits if_splits)
    with exclusive_release [OF query_invD(1) [OF w], of "HoldResult j" l] h Some show ?thesis by simp
  qed
  with query_inv_result [OF w r(1)] show ?thesis by (simp add: v)
qed

lemma query_inv_read: "query_inv w \<Longrightarrow> result_read j w = Some (res, v) \<Longrightarrow> query_inv v"
proof -
  assume w: "query_inv w" and r: "result_read j w = Some (res, v)"
  then obtain r r1 where r: "qw_results w j = Some r" "serialized_read r = (res, r1)"
    "v = w\<lparr>qw_results := (qw_results w)(j \<mapsto> r1)\<rparr>"
    by (auto simp: result_read_def split: option.splits prod.splits)
  have "result_lock r1 = result_lock r" using r(2) by (auto simp: serialized_read_def result_lock_def split: prod.splits)
  then have "exclusive (qw_held w) ((holds w)(HoldResult j := result_lock r1))"
    using query_invD(1) [OF w] r(1) by (simp add: fun_upd_idem)
  from query_inv_result [OF w r(1) this] r(3) show ?thesis by simp
qed

lemma query_inv_reachable: "query_reachable w \<Longrightarrow> query_inv w"
proof (induction rule: query_reachable.induct)
  case start
  have "holds query_start h = None" for h by (cases h) (simp_all add: query_start_def)
  then show ?case by (intro query_invI exclusiveI) (auto simp: query_start_def)
next
  case (step w v)
  from step(2,3) show ?case
    by (induction rule: query_step.induct)
       (auto intro: query_inv_begin query_inv_lock query_inv_execute query_inv_read query_inv_close)
qed

subsection \<open>A query without interference\<close>

lemma query_end_frame [simp]:
  "qw_held (query_end i op w) = qw_held w" "qw_results (query_end i op w) = qw_results w"
  "qw_queries (query_end i op w) = (qw_queries w)(i := None)"
  "qw_temps (query_end i op w) = (if qo_closes op then qw_temps w - {i} else qw_temps w)"
  by (simp_all add: query_end_def)

lemma query_begin_Inr:
  "query_begin env ctx args prepare w = (Inr i, v) \<Longrightarrow> \<exists>op named. prepare = Inr op \<and> ctx = None \<and>
     normalize_named_value_slice env args = Inr named \<and> i = qw_next w \<and>
     v = w\<lparr>qw_next := qw_next w + 1, qw_queries := (qw_queries w)(qw_next w \<mapsto> QueryWaiting op named),
           qw_temps := (if qo_closes op then insert (qw_next w) (qw_temps w) else qw_temps w)\<rparr>"
  by (auto simp: query_begin_def split: option.splits sum.splits)

lemma query_begin_Inl: "query_begin env ctx args prepare w = (Inl e, v) \<Longrightarrow> v = w"
  by (auto simp: query_begin_def split: option.splits sum.splits)

lemma temp_fresh: "query_inv w \<Longrightarrow> qw_next w \<notin> qw_temps w"
  using query_invD(2,4) by fastforce

text \<open>The three phases in a row: what the query leaves behind, by its outcome.\<close>

lemma run_arrow_query_cases:
  assumes w: "query_inv w" and r: "run_arrow_query env ctx args prepare ctx2 choice execute w = Some (res, v)"
  shows "(\<exists>e. res = Inl e \<and> qw_held v = qw_held w \<and> qw_temps v = qw_temps w \<and> qw_queries v = qw_queries w \<and>
       qw_results v = qw_results w) \<or>
    (\<exists>op named r held. prepare = Inr op \<and> normalize_named_value_slice env args = Inr named \<and> execute named = Inr r \<and>
       res = Inr (qw_next w) \<and> qw_temps v = qw_temps w \<and> qw_queries v = qw_queries w \<and> qw_held v = held \<and>
       qw_results v = (qw_results w)(qw_next w \<mapsto> new_serialized_reader r (operation_lock op)) \<and>
       (case operation_lock op of None \<Rightarrow> held = qw_held w | Some l \<Rightarrow> \<not> qw_held w l \<and> held = (qw_held w)(l := True)))"
proof -
  have nq: "(qw_queries w)(qw_next w := None) = qw_queries w" using query_invD(2) [OF w, of "qw_next w"] by (simp add: fun_upd_idem)
  have nt: "insert (qw_next w) (qw_temps w) - {qw_next w} = qw_temps w" using temp_fresh [OF w] by auto
  obtain b w1 where b: "query_begin env ctx args prepare w = (b, w1)" by fastforce
  show ?thesis
  proof (cases b)
    case (Inl e)
    then have "w1 = w" using b query_begin_Inl by blast
    with Inl b r show ?thesis by (auto simp: run_arrow_query_def)
  next
    case (Inr i)
    from query_begin_Inr [OF b [unfolded Inr]] obtain op named where p: "prepare = Inr op" "i = qw_next w"
      "normalize_named_value_slice env args = Inr named"
      and w1: "w1 = w\<lparr>qw_next := qw_next w + 1, qw_queries := (qw_queries w)(qw_next w \<mapsto> QueryWaiting op named),
           qw_temps := (if qo_closes op then insert (qw_next w) (qw_temps w) else qw_temps w)\<rparr>" by auto
    have q: "qw_queries w1 i = Some (QueryWaiting op named)" by (simp add: w1 p)
    obtain a held where a: "acquire_lock ctx2 choice op (qw_held w) = Some (a, held)"
      using r b Inr q by (auto simp: run_arrow_query_def query_lock_def w1 split: option.splits)
    from acquire_lock_cases [OF a] show ?thesis
    proof (elim disjE exE conjE)
      fix e assume e: "a = Inl e" "held = qw_held w"
      with r b Inr q a have "res = Inl e" "v = query_end i op (w1\<lparr>qw_held := held\<rparr>)"
        by (auto simp: run_arrow_query_def query_lock_def w1)
      with e nq nt show ?thesis by (auto simp: w1 p)
    next
      assume l: "a = Inr (operation_lock op)"
        and held: "case operation_lock op of None \<Rightarrow> held = qw_held w | Some l \<Rightarrow> \<not> qw_held w l \<and> held = (qw_held w)(l := True)"
      let ?w2 = "w1\<lparr>qw_held := held, qw_queries := (qw_queries w1)(i \<mapsto> QueryRunning op named (operation_lock op))\<rparr>"
      from r b Inr q a l have x: "query_execute execute i op named (operation_lock op) ?w2 = Some (res, v)"
        by (simp add: run_arrow_query_def query_lock_def w1)
      show ?thesis
      proof (cases "execute named")
        case (Inl e)
        with x obtain h where h: "release_lock (operation_lock op) held = Some h" "v = query_end i op (?w2\<lparr>qw_held := h\<rparr>)"
          "\<exists>e. res = Inl e" by (auto simp: query_execute_def execute_native_statement_def)
        have "h = qw_held w"
          using release_lock_held [OF h(1)] held by (cases "operation_lock op") (auto simp: fun_upd_idem)
        with h nq nt show ?thesis by (auto simp: w1 p)
      next
        case (Inr rd)
        with x have v: "res = Inr i" "v = query_end i op (?w2\<lparr>qw_results := (qw_results ?w2)(i \<mapsto>
            new_serialized_reader rd (operation_lock op))\<rparr>)"
          by (simp_all add: query_execute_def execute_native_statement_def)
        show ?thesis using held nq nt Inr by (intro disjI2) (auto simp: v p w1)
      qed
    qed
  qed
qed

subsection \<open>Rows\<close>

text \<open>\<^verbatim>\<open>queryRows\<close>: the reader goes to the rows, or is closed.\<close>

definition query_rows :: "arrow_env \<Rightarrow> arrow_reader \<Rightarrow> (go_error + rows) \<times> arrow_reader option" where
  "query_rows env reader =
     (case new_rows env reader of
        Inl e \<Rightarrow> (Inl (driver_error ErrorScan ''could not create DataFusion rows'' (Some e)), Some (close_reader reader))
      | Inr r \<Rightarrow> (Inr r, None))"

subsection \<open>Statements in sequence\<close>

text \<open>\<^verbatim>\<open>ExecStatements\<close>, over an execer that is any function of its own state.\<close>

fun exec_statements_loop ::
  "(string \<Rightarrow> 's \<Rightarrow> go_error option \<times> 's) \<Rightarrow> nat \<Rightarrow> string list \<Rightarrow> 's \<Rightarrow> go_error option \<times> 's" where
  "exec_statements_loop execer i [] s = (None, s)"
| "exec_statements_loop execer i (statement # rest) s =
     (if trim_space statement = [] then exec_statements_loop execer (i + 1) rest s
      else case execer statement s of
        (Some e, t) \<Rightarrow> (Some (Wrapped (''datafusion statement '' @ show_nat (i + 1)) e), t)
      | (None, t) \<Rightarrow> exec_statements_loop execer (i + 1) rest t)"

definition exec_statements ::
  "(string \<Rightarrow> 's \<Rightarrow> go_error option \<times> 's) \<Rightarrow> string list \<Rightarrow> 's \<Rightarrow> go_error option \<times> 's" where
  "exec_statements execer statements s = exec_statements_loop execer 0 statements s"

lemma exec_statements_loop_append:
  "exec_statements_loop execer i (xs @ ys) s =
     (case exec_statements_loop execer i xs s of
        (Some e, t) \<Rightarrow> (Some e, t)
      | (None, t) \<Rightarrow> exec_statements_loop execer (i + length xs) ys t)"
  by (induction xs arbitrary: i s) (auto split: prod.splits option.splits)

lemma exec_statements_loop_failed:
  assumes "exec_statements_loop execer i xs s = (Some e, t)"
  shows "\<exists>k < length xs. \<exists>d u. trim_space (xs ! k) \<noteq> [] \<and> exec_statements_loop execer i (take k xs) s = (None, u) \<and>
    execer (xs ! k) u = (Some d, t) \<and> e = Wrapped (''datafusion statement '' @ show_nat (i + k + 1)) d"
  using assms
proof (induction xs arbitrary: i s)
  case (Cons x xs)
  show ?case
  proof (cases "trim_space x = []")
    case True
    with Cons.prems have "exec_statements_loop execer (i + 1) xs s = (Some e, t)" by simp
    from Cons.IH [OF this] obtain k d u where k: "k < length xs" "trim_space (xs ! k) \<noteq> []"
      "exec_statements_loop execer (i + 1) (take k xs) s = (None, u)" "execer (xs ! k) u = (Some d, t)"
      "e = Wrapped (''datafusion statement '' @ show_nat (i + 1 + k + 1)) d" by auto
    with True show ?thesis by (intro exI [of _ "Suc k"]) auto
  next
    case False
    obtain r v where x: "execer x s = (r, v)" by fastforce
    show ?thesis
    proof (cases r)
      case (Some d)
      with x False Cons.prems show ?thesis by (intro exI [of _ 0]) auto
    next
      case None
      with x False Cons.prems have "exec_statements_loop execer (i + 1) xs v = (Some e, t)" by simp
      from Cons.IH [OF this] obtain k d u where k: "k < length xs" "trim_space (xs ! k) \<noteq> []"
        "exec_statements_loop execer (i + 1) (take k xs) v = (None, u)" "execer (xs ! k) u = (Some d, t)"
        "e = Wrapped (''datafusion statement '' @ show_nat (i + 1 + k + 1)) d" by auto
      with x None False show ?thesis by (intro exI [of _ "Suc k"]) auto
    qed
  qed
qed simp

subsection \<open>Registering a reader as a table\<close>

text \<open>
  The import under construction on the native side: open until closed, the chunks appended, published or not.
  The IPC writer's errors and bytes, the native answers and the context's, by the number of earlier looks at it,
  are the environment.
\<close>

record importer =
  im_open :: bool
  im_chunks :: "string list"
  im_committed :: bool

record import_env =
  ie_write :: "schema option \<Rightarrow> batch \<Rightarrow> go_error option"
  ie_finish :: "schema option \<Rightarrow> batch option \<Rightarrow> go_error option"
  ie_bytes :: "schema option \<Rightarrow> batch option \<Rightarrow> string"
  ie_append :: "nat \<Rightarrow> go_error option"
  ie_ctx :: "nat \<Rightarrow> go_error option"
  ie_conn :: "go_error option"
  ie_commit :: "go_error option"

definition import_append :: "go_error option \<Rightarrow> string \<Rightarrow> importer \<Rightarrow> go_error option \<times> importer" where
  "import_append ans data im =
     (if \<not> im_open im then (Some (Plain ''datafusion-go import is closed''), im)
      else case ans of Some e \<Rightarrow> (Some e, im) | None \<Rightarrow> (None, im\<lparr>im_chunks := im_chunks im @ [data]\<rparr>))"

definition import_commit :: "go_error option \<Rightarrow> importer \<Rightarrow> go_error option \<times> importer" where
  "import_commit ans im =
     (if \<not> im_open im then (Some (Plain ''datafusion-go import is closed''), im)
      else case ans of Some e \<Rightarrow> (Some e, im) | None \<Rightarrow> (None, im\<lparr>im_committed := True\<rparr>))"

definition import_close :: "importer \<Rightarrow> importer" where
  "import_close im = im\<lparr>im_open := False\<rparr>"

definition append_batch ::
  "import_env \<Rightarrow> schema option \<Rightarrow> batch option \<Rightarrow> importer \<Rightarrow> go_error option \<times> importer" where
  "append_batch env sch b im =
     (case (case b of None \<Rightarrow> None | Some rec \<Rightarrow> ie_write env sch rec) of
        Some e \<Rightarrow> (Some e, im)
      | None \<Rightarrow> (case ie_finish env sch b of
            Some e \<Rightarrow> (Some e, im)
          | None \<Rightarrow> import_append (ie_append env (length (im_chunks im))) (ie_bytes env sch b) im))"

definition commit_import :: "import_env \<Rightarrow> nat \<Rightarrow> importer \<Rightarrow> go_error option \<times> importer" where
  "commit_import env n im =
     (case ie_conn env of Some e \<Rightarrow> (Some e, im)
      | None \<Rightarrow> (case ie_ctx env n of Some e \<Rightarrow> (Some e, im) | None \<Rightarrow> import_commit (ie_commit env) im))"

fun import_loop ::
  "import_env \<Rightarrow> 's reader_ops \<Rightarrow> schema option \<Rightarrow> nat \<Rightarrow> nat \<Rightarrow> 's \<Rightarrow> importer \<Rightarrow> (go_error option \<times> importer) option" where
  "import_loop env ops sch 0 n s im = None"
| "import_loop env ops sch (Suc fuel) n s im =
     (case op_next ops s of
        (False, t) \<Rightarrow> Some (case op_err ops t of
            Some e \<Rightarrow> (Some e, im)
          | None \<Rightarrow> (case ie_ctx env n of Some e \<Rightarrow> (Some e, im) | None \<Rightarrow> commit_import env (n + 1) im))
      | (True, t) \<Rightarrow> (case ie_ctx env n of
            Some e \<Rightarrow> Some (Some e, im)
          | None \<Rightarrow> (case append_batch env sch (op_batch ops t) im of
                (Some e, im1) \<Rightarrow> Some (Some e, im1)
              | (None, im1) \<Rightarrow> import_loop env ops sch fuel (n + 1) t im1)))"

definition import_arrow_reader ::
  "import_env \<Rightarrow> 's reader_ops \<Rightarrow> nat \<Rightarrow> 's \<Rightarrow> importer \<Rightarrow> (go_error option \<times> importer) option" where
  "import_arrow_reader env ops fuel s im =
     (case append_batch env (op_schema ops s) None im of
        (Some e, im1) \<Rightarrow> Some (Some e, im1)
      | (None, im1) \<Rightarrow> import_loop env ops (op_schema ops s) fuel 0 s im1)"

definition validate_arrow_registration ::
  "go_error option \<Rightarrow> bool \<Rightarrow> string \<Rightarrow> 's reader_ops \<Rightarrow> 's option \<Rightarrow> go_error option" where
  "validate_arrow_registration ctx has_conn name ops reader =
     (case ctx of Some e \<Rightarrow> Some e | None \<Rightarrow>
      if \<not> has_conn then Some (Plain ''datafusion sql connection is nil'')
      else if name = [] then Some (Plain ''datafusion arrow table name is empty'')
      else case reader of None \<Rightarrow> Some (Plain ''datafusion arrow reader is nil'')
      | Some s \<Rightarrow> (case op_schema ops s of None \<Rightarrow> Some (Plain ''datafusion arrow reader schema is nil'') | Some sch \<Rightarrow> None))"

text \<open>\<^verbatim>\<open>RegisterArrowReader\<close>; \<open>opened\<close> is the answer of \<^verbatim>\<open>NewImport\<close>.  The deferred close runs on every path.\<close>

definition register_arrow_reader ::
  "import_env \<Rightarrow> go_error option \<Rightarrow> bool \<Rightarrow> go_error option \<Rightarrow> string \<Rightarrow> 's reader_ops \<Rightarrow> nat \<Rightarrow> 's option \<Rightarrow>
   (go_error option \<times> importer option) option" where
  "register_arrow_reader env ctx has_conn opened name ops fuel reader =
     (case validate_arrow_registration ctx has_conn name ops reader of
        Some e \<Rightarrow> Some (Some e, None)
      | None \<Rightarrow> (case opened of
          Some e \<Rightarrow> Some (Some e, None)
        | None \<Rightarrow> map_option (\<lambda>(res, im). (res, Some (import_close im)))
            (import_arrow_reader env ops fuel (the reader) \<lparr>im_open = True, im_chunks = [], im_committed = False\<rparr>)))"

lemma import_append_frame:
  "import_append ans d im = (res, im1) \<Longrightarrow> im_open im1 = im_open im \<and> im_committed im1 = im_committed im \<and>
     (res = None \<longrightarrow> im_chunks im1 = im_chunks im @ [d])"
  by (auto simp: import_append_def split: if_splits option.splits)

lemma append_batch_frame:
  assumes "append_batch env sch b im = (res, im1)"
  shows "im_open im1 = im_open im \<and> im_committed im1 = im_committed im \<and>
     (res = None \<longrightarrow> im_chunks im1 = im_chunks im @ [ie_bytes env sch b])"
proof -
  define wr where "wr = (case b of None \<Rightarrow> None | Some rec \<Rightarrow> ie_write env sch rec)"
  have a: "(case wr of Some e \<Rightarrow> (Some e, im) | None \<Rightarrow> (case ie_finish env sch b of Some e \<Rightarrow> (Some e, im)
      | None \<Rightarrow> import_append (ie_append env (length (im_chunks im))) (ie_bytes env sch b) im)) = (res, im1)"
    using assms by (simp add: append_batch_def wr_def)
  show ?thesis
  proof (cases "wr = None \<and> ie_finish env sch b = None")
    case True
    with a have "import_append (ie_append env (length (im_chunks im))) (ie_bytes env sch b) im = (res, im1)" by simp
    then show ?thesis by (rule import_append_frame)
  next
    case False
    with a have "res \<noteq> None \<and> im1 = im" by (cases wr; cases "ie_finish env sch b") auto
    then show ?thesis by simp
  qed
qed

lemma commit_import_frame:
  "commit_import env n im = (res, im1) \<Longrightarrow> im_chunks im1 = im_chunks im \<and>
     (im_committed im1 \<longleftrightarrow> im_committed im \<or> res = None)"
  by (auto simp: commit_import_def import_commit_def split: option.splits if_splits)

text \<open>The loop against the stream: it returns whenever the reader drains, and publishes all of it or nothing.\<close>

lemma import_loop_drain:
  assumes "drain ops fuel s = Some (bs, e)"
  shows "\<exists>res im1. import_loop env ops sch fuel n s im = Some (res, im1) \<and>
    (im_committed im1 \<longleftrightarrow> im_committed im \<or> res = None) \<and>
    (res = None \<longrightarrow> e = None \<and> im_chunks im1 = im_chunks im @ map (ie_bytes env sch) bs)"
  using assms
proof (induction fuel arbitrary: s bs n im)
  case (Suc fuel)
  obtain more t where nx: "op_next ops s = (more, t)" by fastforce
  show ?case
  proof (cases more)
    case False
    with Suc.prems nx have d: "bs = []" "e = op_err ops t" by auto
    obtain res im1 where c: "commit_import env (n + 1) im = (res, im1)" by fastforce
    show ?thesis using d nx False c commit_import_frame [OF c] by (auto split: option.splits)
  next
    case True
    with Suc.prems nx obtain cs where d: "drain ops fuel t = Some (cs, e)" "bs = op_batch ops t # cs"
      by (auto split: option.splits)
    obtain res im1 where a: "append_batch env sch (op_batch ops t) im = (res, im1)" by fastforce
    note f = append_batch_frame [OF a]
    show ?thesis
    proof (cases "ie_ctx env n = None \<and> res = None")
      case c: True
      with Suc.IH [OF d(1), of "n + 1" im1] f d(2) nx True a show ?thesis by (auto simp del: One_nat_def)
    next
      case False
      with nx True a f show ?thesis by (auto split: option.splits)
    qed
  qed
qed simp

subsection \<open>Properties\<close>

text \<open>C3: In every interleaving of queries, reads and closes, a serialization lock is held exactly while one
  query or one unclosed result holds it: two serialized statements of the same session never overlap,
  and no lock is lost.\<close>

theorem serialization_lock_has_one_holder:
  assumes "query_reachable w"
  shows "qw_held w l \<longleftrightarrow> (\<exists>!h. holds w h = Some l)"
  using query_invD(1) [OF query_inv_reachable [OF assms]] unfolding exclusive_def by metis

text \<open>C7: A query that fails in any of its phases leaves no trace: locks, temporary statements, queries in
  progress and results are what they were before.\<close>

theorem failed_query_leaves_no_trace:
  assumes w: "query_reachable w"
    and r: "run_arrow_query env ctx args prepare ctx2 choice execute w = Some (Inl e, v)"
  shows "qw_held v = qw_held w \<and> qw_temps v = qw_temps w \<and> qw_queries v = qw_queries w \<and> qw_results v = qw_results w"
  using run_arrow_query_cases [OF query_inv_reachable [OF w] r] by auto


text \<open>No deadlock between a waiting statement and a result: while the result is unclosed the statement waits,
  and once the result is closed a statement whose context is alive gets the lock.\<close>

theorem closing_result_admits_waiter:
  assumes w: "query_reachable w"
    and j: "holds w (HoldResult j) = Some l"
    and i: "qw_queries w i = Some (QueryWaiting op named)" "operation_lock op = Some l"
  shows "query_lock None (SelectSend c) i op named w = None \<and>
    (\<exists>v u. result_close err j w = Some (err, v) \<and>
       query_lock None (SelectSend None) i op named v = Some (Inr (Some l), u) \<and> holds u (HoldQuery i) = Some l)"
proof -
  have h: "qw_held w l" using exclusiveD(1) [OF query_invD(1) [OF query_inv_reachable [OF w]] j] .
  have a: "acquire_lock ctx choice op held = lock_at ctx choice l held" for ctx choice held
    using i(2) by (auto simp: acquire_lock_def lock_serialized_statement_def isolated_connector_def operation_lock_def
        split: if_splits option.splits)
  from j obtain r where r: "qw_results w j = Some r" "\<not> sr_once r" "sr_unlock r = Some l"
    by (auto simp: result_lock_def split: option.splits if_splits)
  have "query_lock None (SelectSend c) i op named w = None"
    using h by (simp add: query_lock_def a lock_at_def mutex_lock_def)
  moreover obtain v where v: "result_close err j w = Some (err, v)" "qw_held v = (qw_held w)(l := False)"
    using r h by (simp add: result_close_def serialized_close_def release_lock_def mutex_unlock_def)
  moreover have "query_lock None (SelectSend None) i op named v =
      Some (Inr (Some l), v\<lparr>qw_held := (qw_held v)(l := True),
        qw_queries := (qw_queries v)(i \<mapsto> QueryRunning op named (Some l))\<rparr>)"
    using v(2) by (simp add: query_lock_def a lock_at_def mutex_lock_def)
  ultimately show ?thesis by auto
qed

text \<open>Adapting a result to database/sql either moves the untouched reader into the rows or closes it once.\<close>

theorem query_rows_owns_reader:
  "case query_rows env reader of
     (Inr r, None) \<Rightarrow> rw_reader r = reader \<and> \<not> rw_closed r
   | (Inl e, Some s) \<Rightarrow> error_type_of e = Some ErrorScan \<and> rd_closes s = rd_closes reader + 1 \<and> rd_reads s = rd_reads reader
   | _ \<Rightarrow> False"
proof (cases "new_rows env reader")
  case (Inl e)
  then show ?thesis by (simp add: query_rows_def close_reader_def)
next
  case (Inr r)
  then have "rw_reader r = reader \<and> \<not> rw_closed r"
    by (auto simp: new_rows_def init_metadata_def res_simps split: option.splits)
  with Inr show ?thesis by (simp add: query_rows_def)
qed

text \<open>Running statements in order: a failure is reported with the position of the statement that failed,
  after exactly the statements before it succeeded, and nothing after it runs; blank statements never run.\<close>

theorem exec_statements_stops_at_failure:
  assumes "exec_statements execer xs s = (Some e, t)"
  shows "\<exists>k < length xs. \<exists>d u. trim_space (xs ! k) \<noteq> [] \<and> exec_statements execer (take k xs) s = (None, u) \<and>
    execer (xs ! k) u = (Some d, t) \<and> e = Wrapped (''datafusion statement '' @ show_nat (k + 1)) d"
  using exec_statements_loop_failed [of execer 0 xs s e t] assms by (simp add: exec_statements_def)

text \<open>C36: Registering a reader that drains always returns and closes its import; the table is published
  exactly when it reports success, and then from the schema and every batch of the reader, whose own
  error would have failed the registration.\<close>

theorem register_arrow_reader_atomic:
  assumes d: "drain ops fuel s = Some (bs, e)"
  shows "\<exists>res im. register_arrow_reader env ctx has_conn opened name ops fuel (Some s) = Some (res, im) \<and>
    (case im of
       None \<Rightarrow> res \<noteq> None
     | Some i \<Rightarrow> \<not> im_open i \<and> (im_committed i \<longleftrightarrow> res = None) \<and>
         (im_committed i \<longrightarrow> e = None \<and> im_chunks i = map (ie_bytes env (op_schema ops s)) (None # bs)))"
proof -
  let ?im = "\<lparr>im_open = True, im_chunks = [], im_committed = False\<rparr>" and ?sch = "op_schema ops s"
  show ?thesis
  proof (cases "validate_arrow_registration ctx has_conn name ops (Some s) = None \<and> opened = None")
    case True
    obtain r im1 where a: "append_batch env ?sch None ?im = (r, im1)" by fastforce
    note f = append_batch_frame [OF a]
    show ?thesis
    proof (cases r)
      case (Some x)
      with True a f show ?thesis by (simp add: register_arrow_reader_def import_arrow_reader_def import_close_def)
    next
      case None
      from import_loop_drain [OF d, of env ?sch 0 im1] obtain res im2 where l:
        "import_loop env ops ?sch fuel 0 s im1 = Some (res, im2)" "im_committed im2 \<longleftrightarrow> im_committed im1 \<or> res = None"
        "res = None \<longrightarrow> e = None \<and> im_chunks im2 = im_chunks im1 @ map (ie_bytes env ?sch) bs" by auto
      with True a f None show ?thesis by (simp add: register_arrow_reader_def import_arrow_reader_def import_close_def)
    qed
  next
    case False
    then show ?thesis
      by (cases "validate_arrow_registration ctx has_conn name ops (Some s)"; cases opened)
         (simp_all add: register_arrow_reader_def)
  qed
qed

subsection \<open>A concrete execution\<close>

definition sample_operation :: query_operation where
  "sample_operation = \<lparr>qo_connector = Some (0, True), qo_connection = 7, qo_serializes = True, qo_closes = True\<rparr>"

definition sample_busy :: query_world where
  "sample_busy = \<lparr>qw_next = 1, qw_held = (\<lambda>_. False)(ConnectorLock 0 := True), qw_queries = (\<lambda>_. None)(0 := None),
     qw_temps = {}, qw_results = [0 \<mapsto> new_serialized_reader sample_reader (Some (ConnectorLock 0))]\<rparr>"

definition sample_waiting :: query_world where
  "sample_waiting = snd (query_begin sample_param_env None [] (Inr sample_operation) sample_busy)"

lemma normalize_empty: "normalize_named_value_slice env [] = Inr []"
  by (simp add: normalize_named_value_slice_def)

lemma sample_run:
  "run_arrow_query sample_param_env None [] (Inr sample_operation) None (SelectSend None) (\<lambda>_. Inr sample_reader) query_start =
     Some (Inr 0, sample_busy)"
  by (simp add: run_arrow_query_def query_begin_def normalize_empty query_start_def query_lock_def acquire_lock_def
      isolated_connector_def lock_serialized_statement_def lock_at_def mutex_lock_def query_execute_def
      execute_native_statement_def query_end_def sample_operation_def sample_busy_def)

lemma sample_busy_reachable: "query_reachable sample_busy"
proof -
  let ?w1 = "snd (query_begin sample_param_env None [] (Inr sample_operation) query_start)"
  let ?w2 = "?w1\<lparr>qw_held := (\<lambda>_. False)(ConnectorLock 0 := True),
    qw_queries := [0 \<mapsto> QueryRunning sample_operation [] (Some (ConnectorLock 0))]\<rparr>"
  have r1: "query_reachable ?w1" by (rule query_reachable.step [OF query_reachable.start query_step.begin_query])
  have q1: "qw_queries ?w1 0 = Some (QueryWaiting sample_operation [])"
    by (simp add: query_begin_def normalize_empty query_start_def)
  have "query_lock None (SelectSend None) 0 sample_operation [] ?w1 = Some (Inr (Some (ConnectorLock 0)), ?w2)"
    by (simp add: query_begin_def normalize_empty query_start_def query_lock_def acquire_lock_def isolated_connector_def
        lock_serialized_statement_def lock_at_def mutex_lock_def sample_operation_def)
  from query_reachable.step [OF r1 query_step.lock_query, OF q1 this] have r2: "query_reachable ?w2" .
  have q2: "qw_queries ?w2 0 = Some (QueryRunning sample_operation [] (Some (ConnectorLock 0)))" by simp
  have "query_execute (\<lambda>_. Inr sample_reader) 0 sample_operation [] (Some (ConnectorLock 0)) ?w2 = Some (Inr 0, sample_busy)"
    by (simp add: query_execute_def execute_native_statement_def query_end_def sample_busy_def query_begin_def
        normalize_empty query_start_def sample_operation_def)
  from query_reachable.step [OF r2 query_step.execute_query, OF q2 this] show ?thesis .
qed

lemma sample_waiting_reachable: "query_reachable sample_waiting"
  unfolding sample_waiting_def by (rule query_reachable.step [OF sample_busy_reachable query_step.begin_query])

lemma serialization_lock_has_one_holder_witness: "\<exists>!h. holds sample_busy h = Some (ConnectorLock 0)"
  using serialization_lock_has_one_holder [OF sample_busy_reachable, of "ConnectorLock 0"] by (simp add: sample_busy_def)

lemma failed_query_leaves_no_trace_witness:
  "qw_temps (snd (the (run_arrow_query sample_param_env None [] (Inr sample_operation) None
     (SelectDone (Sentinel ContextCanceled)) (\<lambda>_. Inr sample_reader) sample_busy))) = qw_temps sample_busy"
proof -
  have "\<exists>v. run_arrow_query sample_param_env None [] (Inr sample_operation) None
      (SelectDone (Sentinel ContextCanceled)) (\<lambda>_. Inr sample_reader) sample_busy = Some (Inl (Sentinel ContextCanceled), v)"
    by (simp add: run_arrow_query_def query_begin_def normalize_empty query_lock_def acquire_lock_def
        isolated_connector_def lock_serialized_statement_def lock_at_def mutex_lock_def sample_operation_def)
  then obtain v where v: "run_arrow_query sample_param_env None [] (Inr sample_operation) None
      (SelectDone (Sentinel ContextCanceled)) (\<lambda>_. Inr sample_reader) sample_busy = Some (Inl (Sentinel ContextCanceled), v)" ..
  from failed_query_leaves_no_trace [OF sample_busy_reachable v] show ?thesis by (simp add: v)
qed


lemma closing_result_admits_waiter_witness:
  "query_lock None (SelectSend None) 1 sample_operation [] sample_waiting = None"
proof -
  have "holds sample_waiting (HoldResult 0) = Some (ConnectorLock 0)"
    "qw_queries sample_waiting 1 = Some (QueryWaiting sample_operation [])"
    by (simp_all add: sample_waiting_def query_begin_def normalize_empty sample_busy_def result_lock_def
        new_serialized_reader_def)
  moreover have "operation_lock sample_operation = Some (ConnectorLock 0)"
    by (simp add: operation_lock_def sample_operation_def)
  ultimately show ?thesis
    using closing_result_admits_waiter [OF sample_waiting_reachable] by blast
qed

lemma exec_statements_stops_at_failure_witness:
  "\<exists>k < length ['' '', ''a'', ''b'']. trim_space (['' '', ''a'', ''b''] ! k) \<noteq> []"
proof -
  have "exec_statements (\<lambda>st n. (if st = ''b'' then Some (Plain ''no'') else None, Suc n)) ['' '', ''a'', ''b''] 0 =
      (Some (Wrapped (''datafusion statement 3'') (Plain ''no'')), 2)" by code_simp
  from exec_statements_stops_at_failure [OF this] show ?thesis by blast
qed

definition sample_import :: import_env where
  "sample_import = \<lparr>ie_write = (\<lambda>_ _. None), ie_finish = (\<lambda>_ _. None),
     ie_bytes = (\<lambda>_ b. case b of None \<Rightarrow> ''schema'' | Some x \<Rightarrow> ''batch''), ie_append = (\<lambda>_. None), ie_ctx = (\<lambda>_. None),
     ie_conn = None, ie_commit = None\<rparr>"

lemma register_arrow_reader_atomic_witness:
  "\<exists>im. register_arrow_reader sample_import None True None ''t'' source_ops 3 (Some two_column_source) = Some (None, Some im) \<and>
     im_chunks im = [''schema'', ''batch'', ''batch''] \<and> im_committed im \<and> \<not> im_open im"
proof -
  have d: "drain source_ops 3 two_column_source = Some ([Some two_columns, Some two_columns], None)"
    by (simp add: eval_nat_numeral source_ops_def source_next_def two_column_source_def)
  obtain im where r: "register_arrow_reader sample_import None True None ''t'' source_ops 3 (Some two_column_source) =
      Some (None, Some im)"
    by (simp add: register_arrow_reader_def validate_arrow_registration_def import_arrow_reader_def append_batch_def
        sample_import_def import_append_def
        eval_nat_numeral source_ops_def source_next_def two_column_source_def commit_import_def import_commit_def)
  from register_arrow_reader_atomic [OF d, of sample_import None True None "''t''"] r show ?thesis
    by (simp add: sample_import_def)
qed

end
