(* ===== verification/NativeExec.thy ===== *)
theory NativeExec
  imports Params ArrowModel
begin

text \<open>
  Native execution (\<^verbatim>\<open>internal/native/native.go\<close>): \<^verbatim>\<open>ExecuteArrow\<close> with everything it
  acquires and frees on each path, the result reader it returns, and the calls that open and check the library.
  The native functions are C; what they answer is an argument.  Every C resource of one execution is
  tracked: a second free, a use after free or a second acquisition sets \<open>nw_bad\<close>.
\<close>

subsection \<open>C resources\<close>

datatype resource = ResToken | ResResult | ResStreamMem | ResStreamData | ResArray | ResSchema | ResDone

datatype res_state = Absent | Live | Freed

record native_world =
  nw_res :: "resource \<Rightarrow> res_state"
  nw_bad :: bool
  nw_heap :: c_heap

definition acquire :: "resource \<Rightarrow> native_world \<Rightarrow> native_world" where
  "acquire r w = w\<lparr>nw_res := (nw_res w)(r := Live), nw_bad := nw_bad w \<or> nw_res w r \<noteq> Absent\<rparr>"

definition release :: "resource \<Rightarrow> native_world \<Rightarrow> native_world" where
  "release r w = w\<lparr>nw_res := (nw_res w)(r := Freed), nw_bad := nw_bad w \<or> nw_res w r \<noteq> Live\<rparr>"

definition touch :: "resource \<Rightarrow> native_world \<Rightarrow> native_world" where
  "touch r w = w\<lparr>nw_bad := nw_bad w \<or> nw_res w r \<noteq> Live\<rparr>"

lemma resource_simps [simp]:
  "nw_res (acquire r w) = (nw_res w)(r := Live)" "nw_bad (acquire r w) \<longleftrightarrow> nw_bad w \<or> nw_res w r \<noteq> Absent"
  "nw_heap (acquire r w) = nw_heap w"
  "nw_res (release r w) = (nw_res w)(r := Freed)" "nw_bad (release r w) \<longleftrightarrow> nw_bad w \<or> nw_res w r \<noteq> Live"
  "nw_heap (release r w) = nw_heap w"
  "nw_res (touch r w) = nw_res w" "nw_bad (touch r w) \<longleftrightarrow> nw_bad w \<or> nw_res w r \<noteq> Live" "nw_heap (touch r w) = nw_heap w"
  by (simp_all add: acquire_def release_def touch_def)

subsection \<open>Errors of native calls\<close>

text \<open>A C error: none, or one with a kind and a message that may each be null.\<close>

type_synonym c_error = "(string option \<times> string option) option"

datatype c_status = StateOk | StateFail c_error

definition take_error :: "c_error \<Rightarrow> go_error" where
  "take_error cerr =
     (case cerr of
        None \<Rightarrow> Plain ''datafusion-go native call failed without an error message''
      | Some (kind, message) \<Rightarrow> (case message of
            None \<Rightarrow> Plain ''datafusion-go native call failed without an error message''
          | Some m \<Rightarrow> NativeError (case kind of None \<Rightarrow> '''' | Some k \<Rightarrow> k) m))"

definition context_error :: "go_error option \<Rightarrow> go_error \<Rightarrow> go_error" where
  "context_error ctx e = (case ctx of None \<Rightarrow> e | Some c \<Rightarrow> c)"

definition stream_error :: "int \<Rightarrow> string option \<Rightarrow> go_error" where
  "stream_error errno msg = Plain (''arrow stream failed with errno '' @ show_int errno @
     (case msg of None \<Rightarrow> '''' | Some m \<Rightarrow> '': '' @ m))"

text \<open>The methods of \<^verbatim>\<open>*Error\<close>; a nil error prints as such and has no kind.\<close>

definition native_error_text :: "(string \<times> string) option \<Rightarrow> string" where
  "native_error_text e = (case e of None \<Rightarrow> ''<nil>'' | Some (kind, message) \<Rightarrow> message)"

definition native_error_kind :: "(string \<times> string) option \<Rightarrow> string" where
  "native_error_kind e = (case e of None \<Rightarrow> [] | Some (kind, message) \<Rightarrow> kind)"

subsection \<open>The C stream interface\<close>

text \<open>
  The shims over the Arrow C structures, which may be null and hold function pointers that may be null.  A function pointer is
  what its call answers; a release clears its own pointer, as the interface demands, and is counted.
\<close>

record c_stream =
  cst_get_schema :: "int option"
  cst_get_next :: "int option"
  cst_last_error :: "string option option"
  cst_release :: bool
  cst_released :: nat

record c_array =
  car_release :: bool
  car_released :: nat

definition c_stream_get_schema :: "c_stream option \<Rightarrow> int" where
  "c_stream_get_schema s = (case Option.bind s cst_get_schema of None \<Rightarrow> - 1 | Some r \<Rightarrow> r)"

definition c_stream_get_next :: "c_stream option \<Rightarrow> int" where
  "c_stream_get_next s = (case Option.bind s cst_get_next of None \<Rightarrow> - 1 | Some r \<Rightarrow> r)"

definition c_stream_get_last_error :: "c_stream option \<Rightarrow> string option" where
  "c_stream_get_last_error s = (case Option.bind s cst_last_error of None \<Rightarrow> Some ''arrow stream is closed'' | Some m \<Rightarrow> m)"

definition c_stream_release :: "c_stream option \<Rightarrow> c_stream option" where
  "c_stream_release s =
     (case s of None \<Rightarrow> None
      | Some x \<Rightarrow> Some (if cst_release x then x\<lparr>cst_release := False, cst_released := cst_released x + 1\<rparr> else x))"

definition c_array_is_released :: "c_array option \<Rightarrow> bool" where
  "c_array_is_released a = (case a of None \<Rightarrow> True | Some x \<Rightarrow> \<not> car_release x)"

definition c_array_release :: "c_array option \<Rightarrow> c_array option" where
  "c_array_release a =
     (case a of None \<Rightarrow> None
      | Some x \<Rightarrow> Some (if car_release x then x\<lparr>car_release := False, car_released := car_released x + 1\<rparr> else x))"

text \<open>An array or stream is released once, however often the shim is called, and an array counts as released from then on.\<close>

lemma c_release_once:
  "c_array_release (c_array_release a) = c_array_release a" "c_array_is_released (c_array_release a)"
  "c_stream_release (c_stream_release s) = c_stream_release s"
  by (simp_all add: c_array_release_def c_array_is_released_def c_stream_release_def split: option.split)

subsection \<open>Opening the library\<close>

definition check_native_version :: "int \<Rightarrow> string \<Rightarrow> int \<Rightarrow> string option \<Rightarrow> go_error option" where
  "check_native_version abi_version datafusion_version got_abi got_version =
     (if got_abi \<noteq> abi_version
      then Some (Plain (''datafusion-go native ABI version mismatch: got '' @ show_int got_abi @ '', want '' @ show_int abi_version))
      else case got_version of
        None \<Rightarrow> Some (Plain ''datafusion-go native DataFusion version is null'')
      | Some v \<Rightarrow> if v \<noteq> datafusion_version
          then Some (Plain (''datafusion-go native DataFusion version mismatch: got '' @ v @ '', want '' @ datafusion_version))
          else None)"

text \<open>The load runs once; every later call answers as the first did.\<close>

definition load_native_library :: "bool \<Rightarrow> go_error + string \<Rightarrow> (string \<Rightarrow> string option) \<Rightarrow> go_error option" where
  "load_native_library dynamic resolved load =
     (if \<not> dynamic then None
      else case resolved of
        Inl e \<Rightarrow> Some e
      | Inr path \<Rightarrow> (case load path of
            None \<Rightarrow> None
          | Some m \<Rightarrow> Some (Plain (''could not load datafusion-go native library '' @ path @ '': '' @ m))))"

definition ensure_native_library_loaded :: "go_error option option \<Rightarrow> go_error option \<Rightarrow> go_error option \<times> go_error option option" where
  "ensure_native_library_loaded once first = (case once of Some r \<Rightarrow> (r, once) | None \<Rightarrow> (first, Some first))"

subsection \<open>Executing a statement\<close>

text \<open>What one call of the stream answers: an error, the end, or an array that may fail to import.\<close>

datatype stream_item = ItemError int "string option" string | ItemEnd | ItemArray "go_error + batch"

record exec_answers =
  xa_closed :: bool
  xa_ctx :: "go_error option"
  xa_num_input :: int
  xa_callbacks :: bool
  xa_token :: c_status
  xa_token_nil :: bool
  xa_set_go :: c_status
  xa_execute :: c_status
  xa_ctx2 :: "go_error option"
  xa_stream_ok :: bool
  xa_export :: c_status
  xa_array_ok :: bool
  xa_schema_errno :: "int option"
  xa_schema_msg :: "string option"
  xa_schema :: "go_error + arrow_field list"
  xa_script :: "stream_item list"

definition new_cancel_token ::
  "bool \<Rightarrow> c_status \<Rightarrow> bool \<Rightarrow> c_status \<Rightarrow> native_world \<Rightarrow> go_error option \<times> native_world" where
  "new_cancel_token callbacks create is_nil set_go w =
     (case create of
        StateFail e \<Rightarrow> (Some (take_error e), w)
      | StateOk \<Rightarrow>
          if is_nil then (Some (Plain ''datafusion-go native cancel token returned nil''), w)
          else let w1 = acquire ResToken w in
            if callbacks
            then (case set_go of StateFail e \<Rightarrow> (Some (take_error e), release ResToken w1) | StateOk \<Rightarrow> (None, w1))
            else (None, w1))"

text \<open>The reader: which of its pointers are not nil, and what its stream has left.\<close>

record result_reader =
  rr_schema :: "arrow_field list"
  rr_closed :: bool
  rr_result :: bool
  rr_array :: bool
  rr_stream :: bool
  rr_token :: bool
  rr_script :: "stream_item list"

definition new_result_reader :: "exec_answers \<Rightarrow> native_world \<Rightarrow> (go_error + result_reader) \<times> native_world" where
  "new_result_reader xa w =
     (if \<not> xa_array_ok xa then (Inl (Plain ''datafusion-go could not allocate Arrow array''), w)
      else let w1 = touch ResStreamData (acquire ResArray w) in
        case xa_schema_errno xa of
          Some errno \<Rightarrow> (Inl (stream_error errno (xa_schema_msg xa)), release ResArray w1)
        | None \<Rightarrow> (let w2 = acquire ResSchema w1 in
            case xa_schema xa of
              Inl e \<Rightarrow> (Inl e, release ResSchema (release ResArray w2))
            | Inr sch \<Rightarrow> (Inr \<lparr>rr_schema = sch, rr_closed = False, rr_result = True, rr_array = True, rr_stream = True,
                  rr_token = True, rr_script = xa_script xa\<rparr>, release ResSchema w2)))"

definition execute_params :: "exec_answers \<Rightarrow> c_param list \<Rightarrow> native_world \<Rightarrow> (go_error + result_reader) \<times> native_world" where
  "execute_params xa params w =
     (case new_cancel_token (xa_callbacks xa) (xa_token xa) (xa_token_nil xa) (xa_set_go xa) w of
        (Some e, w1) \<Rightarrow> (Inl e, w1)
      | (None, w1) \<Rightarrow>
          (let w2 = acquire ResDone w1 in
           case xa_execute xa of
             StateFail e \<Rightarrow> (Inl (context_error (xa_ctx2 xa) (take_error e)), release ResToken (release ResDone w2))
           | StateOk \<Rightarrow>
               (let w3 = acquire ResResult w2 in
                if \<not> xa_stream_ok xa
                then (Inl (Plain ''datafusion-go could not allocate Arrow stream''),
                      release ResToken (release ResResult (release ResDone w3)))
                else let w4 = acquire ResStreamMem w3 in
                  case xa_export xa of
                    StateFail e \<Rightarrow> (Inl (context_error (xa_ctx2 xa) (take_error e)),
                      release ResToken (release ResResult (release ResStreamMem (release ResDone w4))))
                  | StateOk \<Rightarrow>
                      (case new_result_reader xa (acquire ResStreamData w4) of
                         (Inl e, w6) \<Rightarrow> (Inl e, release ResToken (release ResResult (release ResStreamMem
                           (release ResStreamData (release ResDone w6)))))
                       | (Inr r, w6) \<Rightarrow> (Inr r, w6)))))"

text \<open>\<^verbatim>\<open>ExecuteArrow\<close>; the parameter buffers are freed when it returns.\<close>

definition execute_arrow ::
  "exec_answers \<Rightarrow> named_value list \<Rightarrow> native_world \<Rightarrow> (go_error + result_reader) \<times> native_world" where
  "execute_arrow xa args w =
     (if xa_closed xa then (Inl (Plain ''datafusion-go statement is closed''), w)
      else case xa_ctx xa of Some e \<Rightarrow> (Inl e, w) | None \<Rightarrow>
      (case check_arg_count (xa_num_input xa) args of Some e \<Rightarrow> (Inl e, w) | None \<Rightarrow>
      (case statement_params args (nw_heap w) of
         (Inl e, h) \<Rightarrow> (Inl e, w\<lparr>nw_heap := h\<rparr>)
       | (Inr (params, allocs), h) \<Rightarrow>
           (case execute_params xa params (w\<lparr>nw_heap := h\<rparr>) of
              (res, w1) \<Rightarrow> (res, w1\<lparr>nw_heap := c_free_all allocs (nw_heap w1)\<rparr>)))))"

subsection \<open>The result reader\<close>

definition token_cancel :: "result_reader \<Rightarrow> native_world \<Rightarrow> native_world" where
  "token_cancel r w = (if rr_token r then touch ResToken w else w)"

definition close_locked :: "result_reader \<Rightarrow> native_world \<Rightarrow> result_reader \<times> native_world" where
  "close_locked r w =
     (if rr_closed r then (r, w)
      else
        let w1 = release ResDone w;
            w2 = (if rr_result r then touch ResResult w1 else w1);
            w3 = (if rr_array r then release ResArray w2 else w2);
            w4 = (if rr_stream r then release ResStreamMem (release ResStreamData w3) else w3);
            w5 = (if rr_result r then release ResResult w4 else w4);
            w6 = (if rr_token r then release ResToken w5 else w5)
        in (r\<lparr>rr_closed := True, rr_array := False, rr_stream := False, rr_result := False, rr_token := False\<rparr>, w6))"

definition rr_close :: "result_reader \<Rightarrow> native_world \<Rightarrow> result_reader \<times> native_world" where
  "rr_close r w = close_locked r (token_cancel r w)"

text \<open>\<^verbatim>\<open>Read\<close>: \<open>ctx\<close> is the context before the read, \<open>ctx2\<close> after a failure of the stream.\<close>

definition rr_read ::
  "go_error option \<Rightarrow> go_error option \<Rightarrow> result_reader \<Rightarrow> native_world \<Rightarrow> (go_error + batch) \<times> result_reader \<times> native_world" where
  "rr_read ctx ctx2 r w =
     (case ctx of
        Some e \<Rightarrow> (Inl e, rr_close r (token_cancel r w))
      | None \<Rightarrow>
          if rr_closed r then (Inl (Sentinel IoEOF), r, w)
          else
            let w1 = touch ResArray (touch ResStreamData w);
                r1 = r\<lparr>rr_script := tl (rr_script r)\<rparr>
            in (case rr_script r of
                  ItemError errno msg kind # _ \<Rightarrow>
                    (let e = stream_error errno msg;
                         e1 = (if kind \<noteq> [] then NativeError kind (error_text e) else e)
                     in (Inl (context_error ctx2 e1), close_locked r1 (touch ResResult w1)))
                | ItemArray (Inl e) # _ \<Rightarrow> (Inl e, close_locked r1 w1)
                | ItemArray (Inr b) # _ \<Rightarrow> (Inr b, r1, w1)
                | _ \<Rightarrow> (Inl (Sentinel IoEOF), close_locked r1 w1)))"

datatype reader_call = CallRead "go_error option" "go_error option" | CallCancel | CallClose

fun rr_call :: "reader_call \<Rightarrow> result_reader \<times> native_world \<Rightarrow> result_reader \<times> native_world" where
  "rr_call (CallRead ctx ctx2) (r, w) = snd (rr_read ctx ctx2 r w)"
| "rr_call CallCancel (r, w) = (r, token_cancel r w)"
| "rr_call CallClose (r, w) = rr_close r w"

definition rr_run :: "reader_call list \<Rightarrow> result_reader \<times> native_world \<Rightarrow> result_reader \<times> native_world" where
  "rr_run = fold rr_call"

subsection \<open>Every resource is released once\<close>

definition reader_ok :: "result_reader \<times> native_world \<Rightarrow> bool" where
  "reader_ok s \<longleftrightarrow> (case s of (r, w) \<Rightarrow> \<not> nw_bad w \<and> nw_res w ResSchema = Freed \<and>
     (if rr_closed r
      then \<not> rr_result r \<and> \<not> rr_array r \<and> \<not> rr_stream r \<and> \<not> rr_token r \<and> (\<forall>x. nw_res w x = Freed)
      else rr_result r \<and> rr_array r \<and> rr_stream r \<and> rr_token r \<and> (\<forall>x. x \<noteq> ResSchema \<longrightarrow> nw_res w x = Live)))"

lemma all_resources:
  "(\<forall>x. P x) \<longleftrightarrow> P ResToken \<and> P ResResult \<and> P ResStreamMem \<and> P ResStreamData \<and> P ResArray \<and> P ResSchema \<and> P ResDone"
  by (metis resource.exhaust)

lemma reader_ok_close_locked: "reader_ok (r, w) \<Longrightarrow> reader_ok (close_locked r w)"
  by (cases "rr_closed r") (simp_all add: reader_ok_def close_locked_def Let_def all_resources)

lemma reader_ok_token_cancel: "reader_ok (r, w) \<Longrightarrow> reader_ok (r, token_cancel r w)"
  by (cases "rr_closed r") (simp_all add: reader_ok_def token_cancel_def all_resources)

lemma reader_ok_close: "reader_ok (r, w) \<Longrightarrow> reader_ok (rr_close r w)"
  by (simp add: rr_close_def reader_ok_close_locked reader_ok_token_cancel)

lemma reader_ok_touch:
  "reader_ok (r, w) \<Longrightarrow> \<not> rr_closed r \<Longrightarrow> x \<noteq> ResSchema \<Longrightarrow> reader_ok (r\<lparr>rr_script := sc\<rparr>, touch x w)"
  by (cases x) (simp_all add: reader_ok_def all_resources)

lemma reader_ok_read:
  assumes "reader_ok (r, w)"
  shows "reader_ok (snd (rr_read ctx ctx2 r w))"
proof (cases "ctx \<noteq> None \<or> rr_closed r")
  case True
  with assms show ?thesis
    by (auto simp: rr_read_def reader_ok_close reader_ok_token_cancel split: option.split)
next
  case False
  have a: "reader_ok (r\<lparr>rr_script := sc\<rparr>, touch ResArray (touch ResStreamData w))" for sc
    using assms False by (simp add: reader_ok_def all_resources)
  have b: "reader_ok (r\<lparr>rr_script := sc\<rparr>, touch ResResult (touch ResArray (touch ResStreamData w)))" for sc
    using assms False by (simp add: reader_ok_def all_resources)
  show ?thesis
    using False a b
    by (auto simp: rr_read_def Let_def reader_ok_close_locked split: list.split stream_item.split sum.split)
qed

lemma reader_ok_run: "reader_ok s \<Longrightarrow> reader_ok (rr_run calls s)"
proof (induction calls arbitrary: s)
  case (Cons c calls)
  obtain r w where s: "s = (r, w)" by fastforce
  with Cons.prems have "reader_ok (rr_call c s)"
    by (cases c) (simp_all add: reader_ok_read reader_ok_token_cancel reader_ok_close)
  with Cons.IH show ?case by (simp add: rr_run_def)
qed (simp add: rr_run_def)

definition unused :: "native_world \<Rightarrow> bool" where
  "unused w \<longleftrightarrow> \<not> nw_bad w \<and> nw_res w = (\<lambda>_. Absent)"

definition all_freed :: "native_world \<Rightarrow> bool" where
  "all_freed w \<longleftrightarrow> \<not> nw_bad w \<and> (\<forall>x. nw_res w x \<noteq> Live)"

lemma new_cancel_token_cases:
  assumes "unused w" and "new_cancel_token cb cr nil sg w = (res, w1)"
  shows "(res = None \<and> w1 = acquire ResToken w) \<or> ((\<exists>e. res = Some e) \<and> all_freed w1 \<and> nw_heap w1 = nw_heap w)"
  using assms
  by (auto simp: new_cancel_token_def Let_def unused_def all_freed_def all_resources split: c_status.splits if_splits)

lemma new_result_reader_cases:
  assumes "new_result_reader xa w = (res, w1)"
  shows "(\<exists>r. res = Inr r \<and> w1 = release ResSchema (acquire ResSchema (touch ResStreamData (acquire ResArray w))) \<and>
       \<not> rr_closed r \<and> rr_result r \<and> rr_array r \<and> rr_stream r \<and> rr_token r) \<or>
    (\<exists>e. res = Inl e \<and> (w1 = w \<or> w1 = release ResArray (touch ResStreamData (acquire ResArray w)) \<or>
       w1 = release ResSchema (release ResArray (acquire ResSchema (touch ResStreamData (acquire ResArray w))))))"
proof (cases "xa_array_ok xa")
  case True
  show ?thesis
  proof (cases "xa_schema_errno xa")
    case None
    with True assms show ?thesis
      by (cases "xa_schema xa"; simp add: new_result_reader_def Let_def; elim conjE; hypsubst; simp)
  next
    case (Some n)
    with True assms show ?thesis by (simp add: new_result_reader_def Let_def) blast
  qed
next
  case False
  with assms show ?thesis by (simp add: new_result_reader_def) blast
qed

lemma execute_params_cases:
  assumes w: "unused w" and x: "execute_params xa ps w = (res, v)"
  shows "nw_heap v = nw_heap w \<and> (case res of Inl e \<Rightarrow> all_freed v | Inr r \<Rightarrow> reader_ok (r, v) \<and> \<not> rr_closed r)"
proof -
  have u: "\<not> nw_bad w" "nw_res w x = Absent" for x using w by (simp_all add: unused_def)
  obtain t w1 where t: "new_cancel_token (xa_callbacks xa) (xa_token xa) (xa_token_nil xa) (xa_set_go xa) w = (t, w1)"
    by fastforce
  from new_cancel_token_cases [OF w t] show ?thesis
  proof (elim disjE conjE exE)
    fix e assume "t = Some e" "all_freed w1" "nw_heap w1 = nw_heap w"
    with t x show ?thesis by (auto simp: execute_params_def)
  next
    assume w1: "t = None" "w1 = acquire ResToken w"
    let ?w4 = "acquire ResStreamMem (acquire ResResult (acquire ResDone w1))"
    note y = x [unfolded execute_params_def t w1(1), simplified, unfolded Let_def]
    consider (execute) e where "xa_execute xa = StateFail e"
      | (alloc) "xa_execute xa = StateOk" "\<not> xa_stream_ok xa"
      | (export) e where "xa_execute xa = StateOk" "xa_stream_ok xa" "xa_export xa = StateFail e"
      | (reader) "xa_execute xa = StateOk" "xa_stream_ok xa" "xa_export xa = StateOk"
      by (cases "xa_execute xa"; cases "xa_export xa"; cases "xa_stream_ok xa") auto
    then show ?thesis
    proof cases
      case execute
      with y w1(2) u show ?thesis by (auto simp: all_freed_def all_resources)
    next
      case alloc
      with y w1(2) u show ?thesis by (auto simp: all_freed_def all_resources)
    next
      case export
      with y w1(2) u show ?thesis by (auto simp: all_freed_def all_resources)
    next
      case reader
      obtain r w6 where r: "new_result_reader xa (acquire ResStreamData ?w4) = (r, w6)" by fastforce
      from new_result_reader_cases [OF r] show ?thesis
      proof (elim disjE exE conjE)
        fix rd assume rd: "r = Inr rd" "w6 = release ResSchema (acquire ResSchema (touch ResStreamData
            (acquire ResArray (acquire ResStreamData ?w4))))" "\<not> rr_closed rd" "rr_result rd" "rr_array rd" "rr_stream rd" "rr_token rd"
        from y reader r rd(1) have "res = Inr rd" "v = w6" by auto
        then show ?thesis using rd(2-) w1(2) u by (simp add: reader_ok_def all_resources)
      next
        fix e assume e: "r = Inl e" "w6 = acquire ResStreamData ?w4"
        with y reader r w1(2) u show ?thesis by (auto simp: all_freed_def all_resources)
      next
        fix e assume e: "r = Inl e" "w6 = release ResArray (touch ResStreamData (acquire ResArray (acquire ResStreamData ?w4)))"
        with y reader r w1(2) u show ?thesis by (auto simp: all_freed_def all_resources)
      next
        fix e assume e: "r = Inl e" "w6 = release ResSchema (release ResArray (acquire ResSchema (touch ResStreamData
            (acquire ResArray (acquire ResStreamData ?w4)))))"
        with y reader r w1(2) u show ?thesis by (auto simp: all_freed_def all_resources)
      qed
    qed
  qed
qed

lemma params_freed:
  assumes "statement_params args h = (Inr (ps, allocs), h1)"
  shows "ch_live (c_free_all allocs h1) = ch_live h"
proof -
  have "owns_allocs (ch_live h) ([], h)" by (simp add: owns_allocs_def)
  from statement_params_loop_owned [OF this, of "length args" 0 args "[]" "Inr (ps, allocs)" h1] assms
  show ?thesis by (simp add: statement_params_def owns_allocs_free)
qed

lemma params_failed:
  assumes "statement_params args h = (Inl e, h1)"
  shows "ch_live h1 = ch_live h"
proof -
  have "owns_allocs (ch_live h) ([], h)" by (simp add: owns_allocs_def)
  from statement_params_loop_owned [OF this, of "length args" 0 args "[]" "Inl e" h1] assms
  show ?thesis by (simp add: statement_params_def)
qed

lemma execute_arrow_cases:
  assumes w: "unused w" and x: "execute_arrow xa args w = (res, v)"
  shows "ch_live (nw_heap v) = ch_live (nw_heap w) \<and>
    (case res of Inl e \<Rightarrow> all_freed v | Inr r \<Rightarrow> reader_ok (r, v) \<and> \<not> rr_closed r)"
proof (cases "xa_closed xa \<or> xa_ctx xa \<noteq> None \<or> check_arg_count (xa_num_input xa) args \<noteq> None")
  case True
  with w x show ?thesis by (auto simp: execute_arrow_def unused_def all_freed_def split: option.splits if_splits)
next
  case False
  obtain p h where p: "statement_params args (nw_heap w) = (p, h)" by fastforce
  show ?thesis
  proof (cases p)
    case (Inl e)
    with False p x w params_failed [of args "nw_heap w" e h] show ?thesis
      by (auto simp: execute_arrow_def unused_def all_freed_def)
  next
    case (Inr pa)
    obtain ps allocs where pa: "pa = (ps, allocs)" by fastforce
    obtain r w1 where e: "execute_params xa ps (w\<lparr>nw_heap := h\<rparr>) = (r, w1)" by fastforce
    have u: "unused (w\<lparr>nw_heap := h\<rparr>)" using w by (simp add: unused_def)
    from execute_params_cases [OF u e] params_freed [of args "nw_heap w" ps allocs h] p Inr pa False x e
    show ?thesis by (auto simp: execute_arrow_def all_freed_def reader_ok_def split: sum.splits)
  qed
qed

subsection \<open>The reader as an Arrow reader\<close>

fun native_script :: "stream_item list \<Rightarrow> (go_error + batch) list" where
  "native_script [] = []"
| "native_script (ItemEnd # xs) = []"
| "native_script (ItemError errno msg kind # xs) =
     [Inl (if kind \<noteq> [] then NativeError kind (error_text (stream_error errno msg)) else stream_error errno msg)]"
| "native_script (ItemArray (Inl e) # xs) = [Inl e]"
| "native_script (ItemArray (Inr b) # xs) = Inr b # native_script xs"

definition reader_abs :: "result_reader \<Rightarrow> arrow_reader" where
  "reader_abs r = \<lparr>rd_schema = Some (rr_schema r), rd_script = (if rr_closed r then [] else native_script (rr_script r)),
     rd_reads = 0, rd_closes = 0, rd_released = []\<rparr>"

fun rr_reads :: "nat \<Rightarrow> result_reader \<Rightarrow> native_world \<Rightarrow> (go_error + batch) list" where
  "rr_reads 0 r w = []"
| "rr_reads (Suc n) r w = (case rr_read None None r w of (res, r1, w1) \<Rightarrow> res # rr_reads n r1 w1)"

fun reader_reads :: "nat \<Rightarrow> arrow_reader \<Rightarrow> (go_error + batch) list" where
  "reader_reads 0 a = []"
| "reader_reads (Suc n) a = (case reader_read a of (res, a1) \<Rightarrow> res # reader_reads n a1)"

lemma reader_reads_script: "rd_script a = rd_script b \<Longrightarrow> reader_reads n a = reader_reads n b"
proof (induction n arbitrary: a b)
  case (Suc n)
  show ?case
  proof (cases "rd_script a")
    case Nil
    with Suc.prems Suc.IH [OF Suc.prems] show ?thesis by (simp add: reader_read_def)
  next
    case (Cons x xs)
    have "reader_reads n (a\<lparr>rd_script := xs, rd_reads := p\<rparr>) = reader_reads n (b\<lparr>rd_script := xs, rd_reads := q\<rparr>)" for p q
      by (rule Suc.IH) simp
    with Cons Suc.prems show ?thesis by (simp add: reader_read_def)
  qed
qed simp

lemma close_locked_closed [simp]: "rr_closed (fst (close_locked r w))"
  by (simp add: close_locked_def Let_def)

lemma reader_abs_closed: "rr_closed r \<Longrightarrow> rd_script (reader_abs r) = []"
  by (simp add: reader_abs_def)

lemma reader_abs_script: "\<not> rr_closed r \<Longrightarrow> rd_script (reader_abs r) = native_script (rr_script r)"
  by (simp add: reader_abs_def)

lemma rr_read_abs:
  assumes x: "rr_read None None r w = (res, r1, w1)"
  shows "fst (reader_read (reader_abs r)) = res \<and> rd_script (snd (reader_read (reader_abs r))) = rd_script (reader_abs r1)"
proof (cases "rr_closed r")
  case True
  with x show ?thesis by (simp add: rr_read_def reader_read_def reader_abs_def)
next
  case False
  have c: "rd_script (reader_abs y) = []" if "close_locked q u = (y, z)" for q u y z
    using close_locked_closed [of q u] that by (simp add: reader_abs_closed)
  note y = x [unfolded rr_read_def, simplified, unfolded Let_def] False
  show ?thesis
  proof (cases "rr_script r")
    case Nil
    with y show ?thesis by (auto simp: reader_read_def reader_abs_script dest!: c)
  next
    case (Cons i rest)
    show ?thesis
    proof (cases i)
      case ItemEnd
      with Cons y show ?thesis by (auto simp: reader_read_def reader_abs_script dest!: c)
    next
      case (ItemError errno msg kind)
      with Cons y show ?thesis by (auto simp: reader_read_def reader_abs_script context_error_def dest!: c)
    next
      case (ItemArray a)
      with Cons y show ?thesis by (cases a) (auto simp: reader_read_def reader_abs_script dest!: c)
    qed
  qed
qed

lemma rr_reads_abs: "rr_reads n r w = reader_reads n (reader_abs r)"
proof (induction n arbitrary: r w)
  case (Suc n)
  obtain res r1 w1 where r: "rr_read None None r w = (res, r1, w1)" by (metis prod.exhaust)
  obtain a where a: "reader_read (reader_abs r) = (res, a)" "rd_script a = rd_script (reader_abs r1)"
    using rr_read_abs [OF r] by (metis prod.collapse)
  from Suc.IH [of r1 w1] reader_reads_script [OF a(2), of n] r a(1) show ?case by simp
qed simp

subsection \<open>Properties\<close>


text \<open>The result reader refines the abstract Arrow reader the row and result adapters are proved against:
  its reads return the batches of the native stream in order up to the first failure, classified by the
  native kind, or the end, and io.EOF from then on.\<close>

theorem result_reader_refines_arrow_reader:
  "rr_reads n r w = reader_reads n (reader_abs r)"
  by (rule rr_reads_abs)

definition sample_answers :: exec_answers where
  "sample_answers = \<lparr>xa_closed = False, xa_ctx = None, xa_num_input = 0, xa_callbacks = False, xa_token = StateOk,
     xa_token_nil = False, xa_set_go = StateOk, xa_execute = StateOk, xa_ctx2 = None, xa_stream_ok = True,
     xa_export = StateOk, xa_array_ok = True, xa_schema_errno = None, xa_schema_msg = None, xa_schema = Inr [],
     xa_script = [ItemEnd]\<rparr>"

definition sample_world :: native_world where
  "sample_world = \<lparr>nw_res = (\<lambda>_. Absent), nw_bad = False, nw_heap = \<lparr>ch_next = 0, ch_live = []\<rparr>\<rparr>"

lemma sample_executes: "\<exists>r v. execute_arrow sample_answers [] sample_world = (Inr r, v)"
  by (simp add: execute_arrow_def sample_answers_def check_arg_count_def statement_params_def execute_params_def
      new_cancel_token_def new_result_reader_def Let_def sample_world_def)


end
