(* ===== verification/Callbacks.thy ===== *)
theory Callbacks
  imports Pushdown ProviderReaders "HOL-Library.List_Lexorder" "HOL-Library.Char_ord"
begin

text \<open>
  Calls from the native library into Go (\<^verbatim>\<open>internal/native/callbacks.go\<close>,
  \<^verbatim>\<open>internal/native/callback_arrow.go\<close>): the handle table, one operation per opcode, and the boundary
  that turns errors and panics into a status.  The user's providers, functions and catalogs are code
  outside the repository: what they answer, or the value they panic with, is an argument of each call, and a
  provider's reader is a state with its methods (\<open>panicky_ops\<close>).  Arrow IPC, the JSON parser and
  the C data interface are parameters.  A string compares as its bytes.
\<close>

subsection \<open>Objects and handles\<close>

record scan_options =
  so_projection :: "int list option"
  so_filters :: "expr list"
  so_limit :: int

text \<open>What a handle stands for: the interfaces the object implements matter, its behaviour is the call's argument.\<close>

datatype go_object =
    ObjContext nat
  | ObjReader nat
  | ObjProvider bool bool
  | ObjFunction "arrow_type list" arrow_type
  | ObjCatalog bool

record 's cb_world =
  cw_next :: nat
  cw_handles :: "nat \<Rightarrow> go_object option"
  cw_readers :: "nat \<Rightarrow> ('s \<times> nat) option"
  cw_cancelled :: "nat set"

text \<open>A user function returns or panics.\<close>

type_synonym 'a user_call = "string + 'a"

record 's cb_answers =
  an_ctx :: "go_error option"
  an_json :: "string \<Rightarrow> json option"
  an_json_names :: "string list \<Rightarrow> string"
  an_floats :: float_env
  an_write :: "schema \<Rightarrow> batch \<Rightarrow> go_error option"
  an_finish :: "schema \<Rightarrow> batch option \<Rightarrow> go_error option"
  an_bytes :: "schema \<Rightarrow> batch option \<Rightarrow> string"
  an_schema :: "schema option user_call"
  an_scan :: "scan_options option \<Rightarrow> ('s option \<times> go_error option) user_call"
  an_resolve :: "string \<Rightarrow> string \<Rightarrow> ((bool \<times> bool) option \<times> go_error option) user_call"
  an_stream_size :: nat
  an_exchange_size :: nat
  an_insert :: "nat \<Rightarrow> (64 word \<times> go_error option) user_call"
  an_import :: "go_error option"
  an_import_err :: "go_error option"
  an_arguments :: "go_error + batch option"
  an_size :: "arrow_array \<Rightarrow> nat"
  an_concat :: "arrow_array \<Rightarrow> go_error option"
  an_evaluate :: "arrow_array list \<Rightarrow> nat \<Rightarrow> (arrow_array option \<times> go_error option) user_call"
  an_names :: "string option \<Rightarrow> (string list \<times> go_error option) user_call"

definition encode_ipc :: "'s cb_answers \<Rightarrow> schema \<Rightarrow> batch option \<Rightarrow> go_error + string" where
  "encode_ipc an sch b =
     (case (case b of None \<Rightarrow> None | Some rec \<Rightarrow> an_write an sch rec) of
        Some e \<Rightarrow> Inl e
      | None \<Rightarrow> (case an_finish an sch b of Some e \<Rightarrow> Inl e | None \<Rightarrow> Inr (an_bytes an sch b)))"

text \<open>The outcome of an operation: a panic, an error, bytes and an object to hand out, or a batch in the exchange.\<close>

datatype outcome = Panicked string | Failed go_error | Answered string "go_object option" | Exported batch

definition answered :: "go_error + string \<Rightarrow> outcome" where
  "answered r = (case r of Inl e \<Rightarrow> Failed e | Inr b \<Rightarrow> Answered b None)"

definition wrong_type :: outcome where
  "wrong_type = Panicked ''interface conversion''"

subsection \<open>Operations\<close>

definition release_reader :: "nat \<Rightarrow> 's cb_world \<Rightarrow> 's cb_world" where
  "release_reader r w =
     (case cw_readers w r of None \<Rightarrow> w | Some (s, n) \<Rightarrow> w\<lparr>cw_readers := (cw_readers w)(r \<mapsto> (s, n + 1))\<rparr>)"

definition close_object :: "go_object \<Rightarrow> 's cb_world \<Rightarrow> 's cb_world" where
  "close_object obj w =
     (case obj of
        ObjContext k \<Rightarrow> w\<lparr>cw_cancelled := insert k (cw_cancelled w)\<rparr>
      | ObjReader r \<Rightarrow> release_reader r w
      | _ \<Rightarrow> w)"

definition child_context :: "'s cb_world \<Rightarrow> outcome \<times> 's cb_world" where
  "child_context w = (Answered [] (Some (ObjContext (cw_next w))), w\<lparr>cw_next := cw_next w + 1\<rparr>)"

definition cancel_context :: "go_object \<Rightarrow> 's cb_world \<Rightarrow> outcome \<times> 's cb_world" where
  "cancel_context obj w =
     (case obj of
        ObjContext k \<Rightarrow> (Answered [] None, w\<lparr>cw_cancelled := insert k (cw_cancelled w)\<rparr>)
      | _ \<Rightarrow> (wrong_type, w))"

definition provider_schema :: "'s cb_answers \<Rightarrow> go_object \<Rightarrow> outcome" where
  "provider_schema an obj =
     (case obj of
        ObjProvider pushdown writable \<Rightarrow> (case an_schema an of
            Inl p \<Rightarrow> Panicked p
          | Inr None \<Rightarrow> Failed (Plain ''go provider returned nil schema'')
          | Inr (Some sch) \<Rightarrow> answered (encode_ipc an sch None))
      | _ \<Rightarrow> wrong_type)"

record scan_request =
  sq_projection :: "int list option"
  sq_filters :: "json option"
  sq_limit :: int

definition scan_fields :: "scan_request json_fields" where
  "scan_fields =
     [(''projection'', \<lambda>j q. case j of
         JNull \<Rightarrow> Inr (q\<lparr>sq_projection := None\<rparr>)
       | _ \<Rightarrow> rbind (json_slice (json_int 64) 0 j (case sq_projection q of None \<Rightarrow> [] | Some is \<Rightarrow> is))
           (\<lambda>is. Inr (q\<lparr>sq_projection := Some is\<rparr>))),
      (''filters'', \<lambda>j q. rbind (json_raw j (sq_filters q)) (\<lambda>f. Inr (q\<lparr>sq_filters := f\<rparr>))),
      (''limit'', \<lambda>j q. rbind (json_int 64 j (sq_limit q)) (\<lambda>i. Inr (q\<lparr>sq_limit := i\<rparr>)))]"

definition scan_request_of :: "'s cb_answers \<Rightarrow> string \<Rightarrow> go_error + scan_request" where
  "scan_request_of an data =
     (case an_json an data of
        None \<Rightarrow> Inl (Plain ''invalid JSON'')
      | Some j \<Rightarrow> json_struct scan_fields j \<lparr>sq_projection = None, sq_filters = None, sq_limit = 0\<rparr>)"

definition scan_filters :: "'s cb_answers \<Rightarrow> scan_request \<Rightarrow> go_error + expr list" where
  "scan_filters an req =
     (case sq_filters req of
        None \<Rightarrow> Inr []
      | Some JNull \<Rightarrow> Inr []
      | Some j \<Rightarrow> decode_filters (an_floats an) (Some j))"

text \<open>The reader a provider returned: it gets an identity, and the deferred release runs unless it is transferred.\<close>

definition adopt_reader :: "'s \<Rightarrow> 's cb_world \<Rightarrow> nat \<times> 's cb_world" where
  "adopt_reader s w = (cw_next w, w\<lparr>cw_next := cw_next w + 1, cw_readers := (cw_readers w)(cw_next w \<mapsto> (s, 0))\<rparr>)"

definition scanned ::
  "'s cb_answers \<Rightarrow> 's panicky_ops \<Rightarrow> ('s option \<times> go_error option) user_call \<Rightarrow> 's cb_world \<Rightarrow> outcome \<times> 's cb_world" where
  "scanned an ops res w =
     (case res of
        Inl p \<Rightarrow> (Panicked p, w)
      | Inr (None, err) \<Rightarrow> (Failed (case err of Some e \<Rightarrow> e | None \<Rightarrow> Plain ''go provider returned nil reader''), w)
      | Inr (Some s, err) \<Rightarrow>
          (case adopt_reader s w of (r, w1) \<Rightarrow>
             (case err of
                Some e \<Rightarrow> (Failed e, release_reader r w1)
              | None \<Rightarrow> (case cb_schema ops s of
                    Inl p \<Rightarrow> (Panicked p, release_reader r w1)
                  | Inr None \<Rightarrow> (Failed (Plain ''go provider reader has nil schema''), release_reader r w1)
                  | Inr (Some sch) \<Rightarrow> (case encode_ipc an sch None of
                        Inl e \<Rightarrow> (Failed e, release_reader r w1)
                      | Inr b \<Rightarrow> (Answered b (Some (ObjReader r)), w1))))))"

definition open_scan ::
  "'s cb_answers \<Rightarrow> 's panicky_ops \<Rightarrow> string \<Rightarrow> go_object \<Rightarrow> 's cb_world \<Rightarrow> outcome \<times> 's cb_world" where
  "open_scan an ops data obj w =
     (case scan_request_of an data of
        Inl e \<Rightarrow> (Failed e, w)
      | Inr req \<Rightarrow> (case obj of
          ObjProvider pushdown writable \<Rightarrow>
            (if pushdown
             then (case scan_filters an req of
                 Inl e \<Rightarrow> (Failed e, w)
               | Inr fs \<Rightarrow> scanned an ops (an_scan an (Some
                   \<lparr>so_projection = sq_projection req, so_filters = fs, so_limit = sq_limit req\<rparr>)) w)
             else scanned an ops (an_scan an None) w)
        | _ \<Rightarrow> (wrong_type, w)))"

definition set_reader :: "nat \<Rightarrow> 's \<Rightarrow> 's cb_world \<Rightarrow> 's cb_world" where
  "set_reader r s w =
     (case cw_readers w r of None \<Rightarrow> w | Some (old, n) \<Rightarrow> w\<lparr>cw_readers := (cw_readers w)(r \<mapsto> (s, n))\<rparr>)"

definition next_batch ::
  "'s cb_answers \<Rightarrow> 's panicky_ops \<Rightarrow> go_error option \<Rightarrow> go_object \<Rightarrow> 's cb_world \<Rightarrow> outcome \<times> 's cb_world" where
  "next_batch an ops ctx obj w =
     (case obj of
        ObjReader r \<Rightarrow> (case cw_readers w r of
            None \<Rightarrow> (wrong_type, w)
          | Some (s, n) \<Rightarrow>
              (case ctx of Some e \<Rightarrow> (Failed e, w) | None \<Rightarrow>
               (case cb_next ops s of
                  (Inl p, t) \<Rightarrow> (Panicked p, set_reader r t w)
                | (Inr False, t) \<Rightarrow> (case cb_err ops t of
                      Inl p \<Rightarrow> Panicked p
                    | Inr None \<Rightarrow> Answered [] None
                    | Inr (Some e) \<Rightarrow> Failed e, set_reader r t w)
                | (Inr True, t) \<Rightarrow> (case cb_batch ops t of
                      Inl p \<Rightarrow> Panicked p
                    | Inr None \<Rightarrow> Failed (Plain ''go reader returned nil batch'')
                    | Inr (Some b) \<Rightarrow> (case cb_schema ops t of
                          Inl p \<Rightarrow> Panicked p
                        | Inr None \<Rightarrow> Panicked ''nil schema''
                        | Inr (Some sch) \<Rightarrow> answered (encode_ipc an sch (Some b))), set_reader r t w))))
      | _ \<Rightarrow> (wrong_type, w))"

definition udf_signature :: "'s cb_answers \<Rightarrow> go_object \<Rightarrow> outcome" where
  "udf_signature an obj =
     (case obj of
        ObjFunction args ret \<Rightarrow> answered (encode_ipc an
          (map (\<lambda>(i, t). \<lparr>fld_name = ''arg'' @ show_nat i, fld_type = t, fld_nullable = True\<rparr>) (enumerate 0 args) @
             [\<lparr>fld_name = ''result'', fld_type = ret, fld_nullable = True\<rparr>]) None)
      | _ \<Rightarrow> wrong_type)"

record table_ref =
  tr_schema :: string
  tr_table :: string

definition table_fields :: "table_ref json_fields" where
  "table_fields =
     [(''schema'', \<lambda>j q. rbind (json_string j (tr_schema q)) (\<lambda>s. Inr (q\<lparr>tr_schema := s\<rparr>))),
      (''table'', \<lambda>j q. rbind (json_string j (tr_table q)) (\<lambda>s. Inr (q\<lparr>tr_table := s\<rparr>)))]"

definition capability_bits :: "bool \<Rightarrow> bool \<Rightarrow> nat" where
  "capability_bits pushdown writable = (if pushdown then 1 else 0) + (if writable then 2 else 0)"

definition resolve_table :: "'s cb_answers \<Rightarrow> string \<Rightarrow> go_object \<Rightarrow> outcome" where
  "resolve_table an data obj =
     (case an_json an data of
        None \<Rightarrow> Failed (Plain ''invalid JSON'')
      | Some j \<Rightarrow> (case json_struct table_fields j \<lparr>tr_schema = [], tr_table = []\<rparr> of
          Inl e \<Rightarrow> Failed e
        | Inr ref \<Rightarrow> (case obj of
            ObjCatalog discoverable \<Rightarrow> (case an_resolve an (tr_schema ref) (tr_table ref) of
                Inl p \<Rightarrow> Panicked p
              | Inr (res, Some e) \<Rightarrow> Failed e
              | Inr (None, None) \<Rightarrow> Answered [] None
              | Inr (Some (pushdown, writable), None) \<Rightarrow>
                  Answered (show_nat (capability_bits pushdown writable)) (Some (ObjProvider pushdown writable)))
          | _ \<Rightarrow> wrong_type)))"

definition insert_into :: "'s cb_answers \<Rightarrow> nat \<Rightarrow> string \<Rightarrow> go_object \<Rightarrow> outcome" where
  "insert_into an mode data obj =
     (if length data \<noteq> an_stream_size an then Failed (Plain ''invalid insert stream'')
      else case an_import an of
        Some e \<Rightarrow> Failed e
      | None \<Rightarrow> (case obj of
          ObjProvider pushdown True \<Rightarrow> (case an_insert an mode of
              Inl p \<Rightarrow> Panicked p
            | Inr (n, Some e) \<Rightarrow> Failed e
            | Inr (n, None) \<Rightarrow> (case an_import_err an of
                Some e \<Rightarrow> Failed e
              | None \<Rightarrow> Answered (show_nat (unat n)) None))
        | _ \<Rightarrow> wrong_type))"

subsubsection \<open>Batches that leave through the C data interface\<close>

fun can_copy_callback_type :: "arrow_type \<Rightarrow> bool" where
  "can_copy_callback_type (TDictionary v) = False"
| "can_copy_callback_type (TExtension n t) = False"
| "can_copy_callback_type TStringView = False"
| "can_copy_callback_type TBinaryView = False"
| "can_copy_callback_type (TList fs) = list_all (\<lambda>(n, t, nu). can_copy_callback_type t) fs"
| "can_copy_callback_type (TLargeList fs) = list_all (\<lambda>(n, t, nu). can_copy_callback_type t) fs"
| "can_copy_callback_type (TFixedSizeList k fs) = list_all (\<lambda>(n, t, nu). can_copy_callback_type t) fs"
| "can_copy_callback_type (TStruct fs) = list_all (\<lambda>(n, t, nu). can_copy_callback_type t) fs"
| "can_copy_callback_type (TMap fs) = list_all (\<lambda>(n, t, nu). can_copy_callback_type t) fs"
| "can_copy_callback_type TListView = False"
| "can_copy_callback_type TLargeListView = False"
| "can_copy_callback_type TSparseUnion = False"
| "can_copy_callback_type TDenseUnion = False"
| "can_copy_callback_type TRunEndEncoded = False"
| "can_copy_callback_type t = True"

text \<open>The scan of the columns: \<open>None\<close> at the first one that cannot be copied, else whether all are small.\<close>

fun small_columns :: "(arrow_array \<Rightarrow> nat) \<Rightarrow> bool \<Rightarrow> arrow_array list \<Rightarrow> bool option" where
  "small_columns sz acc [] = Some acc"
| "small_columns sz acc (c # cs) =
     (if \<not> can_copy_callback_type (arr_type c) then None
      else small_columns sz (acc \<and> sz c \<le> 2048) cs)"

definition export_callback_batch :: "'s cb_answers \<Rightarrow> batch \<Rightarrow> outcome" where
  "export_callback_batch an b =
     (case small_columns (an_size an) (1 < length (bt_cols b)) (bt_cols b) of
        None \<Rightarrow> answered (encode_ipc an (bt_fields b) (Some b))
      | Some True \<Rightarrow> answered (encode_ipc an (bt_fields b) (Some b))
      | Some False \<Rightarrow> (case traverse (\<lambda>c. case an_concat an c of Some e \<Rightarrow> Inl e | None \<Rightarrow> Inr c) (bt_cols b) of
            Inl e \<Rightarrow> Failed e
          | Inr cols \<Rightarrow> Exported (b\<lparr>bt_cols := cols\<rparr>)))"

subsubsection \<open>Functions\<close>

text \<open>The result of a function: exactly the declared type and the row count of its arguments.\<close>

definition udf_result :: "arrow_type \<Rightarrow> nat \<Rightarrow> arrow_array option \<Rightarrow> go_error option \<Rightarrow> go_error + arrow_array" where
  "udf_result ret rows result err =
     (case err of
        Some e \<Rightarrow> Inl e
      | None \<Rightarrow> (case result of
          None \<Rightarrow> Inl (Plain ''go UDF returned wrong length or type'')
        | Some a \<Rightarrow> if arr_len a \<noteq> rows \<or> arr_type a \<noteq> ret
            then Inl (Plain ''go UDF returned wrong length or type'') else Inr a))"

definition result_batch :: "arrow_type \<Rightarrow> nat \<Rightarrow> arrow_array \<Rightarrow> batch" where
  "result_batch ret rows a = \<lparr>bt_id = 0, bt_fields = [\<lparr>fld_name = ''result'', fld_type = ret, fld_nullable = True\<rparr>],
     bt_cols = [a], bt_rows = rows\<rparr>"

definition evaluate_batch ::
  "'s cb_answers \<Rightarrow> go_object \<Rightarrow> batch \<Rightarrow> (batch \<Rightarrow> outcome) \<Rightarrow> outcome" where
  "evaluate_batch an obj rec send =
     (case obj of
        ObjFunction args ret \<Rightarrow> (case an_evaluate an (bt_cols rec) (bt_rows rec) of
            Inl p \<Rightarrow> Panicked p
          | Inr (result, err) \<Rightarrow> (case udf_result ret (bt_rows rec) result err of
                Inl e \<Rightarrow> Failed e
              | Inr a \<Rightarrow> send (result_batch ret (bt_rows rec) a)))
      | _ \<Rightarrow> wrong_type)"

definition evaluate_ipc :: "'s cb_answers \<Rightarrow> go_object \<Rightarrow> outcome" where
  "evaluate_ipc an obj =
     (case an_arguments an of
        Inl e \<Rightarrow> Failed e
      | Inr None \<Rightarrow> Failed (Plain ''missing UDF argument batch'')
      | Inr (Some rec) \<Rightarrow> evaluate_batch an obj rec
          (\<lambda>b. answered (encode_ipc an (bt_fields b) (Some b))))"

definition dispatch_arrow_callback ::
  "'s cb_answers \<Rightarrow> 's panicky_ops \<Rightarrow> go_error option \<Rightarrow> nat \<Rightarrow> string \<Rightarrow> go_object \<Rightarrow> 's cb_world \<Rightarrow>
   outcome \<times> 's cb_world" where
  "dispatch_arrow_callback an ops ctx opcode data obj w =
     (if length data \<noteq> an_exchange_size an then (Failed (Plain ''invalid Arrow callback exchange''), w)
      else case ctx of Some e \<Rightarrow> (Failed e, w) | None \<Rightarrow>
      if opcode = 12 then
        (case obj of
           ObjReader r \<Rightarrow> (case cw_readers w r of
               None \<Rightarrow> (wrong_type, w)
             | Some (s, n) \<Rightarrow> (case cb_next ops s of
                   (Inl p, t) \<Rightarrow> (Panicked p, set_reader r t w)
                 | (Inr False, t) \<Rightarrow> (case cb_err ops t of
                       Inl p \<Rightarrow> Panicked p
                     | Inr None \<Rightarrow> Answered [] None
                     | Inr (Some e) \<Rightarrow> Failed e, set_reader r t w)
                 | (Inr True, t) \<Rightarrow> (case cb_batch ops t of
                       Inl p \<Rightarrow> Panicked p
                     | Inr None \<Rightarrow> Failed (Plain ''go reader returned nil batch'')
                     | Inr (Some b) \<Rightarrow> export_callback_batch an b, set_reader r t w)))
         | _ \<Rightarrow> (wrong_type, w))
      else (case an_arguments an of
          Inl e \<Rightarrow> Failed e
        | Inr None \<Rightarrow> Failed (Plain ''missing UDF argument batch'')
        | Inr (Some rec) \<Rightarrow> evaluate_batch an obj rec (export_callback_batch an), w))"

subsubsection \<open>Names of a catalog\<close>

definition valid_name :: "string \<Rightarrow> bool" where
  "valid_name name \<longleftrightarrow> name \<noteq> [] \<and> CHR 0x00 \<notin> set name"

definition listed_names :: "string list \<Rightarrow> go_error + string list" where
  "listed_names names =
     (if \<not> list_all valid_name names then Inl (Plain ''catalog returned an empty or NUL-containing name'')
      else Inr (remdups_adj (sort names)))"

definition catalog_names :: "'s cb_answers \<Rightarrow> go_error option \<Rightarrow> nat \<Rightarrow> string \<Rightarrow> go_object \<Rightarrow> outcome" where
  "catalog_names an ctx opcode data obj =
     (case ctx of Some e \<Rightarrow> Failed e | None \<Rightarrow>
      (case obj of
         ObjCatalog True \<Rightarrow>
           (let call = (if opcode = 14 then Inr None
              else case an_json an data of
                None \<Rightarrow> Inl (Plain ''invalid JSON'') | Some j \<Rightarrow> rbind (json_string j []) (\<lambda>s. Inr (Some s)))
            in case call of
              Inl e \<Rightarrow> Failed e
            | Inr schema \<Rightarrow> (case an_names an schema of
                  Inl p \<Rightarrow> Panicked p
                | Inr (names, Some e) \<Rightarrow> Failed e
                | Inr (names, None) \<Rightarrow> answered (rbind (listed_names names) (\<lambda>ns. Inr (an_json_names an ns)))))
       | _ \<Rightarrow> wrong_type))"

subsection \<open>Dispatch\<close>

definition dispatch_callback ::
  "'s cb_answers \<Rightarrow> 's panicky_ops \<Rightarrow> go_error option \<Rightarrow> nat \<Rightarrow> string \<Rightarrow> go_object \<Rightarrow> 's cb_world \<Rightarrow>
   outcome \<times> 's cb_world" where
  "dispatch_callback an ops ctx opcode data obj w =
     (if opcode = 0 then (Answered [] None, close_object obj w)
      else if opcode = 1 then child_context w
      else if opcode = 2 then cancel_context obj w
      else if opcode = 3 then (provider_schema an obj, w)
      else if opcode = 4 then open_scan an ops data obj w
      else if opcode = 5 then next_batch an ops ctx obj w
      else if opcode = 6 then (udf_signature an obj, w)
      else if opcode = 7 then (evaluate_ipc an obj, w)
      else if opcode = 8 then (resolve_table an data obj, w)
      else if opcode \<in> {9, 10, 11} then (insert_into an (opcode - 9) data obj, w)
      else if opcode \<in> {12, 13} then dispatch_arrow_callback an ops ctx opcode data obj w
      else if opcode \<in> {14, 15} then (catalog_names an ctx opcode data obj, w)
      else (Failed (Plain (''unsupported Go callback operation '' @ show_nat opcode)), w))"

text \<open>What the C caller sees: status 0 with bytes and a new handle, or status 1 with a message.\<close>

datatype callback_status = StatusOk string "nat option" | StatusExported batch | StatusError string

definition callback_error :: "string \<Rightarrow> callback_status" where "callback_error m = StatusError m"

definition new_handle :: "go_object \<Rightarrow> 's cb_world \<Rightarrow> nat \<times> 's cb_world" where
  "new_handle obj w = (cw_next w, w\<lparr>cw_next := cw_next w + 1, cw_handles := (cw_handles w)(cw_next w \<mapsto> obj)\<rparr>)"

definition deliver :: "outcome \<times> 's cb_world \<Rightarrow> callback_status \<times> 's cb_world" where
  "deliver r =
     (case r of
        (Panicked p, w) \<Rightarrow> (callback_error (''go callback panicked: '' @ p), w)
      | (Failed e, w) \<Rightarrow> (callback_error (error_text e), w)
      | (Exported b, w) \<Rightarrow> (StatusExported b, w)
      | (Answered b None, w) \<Rightarrow> (StatusOk b None, w)
      | (Answered b (Some obj), w) \<Rightarrow> (case new_handle obj w of (h, w1) \<Rightarrow> (StatusOk b (Some h), w1)))"

text \<open>The context of an operation: its handle's, which may have been cancelled, or the background context.\<close>

definition operation_context :: "'s cb_answers \<Rightarrow> nat option \<Rightarrow> 's cb_world \<Rightarrow> string + go_error option" where
  "operation_context an operation w =
     (case operation of
        None \<Rightarrow> Inr None
      | Some h \<Rightarrow> (case cw_handles w h of
            Some (ObjContext k) \<Rightarrow> Inr (if k \<in> cw_cancelled w then Some (Sentinel ContextCanceled) else an_ctx an)
          | Some obj \<Rightarrow> Inl ''interface conversion''
          | None \<Rightarrow> Inl ''runtime/cgo: misuse of an invalid Handle''))"

definition delete_handle :: "nat \<Rightarrow> 's cb_world \<Rightarrow> 's cb_world" where
  "delete_handle h w = w\<lparr>cw_handles := (cw_handles w)(h := None)\<rparr>"

definition dfgo_go_invoke ::
  "'s cb_answers \<Rightarrow> 's panicky_ops \<Rightarrow> nat \<Rightarrow> nat option \<Rightarrow> nat \<Rightarrow> int \<Rightarrow> string \<Rightarrow> 's cb_world \<Rightarrow>
   callback_status \<times> 's cb_world" where
  "dfgo_go_invoke an ops handle operation opcode input_len data w =
     (if input_len < 0 \<or> 2 ^ 63 - 1 < input_len then (callback_error ''invalid callback input length'', w)
      else case cw_handles w handle of
        None \<Rightarrow> deliver (Panicked ''runtime/cgo: misuse of an invalid Handle'', w)
      | Some obj \<Rightarrow>
          (let res = (case operation_context an operation w of
                 Inl p \<Rightarrow> (Panicked p, w)
               | Inr ctx \<Rightarrow> dispatch_callback an ops ctx opcode data obj w)
           in case deliver res of (st, w1) \<Rightarrow> (st, if opcode = 0 then delete_handle handle w1 else w1)))"

subsection \<open>Sequences of calls\<close>

text \<open>
  The native side registers objects and calls back in any order, with any answers.  It drops a handle with
  opcode 0 and no operation (\<^verbatim>\<open>Owner::drop\<close> in \<^verbatim>\<open>rust/src/callbacks.rs\<close>).
\<close>

inductive callback_step :: "'s cb_world \<Rightarrow> 's cb_world \<Rightarrow> bool" where
  register_object: "(\<And>r. obj \<noteq> ObjReader r) \<Longrightarrow> callback_step w (snd (new_handle obj w))"
| invoke_callback: "(opcode = 0 \<Longrightarrow> operation = None) \<Longrightarrow>
    callback_step w (snd (dfgo_go_invoke an ops handle operation opcode input_len data w))"

definition callback_start :: "'s cb_world" where
  "callback_start = \<lparr>cw_next = 0, cw_handles = (\<lambda>_. None), cw_readers = (\<lambda>_. None), cw_cancelled = {}\<rparr>"

inductive callback_reachable :: "'s cb_world \<Rightarrow> bool" where
  start: "callback_reachable callback_start"
| step: "callback_reachable w \<Longrightarrow> callback_step w v \<Longrightarrow> callback_reachable v"

definition callback_inv :: "'s cb_world \<Rightarrow> bool" where
  "callback_inv w \<longleftrightarrow>
     (\<forall>h. cw_next w \<le> h \<longrightarrow> cw_handles w h = None \<and> cw_readers w h = None) \<and>
     (\<forall>r s n. cw_readers w r = Some (s, n) \<longrightarrow> n = (if \<exists>h. cw_handles w h = Some (ObjReader r) then 0 else 1)) \<and>
     (\<forall>g h r. cw_handles w g = Some (ObjReader r) \<longrightarrow> cw_handles w h = Some (ObjReader r) \<longrightarrow> g = h) \<and>
     (\<forall>h r. cw_handles w h = Some (ObjReader r) \<longrightarrow> cw_readers w r \<noteq> None)"

lemma callback_invD:
  assumes "callback_inv w"
  shows "cw_next w \<le> h \<Longrightarrow> cw_handles w h = None" "cw_next w \<le> h \<Longrightarrow> cw_readers w h = None"
    "cw_readers w r = Some (s, n) \<Longrightarrow> n = (if \<exists>h. cw_handles w h = Some (ObjReader r) then 0 else 1)"
    "cw_handles w g = Some (ObjReader r) \<Longrightarrow> cw_handles w h = Some (ObjReader r) \<Longrightarrow> g = h"
    "cw_handles w h = Some (ObjReader r) \<Longrightarrow> cw_readers w r \<noteq> None"
  using assms unfolding callback_inv_def by blast+

lemma callback_invI:
  assumes "\<And>h. cw_next w \<le> h \<Longrightarrow> cw_handles w h = None" "\<And>h. cw_next w \<le> h \<Longrightarrow> cw_readers w h = None"
    "\<And>r s n. cw_readers w r = Some (s, n) \<Longrightarrow> n = (if \<exists>h. cw_handles w h = Some (ObjReader r) then 0 else 1)"
    "\<And>g h r. cw_handles w g = Some (ObjReader r) \<Longrightarrow> cw_handles w h = Some (ObjReader r) \<Longrightarrow> g = h"
    "\<And>h r. cw_handles w h = Some (ObjReader r) \<Longrightarrow> cw_readers w r \<noteq> None"
  shows "callback_inv w"
  using assms unfolding callback_inv_def by blast

fun handed_out :: "outcome \<Rightarrow> nat option" where
  "handed_out (Answered b (Some (ObjReader r))) = Some r"
| "handed_out out = None"

text \<open>What any operation but the release does: old readers keep their counts, a new one is handed out or released.\<close>

definition effect :: "'s cb_world \<Rightarrow> outcome \<Rightarrow> 's cb_world \<Rightarrow> bool" where
  "effect w out v \<longleftrightarrow> cw_handles v = cw_handles w \<and> cw_next w \<le> cw_next v \<and>
     (\<forall>r. cw_next v \<le> r \<longrightarrow> cw_readers v r = None) \<and>
     (\<forall>r. r < cw_next w \<longrightarrow> map_option snd (cw_readers v r) = map_option snd (cw_readers w r)) \<and>
     (\<forall>r s n. cw_next w \<le> r \<longrightarrow> cw_readers v r = Some (s, n) \<longrightarrow> n = (if handed_out out = Some r then 0 else 1)) \<and>
     (\<forall>r. handed_out out = Some r \<longrightarrow> cw_next w \<le> r \<and> cw_readers v r \<noteq> None)"

lemma effect_none:
  "callback_inv w \<Longrightarrow> handed_out out = None \<Longrightarrow> cw_handles v = cw_handles w \<Longrightarrow> cw_next w \<le> cw_next v \<Longrightarrow>
   cw_readers v = cw_readers w \<Longrightarrow> effect w out v"
  using callback_invD(2) unfolding effect_def by fastforce

lemma effect_set_reader:
  assumes w: "callback_inv w" and out: "handed_out out = None"
  shows "effect w out (set_reader r t w)"
proof (cases "cw_readers w r")
  case None
  with effect_none [OF w out, of w] show ?thesis by (simp add: set_reader_def)
next
  case (Some sn)
  then have "r < cw_next w" using callback_invD(2) [OF w, of r] by (metis not_less option.distinct(1))
  with Some callback_invD(2) [OF w] out show ?thesis
    by (auto simp: effect_def set_reader_def split: prod.splits)
qed

lemma effect_adopted:
  assumes w: "callback_inv w" and r: "adopt_reader s w = (r, w1)"
  shows "handed_out out = None \<Longrightarrow> effect w out (release_reader r w1)"
    "handed_out out = Some r \<Longrightarrow> effect w out w1"
proof -
  have n: "cw_readers w j = None" if "cw_next w \<le> j" for j using callback_invD(2) [OF w that] .
  from r have r1: "r = cw_next w" "w1 = w\<lparr>cw_next := cw_next w + 1, cw_readers := (cw_readers w)(cw_next w \<mapsto> (s, 0))\<rparr>"
    by (auto simp: adopt_reader_def)
  show "handed_out out = None \<Longrightarrow> effect w out (release_reader r w1)"
    using n by (simp add: r1 release_reader_def effect_def)
  show "handed_out out = Some r \<Longrightarrow> effect w out w1"
    using n by (simp add: r1 effect_def)
qed

lemma handed_out_answered [simp]: "handed_out (answered r) = None"
  by (simp add: answered_def split: sum.split)

lemma handed_out_wrong [simp]: "handed_out wrong_type = None"
  by (simp add: wrong_type_def)

lemma handed_out_pure [simp]:
  "handed_out (provider_schema an obj) = None" "handed_out (udf_signature an obj) = None"
  "handed_out (resolve_table an data obj) = None" "handed_out (insert_into an m data obj) = None"
  "handed_out (catalog_names an ctx oc data obj) = None" "handed_out (export_callback_batch an b) = None"
  by (auto simp: provider_schema_def udf_signature_def resolve_table_def insert_into_def catalog_names_def Let_def
      export_callback_batch_def split: go_object.split sum.split option.split bool.split prod.split)

lemma handed_out_evaluate [simp]:
  "(\<And>b. handed_out (send b) = None) \<Longrightarrow> handed_out (evaluate_batch an obj rec send) = None"
  by (auto simp: evaluate_batch_def split: go_object.split sum.split)

lemma handed_out_ipc [simp]: "handed_out (evaluate_ipc an obj) = None"
  by (auto simp: evaluate_ipc_def split: sum.split option.split)

lemma effect_scanned:
  assumes w: "callback_inv w" and x: "scanned an ops res w = (out, v)"
  shows "effect w out v"
proof (cases "\<exists>s e. res = Inr (Some s, e)")
  case False
  then have "v = w \<and> handed_out out = None" using x by (auto simp: scanned_def split: sum.splits option.splits)
  with effect_none [OF w] show ?thesis by simp
next
  case True
  then obtain s e where res: "res = Inr (Some s, e)" by blast
  obtain r w1 where r: "adopt_reader s w = (r, w1)" by fastforce
  have "(v = release_reader r w1 \<and> handed_out out = None) \<or> (v = w1 \<and> handed_out out = Some r)"
    using x r by (simp add: scanned_def res split: option.splits sum.splits) auto
  with effect_adopted [OF w r] show ?thesis by auto
qed

lemma effect_open_scan:
  assumes w: "callback_inv w" and x: "open_scan an ops data obj w = (out, v)"
  shows "effect w out v"
proof (cases "v = w \<and> handed_out out = None")
  case True
  with effect_none [OF w] show ?thesis by simp
next
  case False
  with x obtain res where "scanned an ops res w = (out, v)"
    by (auto simp: open_scan_def split: sum.splits go_object.splits if_splits)
  with effect_scanned [OF w] show ?thesis by blast
qed

text \<open>The two operations that read a batch.\<close>

lemma effect_next_batch:
  assumes w: "callback_inv w" and x: "next_batch an ops ctx obj w = (out, v)"
  shows "effect w out v"
proof (cases "ctx = None \<and> (\<exists>r. obj = ObjReader r)")
  case False
  then have "v = w \<and> handed_out out = None"
    using x by (auto simp: next_batch_def split: option.splits go_object.splits)
  with effect_none [OF w] show ?thesis by simp
next
  case True
  then obtain r where r: "ctx = None" "obj = ObjReader r" by blast
  have "handed_out out = None \<and> (v = w \<or> (\<exists>t. v = set_reader r t w))"
  proof (cases "cw_readers w r")
    case None
    with x r show ?thesis by (auto simp: next_batch_def)
  next
    case (Some sn)
    obtain s n where sn: "sn = (s, n)" by fastforce
    obtain p t where p: "cb_next ops s = (p, t)" by fastforce
    with x r Some sn show ?thesis by (auto simp: next_batch_def split: sum.splits bool.splits option.splits)
  qed
  with effect_none [OF w] effect_set_reader [OF w] show ?thesis by auto
qed

lemma effect_arrow:
  assumes w: "callback_inv w" and x: "dispatch_arrow_callback an ops ctx oc data obj w = (out, v)"
  shows "effect w out v"
proof (cases "length data = an_exchange_size an \<and> ctx = None \<and> oc = 12 \<and> (\<exists>r. obj = ObjReader r)")
  case False
  then have "v = w \<and> handed_out out = None"
    using x by (auto simp: dispatch_arrow_callback_def split: if_splits option.splits sum.splits go_object.splits)
  with effect_none [OF w] show ?thesis by simp
next
  case True
  then obtain r where r: "length data = an_exchange_size an" "ctx = None" "oc = 12" "obj = ObjReader r" by blast
  have "handed_out out = None \<and> (v = w \<or> (\<exists>t. v = set_reader r t w))"
  proof (cases "cw_readers w r")
    case None
    with x r show ?thesis by (auto simp: dispatch_arrow_callback_def)
  next
    case (Some sn)
    obtain s n where sn: "sn = (s, n)" by fastforce
    obtain p t where p: "cb_next ops s = (p, t)" by fastforce
    with x r Some sn show ?thesis
      by (auto simp: dispatch_arrow_callback_def split: sum.splits bool.splits option.splits)
  qed
  with effect_none [OF w] effect_set_reader [OF w] show ?thesis by auto
qed

lemma effect_dispatch:
  assumes w: "callback_inv w" and oc: "opcode \<noteq> 0" and x: "dispatch_callback an ops ctx opcode data obj w = (out, v)"
  shows "effect w out v"
proof -
  have n: "effect w out' w" if "handed_out out' = None" for out'
    using effect_none [OF w that, of w] by simp
  consider "opcode = 1" | "opcode = 2" | "opcode = 4" | "opcode = 5" | "opcode \<in> {12, 13}"
    | (pure) "v = w" "handed_out out = None"
    using x oc by (auto simp: dispatch_callback_def split: if_splits)
  then show ?thesis
  proof cases
    case 1
    then have "out = Answered [] (Some (ObjContext (cw_next w)))" "v = w\<lparr>cw_next := cw_next w + 1\<rparr>"
      using x by (auto simp: dispatch_callback_def child_context_def)
    then show ?thesis by (intro effect_none [OF w]) simp_all
  next
    case 2
    then have "handed_out out = None \<and> cw_handles v = cw_handles w \<and> cw_next v = cw_next w \<and> cw_readers v = cw_readers w"
      using x by (auto simp: dispatch_callback_def cancel_context_def split: go_object.splits)
    then show ?thesis by (intro effect_none [OF w]) simp_all
  next
    case 3
    then show ?thesis using x effect_open_scan [OF w] by (simp add: dispatch_callback_def)
  next
    case 4
    then show ?thesis using x effect_next_batch [OF w] by (simp add: dispatch_callback_def)
  next
    case 5
    then have "dispatch_arrow_callback an ops ctx opcode data obj w = (out, v)"
      using x by (auto simp: dispatch_callback_def)
    then show ?thesis using effect_arrow [OF w] by blast
  next
    case pure
    then show ?thesis using n by simp
  qed
qed

text \<open>Handing out the object keeps the invariant.\<close>

lemma callback_inv_effect:
  assumes w: "callback_inv w" and e: "effect w out v"
  shows "callback_inv (snd (deliver (out, v)))"
proof -
  have h: "cw_handles v = cw_handles w" and nx: "cw_next w \<le> cw_next v"
    and fr: "\<And>r. cw_next v \<le> r \<Longrightarrow> cw_readers v r = None"
    and old: "\<And>r. r < cw_next w \<Longrightarrow> map_option snd (cw_readers v r) = map_option snd (cw_readers w r)"
    and new: "\<And>r s n. cw_next w \<le> r \<Longrightarrow> cw_readers v r = Some (s, n) \<Longrightarrow> n = (if handed_out out = Some r then 0 else 1)"
    and out: "\<And>r. handed_out out = Some r \<Longrightarrow> cw_next w \<le> r \<and> cw_readers v r \<noteq> None"
    using e unfolding effect_def by blast+
  have lt: "r < cw_next w" if "cw_handles w g = Some (ObjReader r)" for g r
    using callback_invD(5) [OF w that] callback_invD(2) [OF w] by (metis not_less)
  have cnt: "n = (if (\<exists>g. cw_handles w g = Some (ObjReader r)) \<or> handed_out out = Some r then 0 else 1)"
    if "cw_readers v r = Some (s, n)" for r s n
  proof (cases "r < cw_next w")
    case True
    have "map_option snd (cw_readers w r) = Some n" using old [OF True] that by simp
    then obtain t where "cw_readers w r = Some (t, n)" by (cases "cw_readers w r") auto
    with callback_invD(3) [OF w this] True out [of r] show ?thesis by auto
  next
    case False
    with new that lt show ?thesis by (metis not_less)
  qed
  show ?thesis
  proof (cases "\<exists>b obj. out = Answered b (Some obj)")
    case False
    then have d: "snd (deliver (out, v)) = v" and no: "handed_out out = None"
      by (cases out; auto simp: deliver_def split: option.splits)+
    from cnt no have c: "n = (if \<exists>g. cw_handles w g = Some (ObjReader r) then 0 else 1)" if "cw_readers v r = Some (s, n)" for r s n
      using that by simp
    have keep: "cw_readers v r \<noteq> None" if "cw_handles w g = Some (ObjReader r)" for g r
      using callback_invD(5) [OF w that] old [OF lt [OF that]] by auto
    show ?thesis
      unfolding d callback_inv_def h
      using c keep fr callback_invD(1,4) [OF w] nx by (meson order_trans)
  next
    case True
    then obtain b obj where o: "out = Answered b (Some obj)" by blast
    have d: "snd (deliver (out, v)) = v\<lparr>cw_next := cw_next v + 1, cw_handles := (cw_handles v)(cw_next v \<mapsto> obj)\<rparr>"
      by (simp add: deliver_def o new_handle_def)
    have ho: "handed_out out = Some r \<longleftrightarrow> obj = ObjReader r" for r
      using o by (cases obj) auto
    have hs: "((cw_handles w)(cw_next v \<mapsto> obj)) g = Some (ObjReader r) \<longleftrightarrow>
        (if g = cw_next v then obj = ObjReader r else cw_handles w g = Some (ObjReader r))" for g r
      by simp
    have ex: "(\<exists>g. ((cw_handles w)(cw_next v \<mapsto> obj)) g = Some (ObjReader r)) \<longleftrightarrow>
        (\<exists>g. cw_handles w g = Some (ObjReader r)) \<or> handed_out out = Some r" for r
      using callback_invD(1) [OF w nx] unfolding hs ho by (metis option.distinct(1))
    have vh: "cw_handles (snd (deliver (out, v))) = (cw_handles w)(cw_next v \<mapsto> obj)"
      "cw_readers (snd (deliver (out, v))) = cw_readers v" "cw_next (snd (deliver (out, v))) = cw_next v + 1"
      unfolding d by (simp_all add: h)
    show ?thesis
    proof (rule callback_invI, unfold vh)
      fix g assume g: "cw_next v + 1 \<le> g"
      then show "((cw_handles w)(cw_next v \<mapsto> obj)) g = None" using callback_invD(1) [OF w, of g] nx by auto
      from g show "cw_readers v g = None" using fr [of g] by auto
    next
      fix r s n assume "cw_readers v r = Some (s, n)"
      then show "n = (if \<exists>g. ((cw_handles w)(cw_next v \<mapsto> obj)) g = Some (ObjReader r) then 0 else 1)"
        unfolding ex by (rule cnt)
    next
      fix g k r assume "((cw_handles w)(cw_next v \<mapsto> obj)) g = Some (ObjReader r)"
        "((cw_handles w)(cw_next v \<mapsto> obj)) k = Some (ObjReader r)"
      then show "g = k"
        unfolding hs using callback_invD(4) [OF w, of g r k] out [of r] lt [of g r] lt [of k r] ho [of r]
        by (auto split: if_splits)
    next
      fix g r assume "((cw_handles w)(cw_next v \<mapsto> obj)) g = Some (ObjReader r)"
      then show "cw_readers v r \<noteq> None"
        unfolding hs using callback_invD(5) [OF w, of g r] old [OF lt, of g r] out [of r] ho [of r]
        by (auto split: if_splits)
    qed
  qed
qed

lemma callback_inv_release:
  assumes w: "callback_inv w" and h: "cw_handles w k = Some obj"
  shows "callback_inv (delete_handle k (close_object obj w))"
proof (cases "\<exists>r. obj = ObjReader r")
  case False
  then have v: "cw_handles (delete_handle k (close_object obj w)) = (cw_handles w)(k := None)"
    "cw_readers (delete_handle k (close_object obj w)) = cw_readers w"
    "cw_next (delete_handle k (close_object obj w)) = cw_next w"
    by (cases obj; simp add: close_object_def delete_handle_def)+
  have x: "((cw_handles w)(k := None)) g = Some (ObjReader r) \<longleftrightarrow> cw_handles w g = Some (ObjReader r)" for g r
    using False h by auto
  show ?thesis
    by (rule callback_invI, unfold v x) (use callback_invD [OF w] in auto)
next
  case True
  then obtain r where r: "obj = ObjReader r" by blast
  with callback_invD(5) [OF w] h obtain s n where sn: "cw_readers w r = Some (s, n)" by fastforce
  with callback_invD(3) [OF w sn] h r have n: "n = 0" by (auto split: if_splits)
  have v: "cw_handles (delete_handle k (close_object obj w)) = (cw_handles w)(k := None)"
    "cw_readers (delete_handle k (close_object obj w)) = (cw_readers w)(r \<mapsto> (s, 1))"
    "cw_next (delete_handle k (close_object obj w)) = cw_next w"
    using sn n by (simp_all add: close_object_def delete_handle_def r release_reader_def)
  have x: "((cw_handles w)(k := None)) g = Some (ObjReader q) \<longleftrightarrow> q \<noteq> r \<and> cw_handles w g = Some (ObjReader q)" for g q
    using h r callback_invD(4) [OF w, of g q k] by auto
  show ?thesis
  proof (rule callback_invI, unfold v x)
    fix g assume g: "cw_next w \<le> g"
    then show "((cw_handles w)(k := None)) g = None" using callback_invD(1) [OF w g] by simp
    from g show "((cw_readers w)(r \<mapsto> (s, 1))) g = None" using callback_invD(2) [OF w g] sn by auto
  next
    fix q t m assume "((cw_readers w)(r \<mapsto> (s, 1))) q = Some (t, m)"
    then show "m = (if \<exists>h. q \<noteq> r \<and> cw_handles w h = Some (ObjReader q) then 0 else 1)"
      using callback_invD(3) [OF w, of q t m] by (cases "q = r") auto
  next
    fix g j q assume "q \<noteq> r \<and> cw_handles w g = Some (ObjReader q)" "q \<noteq> r \<and> cw_handles w j = Some (ObjReader q)"
    then show "g = j" using callback_invD(4) [OF w] by blast
  next
    fix g q assume "q \<noteq> r \<and> cw_handles w g = Some (ObjReader q)"
    then show "((cw_readers w)(r \<mapsto> (s, 1))) q \<noteq> None" using callback_invD(5) [OF w] by auto
  qed
qed

lemma callback_inv_invoke:
  assumes w: "callback_inv w" and z: "opcode = 0 \<longrightarrow> operation = None"
  shows "callback_inv (snd (dfgo_go_invoke an ops handle operation opcode len data w))"
proof (cases "len < 0 \<or> 2 ^ 63 - 1 < len \<or> cw_handles w handle = None")
  case True
  with w show ?thesis by (auto simp: dfgo_go_invoke_def deliver_def)
next
  case False
  then obtain obj where obj: "cw_handles w handle = Some obj" by auto
  show ?thesis
  proof (cases "opcode = 0")
    case True
    with z False obj have "snd (dfgo_go_invoke an ops handle operation opcode len data w) =
        delete_handle handle (close_object obj w)"
      by (auto simp: dfgo_go_invoke_def operation_context_def dispatch_callback_def deliver_def Let_def)
    with callback_inv_release [OF w obj] show ?thesis by simp
  next
    case nz: False
    obtain out v where r: "(case operation_context an operation w of Inl p \<Rightarrow> (Panicked p, w)
        | Inr ctx \<Rightarrow> dispatch_callback an ops ctx opcode data obj w) = (out, v)" by fastforce
    have "effect w out v"
    proof (cases "operation_context an operation w")
      case (Inl p)
      with r have "out = Panicked p" "v = w" by auto
      then show ?thesis using effect_none [OF w] by simp
    next
      case (Inr ctx)
      with r effect_dispatch [OF w nz] show ?thesis by simp
    qed
    moreover have "snd (dfgo_go_invoke an ops handle operation opcode len data w) = snd (deliver (out, v))"
      using False obj r nz by (simp add: dfgo_go_invoke_def Let_def case_prod_beta)
    ultimately show ?thesis using callback_inv_effect [OF w] by simp
  qed
qed

lemma callback_inv_register:
  assumes w: "callback_inv w" and o: "\<And>r. obj \<noteq> ObjReader r"
  shows "callback_inv (snd (new_handle obj w))"
proof -
  have v: "cw_handles (snd (new_handle obj w)) = (cw_handles w)(cw_next w \<mapsto> obj)"
    "cw_readers (snd (new_handle obj w)) = cw_readers w" "cw_next (snd (new_handle obj w)) = cw_next w + 1"
    by (simp_all add: new_handle_def)
  have x: "((cw_handles w)(cw_next w \<mapsto> obj)) g = Some (ObjReader r) \<longleftrightarrow> cw_handles w g = Some (ObjReader r)" for g r
    using o callback_invD(1) [OF w, of "cw_next w"] by auto
  show ?thesis
    by (rule callback_invI, unfold v x) (use callback_invD [OF w] in auto)
qed

lemma callback_inv_reachable: "callback_reachable w \<Longrightarrow> callback_inv w"
proof (induction rule: callback_reachable.induct)
  case start
  then show ?case by (rule callback_invI) (simp_all add: callback_start_def)
next
  case (step w v)
  from step(2,3) show ?case
    by (cases rule: callback_step.cases) (auto intro: callback_inv_register callback_inv_invoke)
qed

subsection \<open>Reading a stream through the boundary\<close>

text \<open>What the native side does with a reader's handle: next batch until an empty answer or an error.\<close>

fun read_all ::
  "nat \<Rightarrow> 's cb_answers \<Rightarrow> 's panicky_ops \<Rightarrow> nat \<Rightarrow> 's cb_world \<Rightarrow> (string list \<times> string option) option" where
  "read_all 0 an ops h w = None"
| "read_all (Suc fuel) an ops h w =
     (case dfgo_go_invoke an ops h None 5 0 [] w of
        (StatusOk b None, v) \<Rightarrow>
          if b = [] then Some ([], None)
          else map_option (\<lambda>(bs, e). (b # bs, e)) (read_all fuel an ops h v)
      | (StatusError m, v) \<Rightarrow> Some ([], Some m)
      | _ \<Rightarrow> None)"

lemma invoke_next:
  assumes "cw_handles w h = Some (ObjReader r)"
  shows "dfgo_go_invoke an ops h None 5 0 [] w = deliver (next_batch an ops None (ObjReader r) w)"
  using assms by (simp add: dfgo_go_invoke_def operation_context_def dispatch_callback_def Let_def case_prod_beta)

lemma set_reader_frame:
  "cw_readers w r = Some (s, n) \<Longrightarrow> cw_readers (set_reader r t w) r = Some (t, n)"
  "cw_handles (set_reader r t w) = cw_handles w"
  by (auto simp: set_reader_def split: option.split prod.split)

lemma read_all_stream:
  assumes "drain rops fuel s = Some (map Some bs, e)"
    and "cw_handles w h = Some (ObjReader r)" "cw_readers w r = Some (s, n)"
    and sch: "\<And>t. op_schema rops t = Some sch"
    and enc: "\<And>b. encode_ipc an sch (Some b) = Inr (enc b)" "\<And>b. enc b \<noteq> []"
  shows "read_all fuel an (never_panics rops) h w = Some (map enc bs, map_option error_text e)"
  using assms(1-3)
proof (induction fuel arbitrary: s bs w)
  case (Suc fuel)
  obtain more t where nx: "op_next rops s = (more, t)" by fastforce
  show ?case
  proof (cases more)
    case False
    with Suc.prems nx have d: "bs = []" "e = op_err rops t" by auto
    show ?thesis
      using Suc.prems nx False d
      by (auto simp: invoke_next next_batch_def deliver_def callback_error_def split: option.splits)
  next
    case True
    with Suc.prems(1) nx obtain b cs where d: "op_batch rops t = Some b" "bs = b # cs" "drain rops fuel t = Some (map Some cs, e)"
      by (cases bs) (auto split: option.splits)
    have "dfgo_go_invoke an (never_panics rops) h None 5 0 [] w = (StatusOk (enc b) None, set_reader r t w)"
      using Suc.prems(2,3) nx True d(1) sch enc(1)
      by (simp add: invoke_next next_batch_def deliver_def answered_def)
    moreover have "read_all fuel an (never_panics rops) h (set_reader r t w) = Some (map enc cs, map_option error_text e)"
      using Suc.IH [OF d(3), of "set_reader r t w"] Suc.prems(2,3) by (simp add: set_reader_frame)
    ultimately show ?thesis using d(2) enc(2) by simp
  qed
qed simp

subsection \<open>Types that can be copied\<close>

fun type_children :: "arrow_type \<Rightarrow> (string \<times> arrow_type \<times> bool) list" where
  "type_children (TList fs) = fs"
| "type_children (TLargeList fs) = fs"
| "type_children (TFixedSizeList k fs) = fs"
| "type_children (TStruct fs) = fs"
| "type_children (TMap fs) = fs"
| "type_children t = []"

text \<open>A type occurs in itself and in every list, struct or map it is nested in.\<close>

inductive occurs_in :: "arrow_type \<Rightarrow> arrow_type \<Rightarrow> bool" where
  here: "occurs_in t t"
| child: "(n, c, nu) \<in> set (type_children t) \<Longrightarrow> occurs_in u c \<Longrightarrow> occurs_in u t"

definition borrows_buffers :: "arrow_type \<Rightarrow> bool" where
  "borrows_buffers t = (case t of
     TDictionary v \<Rightarrow> True | TExtension n u \<Rightarrow> True | TStringView \<Rightarrow> True | TBinaryView \<Rightarrow> True
   | TListView \<Rightarrow> True | TLargeListView \<Rightarrow> True | TSparseUnion \<Rightarrow> True | TDenseUnion \<Rightarrow> True | TRunEndEncoded \<Rightarrow> True
   | _ \<Rightarrow> False)"

lemma can_copy_step:
  "can_copy_callback_type t \<longleftrightarrow> \<not> borrows_buffers t \<and> (\<forall>(n, c, nu) \<in> set (type_children t). can_copy_callback_type c)"
  by (cases t) (auto simp: borrows_buffers_def list_all_iff)

lemma member_size:
  "(n, c, nu) \<in> set fs \<Longrightarrow> size c < Suc (size_list (size_prod (\<lambda>x. 0) (size_prod size (\<lambda>x. 0))) fs)"
  by (induction fs) auto

lemma type_children_size: "(n, c, nu) \<in> set (type_children t) \<Longrightarrow> size c < size t"
  by (cases t) (auto dest: member_size)

lemma distinct_remdups_adj_sorted: "sorted xs \<Longrightarrow> distinct (remdups_adj xs)"
  by (induction xs rule: remdups_adj.induct) auto

subsection \<open>Properties\<close>

text \<open>C13: Whatever the native side calls, in any order and with any answers, errors and panics of the user's code, every reader a
  provider handed out is released exactly once: at once if the scan failed, else when its handle is
  dropped, and never before.\<close>

theorem provider_readers_released_once:
  assumes "callback_reachable w" and "cw_readers w r = Some (s, n)"
  shows "n = (if \<exists>h. cw_handles w h = Some (ObjReader r) then 0 else 1)"
  using callback_invD(3) [OF callback_inv_reachable [OF assms(1)] assms(2)] .

text \<open>C37: Reading a provider's reader through its handle yields the encodings of its batches in order, then the end or the
  reader's error: the same stream as reading it in Go.\<close>

theorem callback_stream_equals_drain:
  assumes "drain rops fuel s = Some (map Some bs, e)"
    and "cw_handles w h = Some (ObjReader r)" "cw_readers w r = Some (s, n)"
    and "\<forall>t. op_schema rops t = Some sch"
    and "\<forall>b. encode_ipc an sch (Some b) = Inr (enc b) \<and> enc b \<noteq> []"
  shows "read_all fuel an (never_panics rops) h w = Some (map enc bs, map_option error_text e)"
  using read_all_stream [OF assms(1-3), of sch an enc] assms(4,5) by blast

text \<open>The names a catalog lists reach the engine sorted, without duplicates, and exactly those the catalog returned; a
  listing with an empty or NUL-containing name is rejected as a whole.\<close>

theorem listed_names_canonical:
  "case listed_names names of
     Inr ns \<Rightarrow> sorted ns \<and> distinct ns \<and> set ns = set names \<and> list_all valid_name ns
   | Inl e \<Rightarrow> \<not> list_all valid_name names"
  by (auto simp: listed_names_def list_all_iff distinct_remdups_adj_sorted sorted_remdups_adj)

text \<open>A type qualifies for the buffer copy exactly when no dictionary, extension, view, union or run-end-encoded
  type occurs anywhere in it.\<close>

theorem can_copy_iff_nothing_borrows:
  "can_copy_callback_type t \<longleftrightarrow> \<not> (\<exists>u. occurs_in u t \<and> borrows_buffers u)"
proof (induction t rule: measure_induct_rule [of size])
  case (less t)
  have ih: "can_copy_callback_type c \<longleftrightarrow> \<not> (\<exists>u. occurs_in u c \<and> borrows_buffers u)"
    if "(n, c, nu) \<in> set (type_children t)" for n c nu
    using less type_children_size [OF that] by blast
  show ?case
  proof
    assume c: "can_copy_callback_type t"
    show "\<not> (\<exists>u. occurs_in u t \<and> borrows_buffers u)"
    proof
      assume "\<exists>u. occurs_in u t \<and> borrows_buffers u"
      then obtain u where u: "occurs_in u t" "borrows_buffers u" by blast
      from u(1) show False
      proof cases
        case here
        with c u(2) show False using can_copy_step [of t] by simp
      next
        case (child n d nu)
        with c have "can_copy_callback_type d" by (auto simp: can_copy_step [of t])
        with ih [OF child(1)] child(2) u(2) show False by blast
      qed
    qed
  next
    assume n: "\<not> (\<exists>u. occurs_in u t \<and> borrows_buffers u)"
    have "\<not> borrows_buffers t" using n occurs_in.here by blast
    moreover have "can_copy_callback_type d" if "(m, d, nu) \<in> set (type_children t)" for m d nu
      using n ih [OF that] occurs_in.child [OF that] by blast
    ultimately show "can_copy_callback_type t" unfolding can_copy_step [of t] by auto
  qed
qed

text \<open>A batch leaves by copied buffers only when every column qualifies, and then as the same batch;
  a function's result leaves only if it has the declared type and one row per argument row.\<close>

theorem exported_batches_conform:
  "case export_callback_batch an b of
     Exported c \<Rightarrow> c = b \<and> list_all (\<lambda>a. can_copy_callback_type (arr_type a)) (bt_cols b)
   | Answered bytes obj \<Rightarrow> encode_ipc an (bt_fields b) (Some b) = Inr bytes \<and> obj = None
   | Failed e \<Rightarrow> True
   | Panicked p \<Rightarrow> False"
proof -
  have small: "list_all (\<lambda>a. can_copy_callback_type (arr_type a)) cs" if "small_columns sz acc cs = Some v" for sz acc cs v
    using that by (induction cs arbitrary: acc) (auto split: if_splits)
  have cols: "ys = cs" if "traverse (\<lambda>c. case an_concat an c of Some e \<Rightarrow> Inl e | None \<Rightarrow> Inr c) cs = Inr ys" for cs ys
    using that by (induction cs arbitrary: ys) (auto simp: res_simps split: option.splits)
  show ?thesis
    using small cols
    by (auto simp: export_callback_batch_def answered_def split: option.splits bool.splits sum.splits)
qed

subsection \<open>Concrete calls\<close>

definition sample_callbacks :: "source cb_answers" where
  "sample_callbacks = \<lparr>an_ctx = None, an_json = (\<lambda>_. Some (JObj [])), an_json_names = concat, an_floats = sample_floats,
     an_write = (\<lambda>_ _. None), an_finish = (\<lambda>_ _. None),
     an_bytes = (\<lambda>_ b. case b of None \<Rightarrow> ''schema'' | Some x \<Rightarrow> ''batch''), an_schema = Inr None,
     an_scan = (\<lambda>_. Inr (Some two_column_source, None)), an_resolve = (\<lambda>_ _. Inr (None, None)),
     an_stream_size = 0, an_exchange_size = 0, an_insert = (\<lambda>_. Inr (0, None)), an_import = None, an_import_err = None,
     an_arguments = Inr None, an_size = (\<lambda>_. 0), an_concat = (\<lambda>_. None), an_evaluate = (\<lambda>_ _. Inr (None, None)),
     an_names = (\<lambda>_. Inr ([], None))\<rparr>"

text \<open>A provider is registered under handle 0 and scanned: reader 1 is handed out as handle 2.\<close>

definition sample_scanned :: "source cb_world" where
  "sample_scanned = snd (dfgo_go_invoke sample_callbacks (never_panics source_ops) 0 None 4 2 ''{}''
     (snd (new_handle (ObjProvider False False) callback_start)))"

lemma sample_scanned_reachable: "callback_reachable sample_scanned"
  unfolding sample_scanned_def
  by (rule callback_reachable.step [OF callback_reachable.step [OF callback_reachable.start
        callback_step.register_object] callback_step.invoke_callback]) simp_all

lemma sample_scanned_eq:
  "cw_handles sample_scanned = [0 \<mapsto> ObjProvider False False, 2 \<mapsto> ObjReader 1]"
  "cw_readers sample_scanned = [1 \<mapsto> (two_column_source, 0)]"
  by (simp_all add: sample_scanned_def dfgo_go_invoke_def new_handle_def callback_start_def operation_context_def
      dispatch_callback_def open_scan_def scan_request_of_def sample_callbacks_def scanned_def adopt_reader_def
      source_ops_def two_column_source_def encode_ipc_def deliver_def eval_nat_numeral)

lemma provider_readers_released_once_witness:
  "(0 :: nat) = (if \<exists>h. cw_handles sample_scanned h = Some (ObjReader 1) then 0 else 1)"
  by (rule provider_readers_released_once [OF sample_scanned_reachable, of 1 two_column_source 0])
     (simp add: sample_scanned_eq)

lemma callback_stream_equals_drain_witness:
  "read_all 3 (sample_callbacks\<lparr>an_bytes := \<lambda>_ b. ''batch''\<rparr>)
     (never_panics (source_ops\<lparr>op_schema := \<lambda>_. Some []\<rparr>)) 2 sample_scanned = Some ([''batch'', ''batch''], None)"
proof -
  let ?ops = "source_ops\<lparr>op_schema := \<lambda>_. Some []\<rparr>" and ?an = "sample_callbacks\<lparr>an_bytes := \<lambda>_ b. ''batch''\<rparr>"
  have d: "drain ?ops 3 two_column_source = Some (map Some [two_columns, two_columns], None)"
    by (simp add: eval_nat_numeral source_ops_def source_next_def two_column_source_def)
  have "read_all 3 ?an (never_panics ?ops) 2 sample_scanned =
      Some (map (\<lambda>_. ''batch'') [two_columns, two_columns], map_option error_text None)"
    by (rule callback_stream_equals_drain [OF d, of _ 2 1 0 "[]"])
       (simp_all add: sample_scanned_eq encode_ipc_def sample_callbacks_def)
  then show ?thesis by simp
qed

end
