(* ===== verification/GoText.thy ===== *)
theory GoText
  imports GoStrings "HOL-Library.List_Lexorder" "HOL-Library.Char_ord"
begin

text \<open>
  The rest of Go's text functions the tools and the option parser use: \<^verbatim>\<open>strconv\<close> quoting, lines of text,
  and lemmas on trimming a line, splitting at a separator and reading digits.  \<open>go_quote\<close> is the verb
  \<^verbatim>\<open>%q\<close> on printable UTF-8 and ASCII, \<open>go_unquote\<close> is \<^verbatim>\<open>strconv.Unquote\<close> on valid UTF-8.
\<close>

subsection \<open>Quoting\<close>

definition hex_char :: "nat \<Rightarrow> char" where
  "hex_char d = (if d < 10 then char_of (48 + d) else char_of (87 + d))"

definition escape_char :: "char \<Rightarrow> string" where
  "escape_char c =
     (case map_of [(CHR 0x07, CHR ''a''), (CHR 0x08, CHR ''b''), (CHR 0x0C, CHR ''f''), (CHR 0x0A, CHR ''n''),
         (CHR 0x0D, CHR ''r''), (CHR 0x09, CHR ''t''), (CHR 0x0B, CHR ''v''), (CHR 0x5C, CHR 0x5C), (CHR 0x22, CHR 0x22)] c of
        Some e \<Rightarrow> [CHR 0x5C, e]
      | None \<Rightarrow> (let n = (of_char c :: nat) in
          if n < 32 \<or> n = 127 then [CHR 0x5C, CHR ''x'', hex_char (n div 16), hex_char (n mod 16)] else [c]))"

definition go_quote :: "string \<Rightarrow> string" where
  "go_quote s = [CHR 0x22] @ concat (map escape_char s) @ [CHR 0x22]"

text \<open>
  Reading the body of a double-quoted string; a raw quote or line feed is an error, so are a single-quote
  escape, a surrogate and a code point above \<^verbatim>\<open>10FFFF\<close>.
\<close>

definition digit_of :: "nat \<Rightarrow> char \<Rightarrow> nat option" where
  "digit_of base c = (let n = (of_char c :: nat);
       d = (if 48 \<le> n \<and> n \<le> 57 then n - 48 else if 97 \<le> n \<and> n \<le> 102 then n - 87
            else if 65 \<le> n \<and> n \<le> 70 then n - 55 else base) in
     if d < base then Some d else None)"

fun read_base :: "nat \<Rightarrow> nat \<Rightarrow> string \<Rightarrow> nat option" where
  "read_base base acc [] = Some acc"
| "read_base base acc (c # s) =
     (case digit_of base c of None \<Rightarrow> None | Some d \<Rightarrow> read_base base (base * acc + d) s)"

definition utf8_encode :: "nat \<Rightarrow> string" where
  "utf8_encode n = map char_of
     (if n < 0x80 then [n]
      else if n < 0x800 then [0xC0 + n div 64, 0x80 + n mod 64]
      else if n < 0x10000 then [0xE0 + n div 4096, 0x80 + n div 64 mod 64, 0x80 + n mod 64]
      else [0xF0 + n div 262144, 0x80 + n div 4096 mod 64, 0x80 + n div 64 mod 64, 0x80 + n mod 64])"

definition rune_text :: "nat \<Rightarrow> string option" where
  "rune_text n = (if 0x10FFFF < n \<or> (0xD800 \<le> n \<and> n \<le> 0xDFFF) then None else Some (utf8_encode n))"

text \<open>What follows a backslash: the decoded bytes and the number of characters read.\<close>

definition fixed_escape :: "nat \<Rightarrow> nat \<Rightarrow> string \<Rightarrow> nat option" where
  "fixed_escape base k s = (if length s < k then None else read_base base 0 (take k s))"

definition unescape :: "char \<Rightarrow> string \<Rightarrow> (string \<times> nat) option" where
  "unescape d t =
     (case map_of [(CHR ''a'', CHR 0x07), (CHR ''b'', CHR 0x08), (CHR ''f'', CHR 0x0C), (CHR ''n'', CHR 0x0A),
         (CHR ''r'', CHR 0x0D), (CHR ''t'', CHR 0x09), (CHR ''v'', CHR 0x0B), (CHR 0x5C, CHR 0x5C), (CHR 0x22, CHR 0x22)] d of
        Some e \<Rightarrow> Some ([e], 0)
      | None \<Rightarrow>
          if d = CHR ''x'' then map_option (\<lambda>n. ([char_of n], 2)) (fixed_escape 16 2 t)
          else if d = CHR ''u'' then Option.bind (fixed_escape 16 4 t) (\<lambda>n. map_option (\<lambda>s. (s, 4)) (rune_text n))
          else if d = CHR ''U'' then Option.bind (fixed_escape 16 8 t) (\<lambda>n. map_option (\<lambda>s. (s, 8)) (rune_text n))
          else Option.bind (fixed_escape 8 3 (d # t)) (\<lambda>n. if 255 < n then None else Some ([char_of n], 2)))"

fun unquote_body :: "string \<Rightarrow> string option" where
  "unquote_body [] = Some []"
| "unquote_body (c # s) =
     (if c = CHR 0x22 \<or> c = CHR 0x0A then None
      else if c = CHR 0x5C then
        (case s of
           [] \<Rightarrow> None
         | d # t \<Rightarrow> (case unescape d t of
             None \<Rightarrow> None
           | Some (e, k) \<Rightarrow> map_option (\<lambda>r. e @ r) (unquote_body (drop k t))))
      else map_option (Cons c) (unquote_body s))"

definition go_unquote :: "string \<Rightarrow> string option" where
  "go_unquote s = (if length s < 2 \<or> hd s \<noteq> CHR 0x22 \<or> last s \<noteq> CHR 0x22 then None else unquote_body (butlast (tl s)))"

subsection \<open>Lines of text\<close>

definition text_of :: "string list \<Rightarrow> string" where
  "text_of ls = concat (map (\<lambda>l. l @ [CHR 0x0A]) ls)"

definition tab :: "string \<Rightarrow> string" where
  "tab l = CHR 0x09 # l"

lemma escape_char_no_newline: "CHR 0x0A \<notin> set (escape_char c)"
proof -
  have hex: "hex_char d \<noteq> CHR 0x0A" "CHR 0x0A \<noteq> hex_char d" if "d < 16" for d
  proof -
    have "(of_char (hex_char d) :: nat) \<noteq> 10" using that by (simp add: hex_char_def)
    then show "hex_char d \<noteq> CHR 0x0A" by auto
    then show "CHR 0x0A \<noteq> hex_char d" by metis
  qed
  have "(of_char c :: nat) < 256" by simp
  then show ?thesis
    by (auto simp: escape_char_def Let_def hex split: option.splits if_splits)
qed

subsection \<open>Strings: trimming a line, splitting at dots, digits\<close>

lemma trim_left_ident:
  "\<not> ascii_space c \<Longrightarrow> c \<notin> {CHR 0xC2, CHR 0xE1, CHR 0xE2, CHR 0xE3} \<Longrightarrow> trim_left (c # s) = c # s"
  by (cases "c # s" rule: trim_left.cases) (simp_all add: space2_def space3_def)

lemma trim_left_rev_ident:
  "\<not> ascii_space c \<Longrightarrow> c \<in> {CHR 0x22} \<Longrightarrow> trim_left_rev (c # s) = c # s"
  by (cases "c # s" rule: trim_left_rev.cases) (simp_all add: space2_def space3_def)

lemma trim_left_rev_space: "ascii_space c \<Longrightarrow> trim_left_rev (c # s) = trim_left_rev s"
  by (cases "c # s" rule: trim_left_rev.cases) auto

lemma trim_space_line:
  assumes "\<not> ascii_space c" "c \<notin> {CHR 0xC2, CHR 0xE1, CHR 0xE2, CHR 0xE3}" 
  shows "trim_space (c # s @ [CHR 0x22, CHR 0x0A]) = c # s @ [CHR 0x22]"
proof -
  have nl: "ascii_space CHR 0x0A" and q: "\<not> ascii_space CHR 0x22" by (simp_all add: ascii_space_def)
  show ?thesis using assms
    by (simp add: trim_space_def trim_left_ident trim_left_rev_space [OF nl] trim_left_rev_ident [OF q])
qed

lemma split_on_single: "c \<notin> set s \<Longrightarrow> split_on c s = [s]"
  by (induction s) auto

lemma split_on_append: "c \<notin> set s \<Longrightarrow> split_on c (s @ c # t) = s # split_on c t"
  by (induction s) auto

lemma show_nat_no_dot: "CHR ''.'' \<notin> set (show_nat n)"
  using show_nat_digits [of "CHR ''.''" n] by (auto simp: char_digit_def)

lemma show_nat2_no_dot: "CHR ''.'' \<notin> set (show_nat2 n)"
  by (simp add: show_nat2_def show_nat_no_dot)

lemma read_digits_acc: "read_digits a s = map_option (\<lambda>n. a * 10 ^ length s + n) (read_digits 0 s)"
proof (induction s arbitrary: a)
  case (Cons c s)
  show ?case
  proof (cases "char_digit c")
    case (Some d)
    show ?thesis
      using Cons.IH [of "10 * a + d"] Cons.IH [of d] Some
      by (cases "read_digits 0 s") (simp_all add: algebra_simps)
  qed simp
qed simp

end
