(* ===== verification/ToolFiles.thy ===== *)
theory ToolFiles
  imports GoErrors GoText
begin

text \<open>
  The files of the repository as the maintenance tools under \<^verbatim>\<open>internal/tools\<close> see them: a map from paths to
  contents, where a read of an absent file fails by itself and \<open>faults\<close> says which other reads or writes fail.
\<close>

type_synonym file_system = "string \<Rightarrow> string option"
type_synonym faults = "string \<Rightarrow> go_error option"

definition absent :: "string \<Rightarrow> go_error" where
  "absent path = Plain (''open '' @ path @ '': no such file or directory'')"

definition read_path :: "faults \<Rightarrow> file_system \<Rightarrow> string \<Rightarrow> go_error + string" where
  "read_path rf fs path =
     (case rf path of
        Some e \<Rightarrow> Inl e
      | None \<Rightarrow> (case fs path of None \<Rightarrow> Inl (absent path) | Some data \<Rightarrow> Inr data))"

lemma read_path_Inr [res_simps]: "read_path rf fs path = Inr data \<longleftrightarrow> rf path = None \<and> fs path = Some data"
  by (auto simp: read_path_def split: option.splits)

end
