(* ===== verification/Versions.thy ===== *)
theory Versions
  imports ToolFiles "HOL-Library.Multiset"
begin

text \<open>
  Release versions (\<^verbatim>\<open>internal/tools/genversions/main.go\<close>, \<^verbatim>\<open>check_bump.go\<close>): the parser of
  \<^verbatim>\<open>versions.toml\<close>, the version a release gets, the files generated from it, and the check that a change
  of shipped files bumps it.  The answers of the file system and of git are arguments.  \<^verbatim>\<open>int\<close> has 64
  bits; a parsed number is at most \<open>2 ^ 63 - 1\<close>, so adding 1 to it in \<open>nat\<close> never meets another parsed
  number where Go wraps.
\<close>

subsection \<open>Versions of DataFusion\<close>

datatype df_version = DfVersion (df_major: nat) (df_minor: nat) (df_patch: nat)

fun df_compare :: "df_version \<Rightarrow> df_version \<Rightarrow> int" where
  "df_compare (DfVersion a b c) (DfVersion x y z) =
     (if a \<noteq> x then (if a < x then - 1 else 1)
      else if b \<noteq> y then (if b < y then - 1 else 1)
      else if c \<noteq> z then (if c < z then - 1 else 1) else 0)"

instantiation df_version :: linorder
begin

definition less_eq_df_version :: "df_version \<Rightarrow> df_version \<Rightarrow> bool" where
  "less_eq_df_version v w \<longleftrightarrow> df_compare v w \<le> 0"

definition less_df_version :: "df_version \<Rightarrow> df_version \<Rightarrow> bool" where
  "less_df_version v w \<longleftrightarrow> df_compare v w < 0"

instance
proof
  fix u v w :: df_version
  show "v < w \<longleftrightarrow> v \<le> w \<and> \<not> w \<le> v"
    by (cases v; cases w; auto simp: less_df_version_def less_eq_df_version_def split: if_splits)
  show "v \<le> v"
    by (cases v; auto simp: less_eq_df_version_def)
  show "v \<le> w \<or> w \<le> v"
    by (cases v; cases w; auto simp: less_eq_df_version_def split: if_splits)
  show "v \<le> w \<Longrightarrow> w \<le> v \<Longrightarrow> v = w"
    by (cases v; cases w; auto simp: less_eq_df_version_def split: if_splits)
  show "u \<le> v \<Longrightarrow> v \<le> w \<Longrightarrow> u \<le> w"
    by (cases u; cases v; cases w; auto simp: less_eq_df_version_def split: if_splits)
qed

end

lemma df_compare_sign:
  "df_compare v w < 0 \<longleftrightarrow> v < w" "df_compare v w = 0 \<longleftrightarrow> v = w" "0 < df_compare v w \<longleftrightarrow> w < v"
  by (cases v; cases w; auto simp: less_df_version_def)+

lemma df_less_iff:
  "DfVersion a b c < DfVersion x y z \<longleftrightarrow> a < x \<or> a = x \<and> (b < y \<or> b = y \<and> c < z)"
  by (auto simp: less_df_version_def)

subsection \<open>The configuration\<close>

record config =
  cf_text :: string
  cf_version :: df_version
  cf_go_major :: nat
  cf_go_patch :: nat
  cf_abi :: nat

definition line_error :: "string \<Rightarrow> nat \<Rightarrow> string \<Rightarrow> go_error" where
  "line_error path n m = Plain (path @ '':'' @ show_nat n @ '': '' @ m)"

fun strip_comment_from :: "bool \<Rightarrow> bool \<Rightarrow> string \<Rightarrow> string" where
  "strip_comment_from quoted escaped [] = []"
| "strip_comment_from quoted escaped (c # s) =
     (if escaped then c # strip_comment_from quoted False s
      else if c = CHR 0x5C \<and> quoted then c # strip_comment_from quoted True s
      else if c = CHR 0x22 then c # strip_comment_from (\<not> quoted) False s
      else if c = CHR ''#'' \<and> \<not> quoted then []
      else c # strip_comment_from quoted False s)"

definition strip_comment :: "string \<Rightarrow> string" where
  "strip_comment line = strip_comment_from False False line"

text \<open>\<^verbatim>\<open>strconv.Atoi\<close> on a 64-bit platform.\<close>

definition go_atoi :: "string \<Rightarrow> go_error + int" where
  "go_atoi s =
     (let (negative, digits) = (case s of
          c # t \<Rightarrow> if c = CHR ''-'' then (True, t) else if c = CHR ''+'' then (False, t) else (False, s)
        | [] \<Rightarrow> (False, s));
        failed = (\<lambda>m. Inl (Plain (''strconv.Atoi: parsing '' @ go_quote s @ '': '' @ m)))
      in case read_nat digits of
           None \<Rightarrow> failed ''invalid syntax''
         | Some n \<Rightarrow> (let i = (if negative then - int n else int n) in
             if - (2 ^ 63) \<le> i \<and> i < 2 ^ 63 then Inr i else failed ''value out of range''))"

type_synonym toml_values = "(string \<times> string) list"

definition required_string :: "toml_values \<Rightarrow> string \<Rightarrow> go_error + string" where
  "required_string vals key =
     (case map_of vals key of
        None \<Rightarrow> Inl (Plain (''versions.toml missing '' @ key))
      | Some value \<Rightarrow>
          if length value < 2 \<or> hd value \<noteq> CHR 0x22 \<or> last value \<noteq> CHR 0x22
          then Inl (Plain (key @ '' must be a quoted string''))
          else (case go_unquote value of
              None \<Rightarrow> Inl (Wrapped (key @ '' is not a valid quoted string'') (Plain ''invalid syntax''))
            | Some s \<Rightarrow> if s = [] then Inl (Plain (key @ '' must not be empty'')) else Inr s))"

definition required_int :: "toml_values \<Rightarrow> string \<Rightarrow> go_error + nat" where
  "required_int vals key =
     (case map_of vals key of
        None \<Rightarrow> Inl (Plain (''versions.toml missing '' @ key))
      | Some value \<Rightarrow> (case go_atoi value of
            Inl e \<Rightarrow> Inl (Plain (key @ '' must be a non-negative integer''))
          | Inr n \<Rightarrow> if n < 0 then Inl (Plain (key @ '' must be a non-negative integer'')) else Inr (nat n)))"

text \<open>The regular expression: three non-empty groups of digits between two dots.\<close>

definition semver_part :: "string \<Rightarrow> bool" where
  "semver_part s \<longleftrightarrow> s \<noteq> [] \<and> list_all (\<lambda>c. char_digit c \<noteq> None) s"

definition semver_component :: "string \<Rightarrow> go_error + nat" where
  "semver_component s =
     (case go_atoi s of
        Inl e \<Rightarrow> Inl (Wrapped ''datafusion.version component is out of range'' e)
      | Inr n \<Rightarrow> Inr (nat n))"

definition parse_semver :: "string \<Rightarrow> go_error + df_version" where
  "parse_semver version =
     (let parts = split_on CHR ''.'' version in
      if length parts = 3 \<and> list_all semver_part parts
      then rbind (semver_component (parts ! 0)) (\<lambda>x. rbind (semver_component (parts ! 1)) (\<lambda>y.
           rbind (semver_component (parts ! 2)) (\<lambda>z. Inr (DfVersion x y z))))
      else Inl (Plain (''datafusion.version must be major.minor.patch, got '' @ go_quote version)))"

definition known_sections :: "string list" where
  "known_sections = [''datafusion'', ''datafusion_go'', ''abi'']"

definition known_keys :: "string list" where
  "known_keys = [''datafusion.version'', ''datafusion_go.major'', ''datafusion_go.patch'', ''abi.version'']"

text \<open>The lines: their number, the current section, the sections seen and the values so far.\<close>

fun parse_lines :: "string \<Rightarrow> nat \<Rightarrow> string list \<Rightarrow> string \<Rightarrow> string list \<Rightarrow> toml_values \<Rightarrow> go_error + toml_values" where
  "parse_lines path n [] sec seen vals = Inr vals"
| "parse_lines path n (raw # rest) sec seen vals =
     (let line = trim_space (strip_comment raw) in
      if line = [] then parse_lines path (n + 1) rest sec seen vals
      else if has_prefix line ''['' \<and> has_suffix line '']'' then
        (let new = trim_space (trim_suffix (trim_prefix line ''['') '']'') in
         if new \<notin> set known_sections then Inl (line_error path (n + 1) (''unknown section '' @ go_quote new))
         else if new \<in> set seen then Inl (line_error path (n + 1) (''duplicate section '' @ go_quote new))
         else parse_lines path (n + 1) rest new (new # seen) vals)
      else if sec = [] then Inl (line_error path (n + 1) ''key outside section'')
      else (case cut line ''='' of
          None \<Rightarrow> Inl (line_error path (n + 1) ''expected key = value'')
        | Some (key, value) \<Rightarrow>
            (let name = sec @ ''.'' @ trim_space key in
             if name \<notin> set known_keys then Inl (line_error path (n + 1) (''unknown key '' @ go_quote name))
             else if map_of vals name \<noteq> None then Inl (line_error path (n + 1) (''duplicate key '' @ go_quote name))
             else parse_lines path (n + 1) rest sec seen ((name, trim_space value) # vals))))"

definition config_of :: "toml_values \<Rightarrow> go_error + config" where
  "config_of vals =
     rbind (required_string vals ''datafusion.version'') (\<lambda>version.
     rbind (parse_semver version) (\<lambda>v.
       if 99 < df_minor v \<or> 99 < df_patch v
       then Inl (Plain (''datafusion.version '' @ go_quote version @
              '' cannot be encoded with two-digit minor and patch components''))
       else rbind (required_int vals ''datafusion_go.major'') (\<lambda>major.
         rbind (required_int vals ''datafusion_go.patch'') (\<lambda>patch.
         rbind (required_int vals ''abi.version'') (\<lambda>abi.
           if 2 ^ 31 - 1 < int abi then Inl (Plain ''abi.version must fit in a signed 32-bit integer'')
           else Inr \<lparr>cf_text = version, cf_version = v, cf_go_major = major, cf_go_patch = patch, cf_abi = abi\<rparr>)))))"

definition parse_config :: "string \<Rightarrow> string \<Rightarrow> go_error + config" where
  "parse_config path data = rbind (parse_lines path 0 (split_on CHR 0x0A data) [] [] []) config_of"

definition encoded_version :: "config \<Rightarrow> string" where
  "encoded_version cfg =
     show_nat (df_major (cf_version cfg)) @ show_nat2 (df_minor (cf_version cfg)) @ show_nat2 (df_patch (cf_version cfg))"

definition go_version :: "config \<Rightarrow> string" where
  "go_version cfg = show_nat (cf_go_major cfg) @ ''.'' @ encoded_version cfg @ ''.'' @ show_nat (cf_go_patch cfg)"

definition release_tag :: "config \<Rightarrow> string" where
  "release_tag cfg = ''v'' @ go_version cfg"

subsection \<open>The check of a release\<close>

definition show_strings :: "string list \<Rightarrow> string" where
  "show_strings xs = ''['' @ join_with '' '' xs @ '']''"

definition validate_version_bump :: "config \<Rightarrow> config \<Rightarrow> string list \<Rightarrow> go_error option" where
  "validate_version_bump base current shipped =
     (if cf_abi current < cf_abi base
      then Some (Plain (''abi.version must not decrease ('' @ show_nat (cf_abi base) @ '' -> '' @ show_nat (cf_abi current) @ '')''))
      else if release_tag current = release_tag base then
        (if shipped \<noteq> [] \<or> cf_abi current \<noteq> cf_abi base
         then Some (Plain (''shipped package changes require a new release version (still '' @ release_tag current @
                ''); update versions.toml, run make generate, and add release notes in CHANGELOG.md; changed files: '' @
                show_strings shipped))
         else None)
      else if cf_go_major current \<noteq> cf_go_major base \<and> cf_go_major current \<noteq> cf_go_major base + 1
      then Some (Plain (''datafusion_go.major must stay at '' @ show_nat (cf_go_major base) @ '' or increment to '' @
             show_nat (cf_go_major base + 1)))
      else
        (let comparison = df_compare (cf_version current) (cf_version base);
             want = (if comparison = 0 then cf_go_patch base + 1 else 0) in
         if comparison < 0
         then Some (Plain (''datafusion.version must not decrease ('' @ cf_text base @ '' -> '' @ cf_text current @ '')''))
         else if cf_go_patch current \<noteq> want
         then Some (Plain (''datafusion_go.patch must be '' @ show_nat want @ '' for DataFusion '' @ cf_text current @
                '' (got '' @ show_nat (cf_go_patch current) @
                ''): use 0 for a new DataFusion version, otherwise increment the previous patch''))
         else None))"

text \<open>\<^verbatim>\<open>path.Base\<close>.\<close>

definition path_base :: "string \<Rightarrow> string" where
  "path_base name =
     (let t = rev (dropWhile (\<lambda>c. c = CHR ''/'') (rev name)) in
      if name = [] then ''.'' else if t = [] then ''/'' else last (split_on CHR ''/'' t))"

definition always_shipped :: "string list" where
  "always_shipped = [''go.mod'', ''go.sum'', ''rust/Cargo.toml'', ''rust/Cargo.lock'', ''rust/build.rs'', ''Makefile'',
     ''.gitattributes'', ''.github/workflows/release.yml'']"

definition excluded_prefixes :: "string list" where
  "excluded_prefixes = [''docs/'', ''examples/'', ''testdata/'', ''scripts/'', ''.agents/'', ''.codex/'', ''.github/'',
     ''internal/tools/'', ''internal/conformance/'']"

definition is_shipped_file :: "string \<Rightarrow> bool" where
  "is_shipped_file name =
     (if name \<in> set always_shipped then True
      else let base = path_base name in
        if has_suffix base ''_test.go'' \<or> has_suffix base ''.md'' \<or> contains name ''/testdata/'' then False
        else if list_ex (has_prefix name) excluded_prefixes then False
        else if \<not> contains name ''/'' then has_suffix name ''.go'' \<or> has_suffix name ''.c'' \<or> has_suffix name ''.h''
        else if has_prefix name ''internal/'' then \<not> has_prefix base ''test_'' \<and> \<not> has_prefix base ''sqllogictest.''
        else if has_suffix name ''.go'' then True
        else if has_prefix name ''rust/src/'' then base \<noteq> ''tests.rs'' \<and> \<not> has_suffix base ''_tests.rs'' \<and>
          \<not> contains name ''/tests/'' \<and> name \<noteq> ''rust/src/sqllogictest.rs'' \<and>
          \<not> has_prefix name ''rust/src/sqllogictest/'' \<and> name \<noteq> ''rust/src/abi/contract_generated.rs''
        else has_prefix name ''rust/include/'')"

fun release_notes_from :: "string \<Rightarrow> bool \<Rightarrow> string list \<Rightarrow> bool" where
  "release_notes_from heading inside [] = False"
| "release_notes_from heading inside (line # rest) =
     (if line = heading \<or> has_prefix line (heading @ '' - '') then release_notes_from heading True rest
      else if inside \<and> has_prefix line ''## '' then False
      else if inside \<and> trim_space line \<noteq> [] then True
      else release_notes_from heading inside rest)"

definition has_release_notes :: "string \<Rightarrow> string \<Rightarrow> bool" where
  "has_release_notes changelog tag = release_notes_from (''## '' @ tag) False (split_on CHR 0x0A changelog)"

text \<open>
  \<^verbatim>\<open>checkVersionBump\<close>: \<open>git\<close> answers a list of arguments, \<open>read_file\<close> a path.  The result is an error
  or the line printed.
\<close>

definition shipped_changes :: "string \<Rightarrow> string list" where
  "shipped_changes diff = filter is_shipped_file (split_on CHR 0x00 diff)"

definition check_new_release ::
  "(string list \<Rightarrow> go_error + string) \<Rightarrow> (string \<Rightarrow> go_error + string) \<Rightarrow> config \<Rightarrow> config \<Rightarrow> go_error + string" where
  "check_new_release git read_file base current =
     (let tag = release_tag current; mark = (\<lambda>h. [CHR 0x27] @ ''## '' @ h @ [CHR 0x27]) in
      rbind (git [''tag'', ''--list'', tag]) (\<lambda>tags.
        if trim_space tags \<noteq> []
        then Inl (Plain (''release tag '' @ tag @ '' already exists; choose the next unreleased version''))
        else rbind (read_file ''CHANGELOG.md'') (\<lambda>changelog.
          if \<not> has_release_notes changelog tag
          then Inl (Plain (''CHANGELOG.md needs a non-empty '' @ mark tag @ '' or '' @ mark (tag @ '' - <date>'') @ '' entry''))
          else Inr (''Release version '' @ release_tag base @ '' -> '' @ tag @ '' and changelog entry verified.''))))"

definition check_version_bump ::
  "(string list \<Rightarrow> go_error + string) \<Rightarrow> (string \<Rightarrow> go_error + string) \<Rightarrow> string \<Rightarrow> go_error + string" where
  "check_version_bump git read_file base_ref =
     rbind (git [''rev-parse'', ''--verify'', ''--end-of-options'', base_ref @ ''^{commit}'']) (\<lambda>commit.
     let base_commit = trim_space commit in
     rbind (git [''show'', base_commit @ '':versions.toml'']) (\<lambda>data.
     rbind (parse_config (base_commit @ '':versions.toml'') data) (\<lambda>base.
     rbind (rbind (read_file ''versions.toml'') (parse_config ''versions.toml'')) (\<lambda>current.
     rbind (git [''diff'', ''--name-only'', ''--no-renames'', ''-z'', base_commit, ''--'']) (\<lambda>diff.
     case validate_version_bump base current (shipped_changes diff) of
       Some e \<Rightarrow> Inl e
     | None \<Rightarrow>
         if release_tag current = release_tag base
         then Inr ''No shipped package changes require a release version bump.''
         else check_new_release git read_file base current)))))"

subsection \<open>The generated files\<close>

text \<open>\<^verbatim>\<open>updateCargoToml\<close>: the five pins, the loop over lines that keep their line feed.\<close>

datatype pin = PinPackage | PinDatafusion | PinFFI | PinSQL | PinSQLLogicTest

fun split_after :: "string \<Rightarrow> string list" where
  "split_after [] = [[]]"
| "split_after (c # s) =
     (if c = CHR 0x0A then [c] # split_after s
      else (case split_after s of [] \<Rightarrow> [[c]] | l # ls \<Rightarrow> (c # l) # ls))"

definition pin_of :: "string \<Rightarrow> string \<Rightarrow> pin option" where
  "pin_of sec line =
     (if sec = ''package'' \<and> has_prefix line ''version = '' then Some PinPackage
      else if sec = ''dependencies'' \<and> has_prefix line ''datafusion = '' then Some PinDatafusion
      else if sec = ''dependencies'' \<and> has_prefix line ''datafusion-ffi = '' then Some PinFFI
      else if sec = ''dependencies'' \<and> has_prefix line ''datafusion-sql = '' then Some PinSQL
      else if sec = ''dependencies.datafusion-sqllogictest'' \<and> has_prefix line ''version = '' then Some PinSQLLogicTest
      else None)"

fun pin_key :: "pin \<Rightarrow> string" where
  "pin_key PinPackage = ''version = ''"
| "pin_key PinDatafusion = ''datafusion = ''"
| "pin_key PinFFI = ''datafusion-ffi = ''"
| "pin_key PinSQL = ''datafusion-sql = ''"
| "pin_key PinSQLLogicTest = ''version = ''"

definition pin_text :: "config \<Rightarrow> pin \<Rightarrow> string" where
  "pin_text cfg p = pin_key p @ go_quote (if p = PinPackage then go_version cfg else CHR ''='' # cf_text cfg) @ [CHR 0x0A]"

definition cargo_section :: "string \<Rightarrow> string \<Rightarrow> string" where
  "cargo_section sec line =
     (if has_prefix line ''['' \<and> has_suffix line '']'' then trim_suffix (trim_prefix line ''['') '']'' else sec)"

fun cargo_lines :: "config \<Rightarrow> string \<Rightarrow> pin set \<Rightarrow> string list \<Rightarrow> string \<times> pin set" where
  "cargo_lines cfg sec found [] = ([], found)"
| "cargo_lines cfg sec found (raw # rest) =
     (let line = trim_space raw; sec' = cargo_section sec line in
      case pin_of sec' line of
        Some p \<Rightarrow> (let (out, f) = cargo_lines cfg sec' (insert p found) rest in (pin_text cfg p @ out, f))
      | None \<Rightarrow> (let (out, f) = cargo_lines cfg sec' found rest in (raw @ out, f)))"

definition pin_fields :: "(pin \<times> string) list" where
  "pin_fields = [(PinPackage, ''[package].version''), (PinDatafusion, ''[dependencies].datafusion''),
     (PinFFI, ''[dependencies].datafusion-ffi''), (PinSQL, ''[dependencies].datafusion-sql''),
     (PinSQLLogicTest, ''[dependencies.datafusion-sqllogictest].version'')]"

definition update_cargo_toml :: "config \<Rightarrow> string \<Rightarrow> string \<Rightarrow> go_error + string" where
  "update_cargo_toml cfg path data =
     (let (out, found) = cargo_lines cfg [] {} (split_after data);
          missing = map snd (filter (\<lambda>(p, f). p \<notin> found) pin_fields) in
      if missing \<noteq> [] then Inl (Plain (path @ '' missing expected fields: '' @ join_with '', '' missing)) else Inr out)"

definition rust_generated :: "config \<Rightarrow> string" where
  "rust_generated cfg = text_of
     [''// Code generated by internal/tools/genversions; DO NOT EDIT.'',
      [],
      ''pub(crate) const DFGO_ABI_VERSION: i32 = '' @ show_nat (cf_abi cfg) @ '';'',
      ''pub(crate) const DATAFUSION_VERSION: &[u8] = b'' @ [CHR 0x22] @ cf_text cfg @ [CHR 0x5C, CHR ''0'', CHR 0x22] @ '';'']"

definition go_public_version :: "config \<Rightarrow> string" where
  "go_public_version cfg = text_of
     [''// Code generated by internal/tools/genversions; DO NOT EDIT.'',
      [],
      ''package datafusion'',
      [],
      ''const ('',
      tab ''// DataFusionVersion is the exact Rust datafusion crate version pinned by this release.'',
      tab ''DataFusionVersion = '' @ go_quote (cf_text cfg),
      [],
      tab ''// DataFusionVersionEncoded is used in Go module tags: v<major>.<encoded-datafusion-version>.<patch>.'',
      tab ''DataFusionVersionEncoded = '' @ go_quote (encoded_version cfg),
      [],
      tab ''// DataFusionGoMajor is the major component of datafusion-go release tags.'',
      tab ''DataFusionGoMajor = '' @ show_nat (cf_go_major cfg),
      [],
      tab ''// DataFusionGoPatch is the patch component of datafusion-go release tags.'',
      tab ''DataFusionGoPatch = '' @ show_nat (cf_go_patch cfg),
      [],
      tab ''// DataFusionGoVersion is the full datafusion-go module version without the leading v.'',
      tab ''DataFusionGoVersion = '' @ go_quote (go_version cfg),
      '')'']"

definition go_native_version :: "config \<Rightarrow> string" where
  "go_native_version cfg = text_of
     [''// Code generated by internal/tools/genversions; DO NOT EDIT.'',
      ''//go:build cgo'',
      [],
      ''package native'',
      [],
      ''const abiVersion = '' @ show_nat (cf_abi cfg),
      ''const dataFusionVersion = '' @ go_quote (cf_text cfg),
      ''const dataFusionGoVersion = '' @ go_quote (go_version cfg)]"

text \<open>
  The run of the generator.  The repository is a map from paths to contents; \<open>rf\<close> and \<open>wrf\<close> say which reads
  and writes fail, a read of an absent file fails by itself.  Go visits a map in any order, so \<open>order\<close>
  rearranges the planned updates.
\<close>

abbreviation cargo_path :: string where "cargo_path \<equiv> ''rust/Cargo.toml''"

definition planned_updates :: "faults \<Rightarrow> file_system \<Rightarrow> config \<Rightarrow> go_error + (string \<times> string) list" where
  "planned_updates rf fs cfg =
     rbind (rbind (read_path rf fs cargo_path) (update_cargo_toml cfg cargo_path)) (\<lambda>cargo.
       Inr [(cargo_path, cargo), (''rust/src/generated.rs'', rust_generated cfg),
            (''version.go'', go_public_version cfg), (''internal/native/version_generated.go'', go_native_version cfg)])"

fun apply_updates ::
  "bool \<Rightarrow> faults \<Rightarrow> faults \<Rightarrow> file_system \<Rightarrow> string list \<Rightarrow> (string \<times> string) list \<Rightarrow>
   (go_error + string list) \<times> file_system" where
  "apply_updates check rf wrf fs stale [] = (Inr stale, fs)"
| "apply_updates check rf wrf fs stale ((path, want) # rest) =
     (case rf path of
        Some e \<Rightarrow> (Inl e, fs)
      | None \<Rightarrow>
          if (case fs path of None \<Rightarrow> [] | Some data \<Rightarrow> data) = want then apply_updates check rf wrf fs stale rest
          else if check then apply_updates check rf wrf fs (stale @ [path]) rest
          else (case wrf path of
              Some e \<Rightarrow> (Inl e, fs)
            | None \<Rightarrow> apply_updates check rf wrf (fs(path \<mapsto> want)) stale rest))"

definition github_output_text :: "config \<Rightarrow> string" where
  "github_output_text cfg = text_of
     [''release_tag='' @ release_tag cfg, ''datafusion_version='' @ cf_text cfg, ''datafusion_go_version='' @ go_version cfg]"

definition append_github_output :: "faults \<Rightarrow> file_system \<Rightarrow> string \<Rightarrow> config \<Rightarrow> go_error option \<times> file_system" where
  "append_github_output wrf fs path cfg =
     (case wrf path of
        Some e \<Rightarrow> (Some e, fs)
      | None \<Rightarrow> (None, fs(path \<mapsto> (case fs path of None \<Rightarrow> [] | Some data \<Rightarrow> data) @ github_output_text cfg)))"

definition run_generator ::
  "((string \<times> string) list \<Rightarrow> (string \<times> string) list) \<Rightarrow> faults \<Rightarrow> faults \<Rightarrow> bool \<Rightarrow> string \<Rightarrow> file_system \<Rightarrow>
   go_error option \<times> file_system" where
  "run_generator order rf wrf check github_output fs =
     (case rbind (read_path rf fs ''versions.toml'') (parse_config ''versions.toml'') of
        Inl e \<Rightarrow> (Some e, fs)
      | Inr cfg \<Rightarrow>
          if github_output \<noteq> [] then append_github_output wrf fs github_output cfg
          else (case planned_updates rf fs cfg of
              Inl e \<Rightarrow> (Some e, fs)
            | Inr updates \<Rightarrow>
                (case apply_updates check rf wrf fs [] (order updates) of
                   (Inl e, fs') \<Rightarrow> (Some e, fs')
                 | (Inr stale, fs') \<Rightarrow>
                     (if stale \<noteq> []
                      then Some (Plain (''generated version files are stale; run `make generate`: '' @ join_with '', '' (sort stale)))
                      else None, fs'))))"

subsection \<open>Release numbers\<close>

text \<open>The middle component of a release read as a number, and what a tag encodes.\<close>

definition encoded_number :: "df_version \<Rightarrow> nat" where
  "encoded_number v = 10000 * df_major v + 100 * df_minor v + df_patch v"

lemma read_encoded_version:
  assumes "df_minor (cf_version cfg) \<le> 99" "df_patch (cf_version cfg) \<le> 99"
  shows "read_nat (encoded_version cfg) = Some (encoded_number (cf_version cfg))"
proof -
  have len: "length (show_nat2 (df_minor (cf_version cfg))) = 2" "length (show_nat2 (df_patch (cf_version cfg))) = 2"
    using assms by (simp_all add: length_show_nat2)
  then show ?thesis
    by (simp add: read_nat_def encoded_version_def read_digits_append read_digits_show_nat encoded_number_def
      read_digits_acc [of "df_major (cf_version cfg)"] read_digits_show_nat2
      read_digits_acc [of "df_major (cf_version cfg) * 100 + df_minor (cf_version cfg)"])
qed

lemma encoded_number_less:
  assumes "df_minor v \<le> 99" "df_patch v \<le> 99" "df_minor w \<le> 99" "df_patch w \<le> 99"
  shows "encoded_number v < encoded_number w \<longleftrightarrow> v < w"
  using assms by (cases v; cases w) (auto simp: df_less_iff encoded_number_def)

definition release_numbers :: "config \<Rightarrow> nat \<times> df_version \<times> nat" where
  "release_numbers cfg = (cf_go_major cfg, cf_version cfg, cf_go_patch cfg)"

lemma encoded_version_no_dot: "CHR ''.'' \<notin> set (encoded_version cfg)"
  by (simp add: encoded_version_def show_nat_no_dot show_nat2_no_dot)

lemma split_go_version:
  "split_on CHR ''.'' (go_version cfg) = [show_nat (cf_go_major cfg), encoded_version cfg, show_nat (cf_go_patch cfg)]"
  by (simp add: go_version_def split_on_append split_on_single show_nat_no_dot encoded_version_no_dot)

lemma encoded_version_inject:
  assumes "df_minor (cf_version c) \<le> 99" "df_patch (cf_version c) \<le> 99"
    "df_minor (cf_version d) \<le> 99" "df_patch (cf_version d) \<le> 99"
  shows "encoded_version c = encoded_version d \<longleftrightarrow> cf_version c = cf_version d"
proof
  assume "encoded_version c = encoded_version d"
  then have "encoded_number (cf_version c) = encoded_number (cf_version d)"
    using read_encoded_version [OF assms(1,2)] read_encoded_version [OF assms(3,4)] by simp
  then show "cf_version c = cf_version d"
    using encoded_number_less [OF assms] encoded_number_less [OF assms(3,4,1,2)] by (metis less_irrefl linorder_less_linear)
qed (simp add: encoded_version_def)

lemma release_tag_inject:
  assumes "df_minor (cf_version c) \<le> 99" "df_patch (cf_version c) \<le> 99"
    "df_minor (cf_version d) \<le> 99" "df_patch (cf_version d) \<le> 99"
  shows "release_tag c = release_tag d \<longleftrightarrow> release_numbers c = release_numbers d"
proof
  assume "release_tag c = release_tag d"
  then have "go_version c = go_version d" by (simp add: release_tag_def)
  then have "split_on CHR ''.'' (go_version c) = split_on CHR ''.'' (go_version d)" by simp
  then show "release_numbers c = release_numbers d"
    by (simp add: split_go_version release_numbers_def encoded_version_inject [OF assms])
qed (simp add: release_tag_def go_version_def release_numbers_def encoded_version_def)

definition wf_config :: "config \<Rightarrow> bool" where
  "wf_config cfg \<longleftrightarrow> parse_semver (cf_text cfg) = Inr (cf_version cfg) \<and> df_minor (cf_version cfg) \<le> 99 \<and>
     df_patch (cf_version cfg) \<le> 99 \<and> int (cf_go_major cfg) < 2 ^ 63 \<and> int (cf_go_patch cfg) < 2 ^ 63 \<and>
     int (cf_abi cfg) < 2 ^ 31"

lemma go_atoi_bounds: "go_atoi s = Inr i \<Longrightarrow> - (2 ^ 63) \<le> i \<and> i < 2 ^ 63"
  by (auto simp: go_atoi_def Let_def split: option.splits prod.splits if_splits)

lemma required_int_bound: "required_int vals key = Inr n \<Longrightarrow> int n < 2 ^ 63"
  by (auto simp: required_int_def dest: go_atoi_bounds split: option.splits sum.splits if_splits)

lemma config_of_wf: "config_of vals = Inr cfg \<Longrightarrow> wf_config cfg"
  by (auto simp: config_of_def wf_config_def res_simps split: if_splits dest!: required_int_bound)

lemma parse_config_wf: "parse_config path data = Inr cfg \<Longrightarrow> wf_config cfg"
  by (auto simp: parse_config_def res_simps config_of_wf)

subsection \<open>Pinning the crates\<close>

definition complete_line :: "string \<Rightarrow> bool" where
  "complete_line l \<longleftrightarrow> (\<exists>b. l = b @ [CHR 0x0A] \<and> CHR 0x0A \<notin> set b)"

definition text_lines :: "string list \<Rightarrow> bool" where
  "text_lines ls \<longleftrightarrow> ls \<noteq> [] \<and> (\<forall>l \<in> set (butlast ls). complete_line l) \<and> CHR 0x0A \<notin> set (last ls)"

lemma split_after_not_Nil [simp]: "split_after s \<noteq> []"
  by (induction s) (auto split: list.splits)

lemma split_after_none: "CHR 0x0A \<notin> set s \<Longrightarrow> split_after s = [s]"
  by (induction s) auto

lemma split_after_complete: "complete_line l \<Longrightarrow> split_after (l @ s) = l # split_after s"
proof -
  have "CHR 0x0A \<notin> set b \<Longrightarrow> split_after (b @ CHR 0x0A # s) = (b @ [CHR 0x0A]) # split_after s" for b
    by (induction b) auto
  then show "complete_line l \<Longrightarrow> ?thesis" by (auto simp: complete_line_def)
qed

lemma text_lines_Cons: "text_lines (l # ls) \<longleftrightarrow> (if ls = [] then CHR 0x0A \<notin> set l else complete_line l \<and> text_lines ls)"
  by (auto simp: text_lines_def)

lemma text_lines_split_after: "text_lines (split_after s)"
proof (induction s)
  case (Cons c s)
  show ?case
  proof (cases "c = CHR 0x0A")
    case True
    with Cons show ?thesis by (simp add: text_lines_Cons complete_line_def)
  next
    case False
    obtain l ls where ls: "split_after s = l # ls" by (cases "split_after s") auto
    have "complete_line l \<Longrightarrow> complete_line (c # l)"
      using False by (force simp: complete_line_def Cons_eq_append_conv)
    with Cons False ls show ?thesis by (auto simp: text_lines_Cons split: if_splits)
  qed
qed (simp add: text_lines_def)

lemma pin_text_line: "complete_line (pin_text cfg p)"
proof -
  have "CHR 0x0A \<notin> set (go_quote s)" for s by (auto simp: go_quote_def escape_char_no_newline)
  moreover have "CHR 0x0A \<notin> set (pin_key p)" by (cases p) auto
  ultimately show ?thesis
    unfolding complete_line_def pin_text_def
    by (intro exI [of _ "pin_key p @ go_quote (if p = PinPackage then go_version cfg else CHR ''='' # cf_text cfg)"]) simp
qed

lemma trim_pin_text:
  "trim_space (pin_text cfg p) = pin_key p @ go_quote (if p = PinPackage then go_version cfg else CHR ''='' # cf_text cfg)"
proof -
  obtain c k where k: "pin_key p = c # k" "c \<in> {CHR ''v'', CHR ''d''}"
    by (cases p) auto
  show ?thesis
    using trim_space_line [of c "k @ [CHR 0x22] @ concat (map escape_char
        (if p = PinPackage then go_version cfg else CHR ''='' # cf_text cfg))"] k(2)
    unfolding pin_text_def k(1) by (auto simp: go_quote_def ascii_space_def)
qed

lemma pin_key_no_bracket: "has_prefix (pin_key p @ r) ''['' = False"
  by (cases p) (simp_all add: has_prefix_def)

lemma pin_of_key: "pin_of sec line = Some p \<Longrightarrow> has_prefix line (pin_key p)"
  by (auto simp: pin_of_def split: if_splits)

lemma pin_of_section:
  "pin_of sec line = Some p \<Longrightarrow> cargo_section s line = s"
  by (auto dest!: pin_of_key simp: has_prefix_iff [of line "pin_key p"] cargo_section_def pin_key_no_bracket)

lemma pin_of_again: "pin_of sec line = Some p \<Longrightarrow> pin_of sec (pin_key p @ r) = Some p"
  by (auto simp: pin_of_def has_prefix_def split: if_splits)

lemma cargo_lines_Cons:
  "fst (cargo_lines cfg sec F (raw # ls)) =
     (case pin_of (cargo_section sec (trim_space raw)) (trim_space raw) of
        Some p \<Rightarrow> pin_text cfg p @ fst (cargo_lines cfg (cargo_section sec (trim_space raw)) (insert p F) ls)
      | None \<Rightarrow> raw @ fst (cargo_lines cfg (cargo_section sec (trim_space raw)) F ls))"
  "snd (cargo_lines cfg sec F (raw # ls)) =
     (case pin_of (cargo_section sec (trim_space raw)) (trim_space raw) of
        Some p \<Rightarrow> snd (cargo_lines cfg (cargo_section sec (trim_space raw)) (insert p F) ls)
      | None \<Rightarrow> snd (cargo_lines cfg (cargo_section sec (trim_space raw)) F ls))"
  by (simp_all add: Let_def split: option.splits prod.splits)

lemma cargo_lines_found:
  "fst (cargo_lines cfg sec F ls) = fst (cargo_lines cfg sec {} ls)"
  "snd (cargo_lines cfg sec F ls) = F \<union> snd (cargo_lines cfg sec {} ls)"
proof (induction ls arbitrary: sec F)
  case (Cons l ls)
  have f: "fst (cargo_lines cfg s H ls) = fst (cargo_lines cfg s {} ls)" for s H by (rule Cons.IH)
  have g: "snd (cargo_lines cfg s H ls) = H \<union> snd (cargo_lines cfg s {} ls)" for s H by (rule Cons.IH)
  { case 1 show ?case
      by (simp add: cargo_lines_Cons f [of _ "insert _ _"] f [of _ F] del: cargo_lines.simps split: option.splits) }
  { case 2 show ?case
      by (simp only: cargo_lines_Cons g [of _ "insert _ _"] g [of _ F] split: option.splits) auto }
qed simp_all

lemma cargo_lines_again:
  assumes "text_lines ls"
  shows "cargo_lines cfg sec F (split_after (fst (cargo_lines cfg sec G ls))) =
    (fst (cargo_lines cfg sec F ls), snd (cargo_lines cfg sec F ls))"
  using assms
proof (induction ls arbitrary: sec F G)
  case (Cons l ls)
  define sec' where "sec' = cargo_section sec (trim_space l)"
  note heads = cargo_lines_Cons [of cfg sec _ l ls, folded sec'_def]
  have nil: "cargo_lines cfg s F' [[]] = ([], F')" for s F'
    by (simp add: trim_space_def cargo_section_def pin_of_def has_prefix_def)
  show ?case
  proof (cases "pin_of sec' (trim_space l)")
    case None
    show ?thesis
    proof (cases "ls = []")
      case True
      with Cons.prems have "CHR 0x0A \<notin> set l" by (simp add: text_lines_Cons)
      with True None show ?thesis by (simp add: split_after_none sec'_def Let_def)
    next
      case False
      with Cons.prems have "complete_line l" "text_lines ls" by (simp_all add: text_lines_Cons)
      with None Cons.IH [of sec' F G] show ?thesis
        by (simp add: heads split_after_complete prod_eq_iff sec'_def cargo_lines_Cons del: cargo_lines.simps)
    qed
  next
    case (Some p)
    have sec: "sec' = sec" unfolding sec'_def by (rule pin_of_section [OF Some])
    have here: "cargo_section sec (trim_space l) = sec" "pin_of sec (trim_space l) = Some p"
      using sec Some by (simp_all add: sec'_def)
    have again: "cargo_section sec (trim_space (pin_text cfg p)) = sec" "pin_of sec (trim_space (pin_text cfg p)) = Some p"
      using pin_of_section [OF pin_of_again [OF Some]] pin_of_again [OF Some] by (simp_all add: trim_pin_text sec)
    show ?thesis
    proof (cases "ls = []")
      case True
      have "cargo_lines cfg sec F (split_after (pin_text cfg p)) = (pin_text cfg p, insert p F)"
        using split_after_complete [OF pin_text_line, of cfg p "[]"] again nil [of sec "insert p F"] by (simp add: Let_def)
      moreover have "fst (cargo_lines cfg sec H [l]) = pin_text cfg p" "snd (cargo_lines cfg sec H [l]) = insert p H" for H
        using Some unfolding sec'_def by (simp_all add: cargo_lines_Cons)
      ultimately show ?thesis using True by simp
    next
      case False
      with Cons.prems have "text_lines ls" by (simp add: text_lines_Cons)
      with here again Cons.IH [of sec "insert p F" "insert p G"] show ?thesis
        by (simp add: split_after_complete [OF pin_text_line] cargo_lines_Cons prod_eq_iff del: cargo_lines.simps)
    qed
  qed
qed (simp add: text_lines_def)

lemma update_cargo_again:
  assumes "update_cargo_toml cfg path data = Inr out"
  shows "update_cargo_toml cfg path out = Inr out"
proof -
  have out: "out = fst (cargo_lines cfg [] {} (split_after data))"
    using assms by (auto simp: update_cargo_toml_def Let_def split: prod.splits if_splits)
  have "cargo_lines cfg [] {} (split_after out) = cargo_lines cfg [] {} (split_after data)"
    unfolding out by (subst cargo_lines_again [OF text_lines_split_after]) simp
  with assms show ?thesis by (simp add: update_cargo_toml_def)
qed

subsection \<open>Writing and checking the generated files\<close>

lemma apply_updates_written:
  assumes "apply_updates False rf wrf fs st ups = (Inr st', fs')" "distinct (map fst ups)"
  shows "st' = st \<and> (\<forall>p. p \<notin> fst ` set ups \<longrightarrow> fs' p = fs p) \<and>
    (\<forall>p. fs p \<noteq> None \<longrightarrow> fs' p \<noteq> None) \<and>
    (\<forall>(p, w) \<in> set ups. rf p = None \<and> (case fs' p of None \<Rightarrow> [] | Some d \<Rightarrow> d) = w)"
  using assms
proof (induction ups arbitrary: fs)
  case (Cons u ups)
  obtain p w where u: "u = (p, w)" by force
  have p: "p \<notin> fst ` set ups" and d: "distinct (map fst ups)" using Cons.prems(2) u by (auto simp: image_iff)
  obtain fs1 where run: "apply_updates False rf wrf fs1 st ups = (Inr st', fs')" and r: "rf p = None"
    and f: "fs1 = fs \<and> (case fs p of None \<Rightarrow> [] | Some d \<Rightarrow> d) = w \<or> fs1 = fs(p \<mapsto> w)"
    using Cons.prems(1) u by (auto split: option.splits if_splits)
  note IH = Cons.IH [OF run d]
  have "fs' p = fs1 p" using IH p by blast
  then have "(case fs' p of None \<Rightarrow> [] | Some d \<Rightarrow> d) = w" using f by auto
  moreover have "\<forall>q. q \<noteq> p \<longrightarrow> fs1 q = fs q" "\<forall>q. fs q \<noteq> None \<longrightarrow> fs1 q \<noteq> None" using f by auto
  ultimately show ?case
    using IH r u by auto
qed simp_all

lemma apply_updates_fresh:
  "\<forall>(p, w) \<in> set ups. rf p = None \<and> (case fs p of None \<Rightarrow> [] | Some d \<Rightarrow> d) = w \<Longrightarrow>
   apply_updates check rf wrf fs st ups = (Inr st, fs)"
  by (induction ups) (auto split: option.splits)

lemma apply_updates_check: "snd (apply_updates True rf wrf fs st ups) = fs"
  by (induction ups arbitrary: st) (auto split: option.splits)

lemma planned_updates_paths:
  "planned_updates rf fs cfg = Inr ups \<Longrightarrow>
   map fst ups = [cargo_path, ''rust/src/generated.rs'', ''version.go'', ''internal/native/version_generated.go'']"
  by (auto simp: planned_updates_def res_simps)

lemma planned_updates_again:
  assumes "planned_updates rf fs cfg = Inr ups" "fs cargo_path \<noteq> None \<Longrightarrow> fs' cargo_path \<noteq> None"
    "\<forall>(p, w) \<in> set ups. rf p = None \<and> (case fs' p of None \<Rightarrow> [] | Some d \<Rightarrow> d) = w"
  shows "planned_updates rf fs' cfg = Inr ups"
proof -
  obtain d c where c: "fs cargo_path = Some d" "update_cargo_toml cfg cargo_path d = Inr c" and
    ups: "ups = [(cargo_path, c), (''rust/src/generated.rs'', rust_generated cfg),
      (''version.go'', go_public_version cfg), (''internal/native/version_generated.go'', go_native_version cfg)]" and
    r: "rf cargo_path = None"
    using assms(1) by (auto simp: planned_updates_def res_simps read_path_def split: option.splits)
  obtain d' where d': "fs' cargo_path = Some d'" using assms(2) c(1) by auto
  with ups assms(3) have "d' = c" by simp
  with d' r update_cargo_again [OF c(2)] show ?thesis
    by (simp add: planned_updates_def read_path_def ups)
qed

text \<open>C38: After a run of the generator that wrote its files without an error, a check run on the resulting
  repository finds nothing stale and changes nothing, whatever the orders in which the two runs visit the planned
  files: the rewritten \<^verbatim>\<open>Cargo.toml\<close> is a fixed point of the pinning loop, and no generated file is an input.\<close>

theorem generate_then_check_is_clean:
  assumes "\<And>us. mset (order us) = mset us" "\<And>us. mset (order' us) = mset us"
    and "run_generator order rf wrf False [] fs = (None, fs')"
  shows "run_generator order' rf wrf' True [] fs' = (None, fs')"
proof -
  obtain data cfg where cfg: "rf ''versions.toml'' = None" "fs ''versions.toml'' = Some data" "parse_config ''versions.toml'' data = Inr cfg"
    using assms(3) by (auto simp: run_generator_def read_path_def split: sum.splits option.splits)
  obtain ups st where ups: "planned_updates rf fs cfg = Inr ups" "apply_updates False rf wrf fs [] (order ups) = (Inr st, fs')"
    using assms(3) cfg by (auto simp: run_generator_def read_path_def split: sum.splits prod.splits if_splits)
  have same: "set (order ups) = set ups" "set (order' ups) = set ups" "mset (map fst (order ups)) = mset (map fst ups)"
    using assms(1,2) by (metis mset_eq_setD, metis mset_eq_setD, simp)
  have "distinct (map fst ups)" using planned_updates_paths [OF ups(1)] by simp
  then have "distinct (map fst (order ups))" using same(3) by (metis mset_eq_imp_distinct_iff)
  note written = apply_updates_written [OF ups(2) this, unfolded same]
  have paths: "fst ` set ups = {cargo_path, ''rust/src/generated.rs'', ''version.go'', ''internal/native/version_generated.go''}"
    using arg_cong [OF planned_updates_paths [OF ups(1)], of set] by simp
  then have "fs' ''versions.toml'' = Some data" using written cfg(2) by simp
  moreover have "planned_updates rf fs' cfg = Inr ups"
    using written by (intro planned_updates_again [OF ups(1)]) simp_all
  moreover have "apply_updates True rf wrf' fs' [] (order' ups) = (Inr [], fs')"
    using written by (intro apply_updates_fresh) (simp add: same)
  ultimately show ?thesis using cfg by (simp add: run_generator_def read_path_def)
qed

definition sample_versions :: string where
  "sample_versions = text_of
     [''[datafusion]'', ''version = '' @ go_quote ''55.1.0'' @ '' # exact'', ''[datafusion_go]'', ''major = 0'', ''patch = 1'',
      ''[abi]'', ''version = 1'']"

definition sample_cargo :: string where
  "sample_cargo = text_of
     [''[package]'', '' version = 0'', ''[dependencies]'', ''datafusion = 1'', ''datafusion-ffi = 1'', ''datafusion-sql = 1'',
      ''url = 2'', ''[dependencies.datafusion-sqllogictest]''] @ ''version = 1''"

definition sample_repo :: file_system where
  "sample_repo = map_of [(''versions.toml'', sample_versions), (cargo_path, sample_cargo)]"

lemma sample_generates: "fst (run_generator rev (\<lambda>p. None) (\<lambda>p. None) False [] sample_repo) = None"
  by code_simp

theorem generate_then_check_is_clean_witness:
  "run_generator id (\<lambda>p. None) (\<lambda>p. Some (Plain ''read-only'')) True []
      (snd (run_generator rev (\<lambda>p. None) (\<lambda>p. None) False [] sample_repo)) =
    (None, snd (run_generator rev (\<lambda>p. None) (\<lambda>p. None) False [] sample_repo))"
  using sample_generates
  by (intro generate_then_check_is_clean [where order = rev and fs = sample_repo and wrf = "\<lambda>p. None"])
    (simp_all add: prod_eq_iff)

subsection \<open>Accepted releases\<close>

lemma validate_version_bump_None:
  assumes "validate_version_bump base current shipped = None" "release_tag current \<noteq> release_tag base"
  shows "cf_abi base \<le> cf_abi current" "cf_version base \<le> cf_version current"
    "cf_go_major current = cf_go_major base \<or> cf_go_major current = cf_go_major base + 1"
    "cf_go_patch current = (if cf_version current = cf_version base then cf_go_patch base + 1 else 0)"
  using assms df_compare_sign [of "cf_version current" "cf_version base"]
  by (auto simp: validate_version_bump_def Let_def split: if_splits)

lemma accepted_bump_advances:
  assumes "parse_config p1 d1 = Inr base" "parse_config p2 d2 = Inr current"
    and "validate_version_bump base current shipped = None"
  shows "cf_abi base \<le> cf_abi current \<and>
    (if release_numbers current = release_numbers base then shipped = [] \<and> cf_abi current = cf_abi base
     else (case (read_nat (encoded_version base), read_nat (encoded_version current)) of
         (Some m, Some n) \<Rightarrow>
           cf_go_major base < cf_go_major current \<or>
           cf_go_major base = cf_go_major current \<and> (m < n \<or> m = n \<and> cf_go_patch base < cf_go_patch current)
       | _ \<Rightarrow> False))"
proof -
  have wfs: "wf_config base" "wf_config current" using assms(1,2) by (simp_all add: parse_config_wf)
  then have small: "df_minor (cf_version base) \<le> 99" "df_patch (cf_version base) \<le> 99"
    "df_minor (cf_version current) \<le> 99" "df_patch (cf_version current) \<le> 99" by (simp_all add: wf_config_def)
  note tag = release_tag_inject [OF small(3,4,1,2)]
  note less = encoded_number_less [OF small]
  show ?thesis
  proof (cases "release_tag current = release_tag base")
    case True
    with assms(3) tag show ?thesis by (auto simp: validate_version_bump_def split: if_splits)
  next
    case False
    note bump = validate_version_bump_None [OF assms(3) False]
    have "cf_go_major base < cf_go_major current \<or> cf_go_major base = cf_go_major current \<and>
        (cf_version base < cf_version current \<or>
         cf_version base = cf_version current \<and> cf_go_patch base < cf_go_patch current)"
      using bump(2-4) by (cases "cf_version current = cf_version base") (auto simp: order.order_iff_strict)
    then have "cf_go_major base < cf_go_major current \<or> cf_go_major base = cf_go_major current \<and>
        (encoded_number (cf_version base) < encoded_number (cf_version current) \<or>
         encoded_number (cf_version base) = encoded_number (cf_version current) \<and> cf_go_patch base < cf_go_patch current)"
      unfolding less by (elim disjE conjE) simp_all
    with bump(1) False show ?thesis
      by (simp only: tag read_encoded_version [OF small(1,2)] read_encoded_version [OF small(3,4)] option.case prod.case
        if_False simp_thms)
  qed
qed

definition sample_later :: string where
  "sample_later = text_of
     [''[datafusion]'', ''version = '' @ go_quote ''55.2.0'', ''[datafusion_go]'', ''major = 0'', ''patch = 0'',
      ''[abi]'', ''version = 2'']"

definition git_commit_query :: "string \<Rightarrow> string list" where
  "git_commit_query base_ref = [''rev-parse'', ''--verify'', ''--end-of-options'', base_ref @ ''^{commit}'']"

definition git_diff_query :: "string \<Rightarrow> string list" where
  "git_diff_query commit = [''diff'', ''--name-only'', ''--no-renames'', ''-z'', trim_space commit, ''--'']"

lemma check_new_release_Inr:
  "check_new_release git read_file base current = Inr message \<Longrightarrow>
   \<exists>c. read_file ''CHANGELOG.md'' = Inr c \<and> has_release_notes c (release_tag current)"
  by (auto simp: check_new_release_def Let_def res_simps split: if_splits)

lemma check_version_bump_Inr:
  assumes "check_version_bump git read_file base_ref = Inr message"
    and "git (git_commit_query base_ref) = Inr commit" "git (git_diff_query commit) = Inr diff"
  obtains d1 base d2 current where "git [''show'', trim_space commit @ '':versions.toml''] = Inr d1"
    "parse_config (trim_space commit @ '':versions.toml'') d1 = Inr base"
    "read_file ''versions.toml'' = Inr d2" "parse_config ''versions.toml'' d2 = Inr current"
    "validate_version_bump base current (shipped_changes diff) = None"
    "release_tag current \<noteq> release_tag base \<Longrightarrow>
      \<exists>c. read_file ''CHANGELOG.md'' = Inr c \<and> has_release_notes c (release_tag current)"
proof -
  define show_query where "show_query = [''show'', trim_space commit @ '':versions.toml'']"
  define next_step where "next_step base current diff = (case validate_version_bump base current (shipped_changes diff) of
      Some e \<Rightarrow> Inl e
    | None \<Rightarrow> if release_tag current = release_tag base
        then Inr ''No shipped package changes require a release version bump.''
        else check_new_release git read_file base current)" for base current diff
  have "rbind (git show_query) (\<lambda>data. rbind (parse_config (trim_space commit @ '':versions.toml'') data) (\<lambda>base.
      rbind (rbind (read_file ''versions.toml'') (parse_config ''versions.toml'')) (\<lambda>current.
        next_step base current diff))) = Inr message"
    using assms(1) assms(2,3) [unfolded git_commit_query_def git_diff_query_def]
    by (simp only: check_version_bump_def Let_def rbind.simps show_query_def next_step_def)
  then obtain d1 base d2 current where d: "git show_query = Inr d1"
    "parse_config (trim_space commit @ '':versions.toml'') d1 = Inr base"
    "read_file ''versions.toml'' = Inr d2" "parse_config ''versions.toml'' d2 = Inr current"
    and step: "next_step base current diff = Inr message"
    unfolding rbind_Inr_iff by blast
  have "validate_version_bump base current (shipped_changes diff) = None"
    using step by (simp add: next_step_def split: option.splits)
  moreover have "\<exists>c. read_file ''CHANGELOG.md'' = Inr c \<and> has_release_notes c (release_tag current)"
    if "release_tag current \<noteq> release_tag base"
    using step that calculation by (auto simp: next_step_def dest: check_new_release_Inr)
  ultimately show thesis using that d unfolding show_query_def by blast
qed


definition sample_git :: "string list \<Rightarrow> go_error + string" where
  "sample_git args =
     (case args of c # _ \<Rightarrow>
        if c = ''rev-parse'' then Inr (''abc'' @ [CHR 0x0A])
        else if c = ''show'' then Inr sample_versions
        else if c = ''diff'' then Inr (''driver.go'' @ [CHR 0x00] @ ''README.md'')
        else Inr []
      | [] \<Rightarrow> Inl (Plain ''usage''))"

definition sample_file :: "string \<Rightarrow> go_error + string" where
  "sample_file path =
     (if path = ''versions.toml'' then Inr sample_later
      else Inr (text_of [''# Changelog'', ''## v0.550200.0 - today'', [], ''- New engine.'']))"


end
