(* ===== verification/DsnOptions.thy ===== *)
theory DsnOptions
  imports GoErrors GoText
begin

text \<open>
  Connector options and data source names (\<^verbatim>\<open>datafusion.go\<close>): the options of a connector, the parser of a
  DSN, the option the Go side takes out of it, the explicit options it puts in, and the normalized DSN handed to the
  native library.  The functions of \<^verbatim>\<open>net/url\<close> the source calls are modelled on the DSNs that reach them;
  a non-empty host is refused by \<^verbatim>\<open>url.Parse\<close> or by the caller, here always with the caller's message, and the
  cap on the number of parameters of recent releases is left out.
\<close>

subsection \<open>\<^verbatim>\<open>net/url\<close>\<close>

type_synonym query_values = "(string \<times> string list) list"

definition escape_error :: "string \<Rightarrow> go_error" where
  "escape_error s = Plain (''invalid URL escape '' @ go_quote s)"

fun url_unescape :: "bool \<Rightarrow> string \<Rightarrow> go_error + string" where
  "url_unescape sp [] = Inr []"
| "url_unescape sp (c # s) =
     (if c = CHR ''%'' then
        (case s of
           a # b # t \<Rightarrow> (case (digit_of 16 a, digit_of 16 b) of
               (Some x, Some y) \<Rightarrow> rbind (url_unescape sp t) (\<lambda>r. Inr (char_of (16 * x + y) # r))
             | _ \<Rightarrow> Inl (escape_error [c, a, b]))
         | _ \<Rightarrow> Inl (escape_error (c # s)))
      else rbind (url_unescape sp s) (\<lambda>r. Inr ((if c = CHR ''+'' \<and> sp then CHR '' '' else c) # r)))"

definition unreserved :: "char \<Rightarrow> bool" where
  "unreserved c = (let n = (of_char c :: nat) in
     (97 \<le> n \<and> n \<le> 122) \<or> (65 \<le> n \<and> n \<le> 90) \<or> (48 \<le> n \<and> n \<le> 57) \<or> c \<in> set ''-_.~'')"

definition upper_hex :: "nat \<Rightarrow> char" where
  "upper_hex d = (if d < 10 then char_of (48 + d) else char_of (55 + d))"

definition query_escape_char :: "char \<Rightarrow> string" where
  "query_escape_char c =
     (if unreserved c then [c]
      else if c = CHR '' '' then [CHR ''+'']
      else (let n = (of_char c :: nat) in [CHR ''%'', upper_hex (n div 16), upper_hex (n mod 16)]))"

definition query_escape :: "string \<Rightarrow> string" where
  "query_escape s = concat (map query_escape_char s)"

text \<open>\<^verbatim>\<open>url.ParseQuery\<close>: what parsed and the first error.\<close>

fun add_value :: "string \<Rightarrow> string \<Rightarrow> query_values \<Rightarrow> query_values" where
  "add_value k v [] = [(k, [v])]"
| "add_value k v ((j, vs) # vals) = (if j = k then (j, vs @ [v]) # vals else (j, vs) # add_value k v vals)"

definition parse_pair :: "string \<Rightarrow> go_error + string \<times> string" where
  "parse_pair piece =
     (let (key, value) = (case cut piece ''='' of None \<Rightarrow> (piece, []) | Some kv \<Rightarrow> kv) in
      rbind (url_unescape True key) (\<lambda>k. rbind (url_unescape True value) (\<lambda>v. Inr (k, v))))"

fun parse_pieces :: "string list \<Rightarrow> query_values \<Rightarrow> go_error option \<Rightarrow> query_values \<times> go_error option" where
  "parse_pieces [] vals err = (vals, err)"
| "parse_pieces (piece # rest) vals err =
     (if CHR '';'' \<in> set piece then parse_pieces rest vals (Some (Plain ''invalid semicolon separator in query''))
      else if piece = [] then parse_pieces rest vals err
      else (case parse_pair piece of
          Inl e \<Rightarrow> parse_pieces rest vals (case err of None \<Rightarrow> Some e | Some d \<Rightarrow> Some d)
        | Inr (k, v) \<Rightarrow> parse_pieces rest (add_value k v vals) err))"

definition parse_query :: "string \<Rightarrow> query_values \<times> go_error option" where
  "parse_query query = parse_pieces (split_on CHR ''&'' query) [] None"

text \<open>\<^verbatim>\<open>Values.Encode\<close>, \<^verbatim>\<open>Values.Del\<close>, \<^verbatim>\<open>Values.Set\<close>.\<close>

definition encode_pair :: "string \<Rightarrow> string \<Rightarrow> string" where
  "encode_pair k v = query_escape k @ ''='' @ query_escape v"

definition encode_values :: "query_values \<Rightarrow> string" where
  "encode_values vals = join_with ''&'' (concat (map (\<lambda>(k, vs). map (encode_pair k) vs) (sort_key fst vals)))"

definition del_value :: "string \<Rightarrow> query_values \<Rightarrow> query_values" where
  "del_value k vals = filter (\<lambda>(j, vs). j \<noteq> k) vals"

definition set_value :: "string \<Rightarrow> string \<Rightarrow> query_values \<Rightarrow> query_values" where
  "set_value k v vals = (k, [v]) # del_value k vals"

text \<open>\<^verbatim>\<open>url.Parse\<close> of a string that starts with \<^verbatim>\<open>datafusion://\<close>: the authority, the path and the raw query.\<close>

record parsed_url =
  pu_host :: string
  pu_path :: string
  pu_query :: string

definition control_byte :: "char \<Rightarrow> bool" where
  "control_byte c = (let n = (of_char c :: nat) in n < 32 \<or> n = 127)"

definition userinfo_char :: "char \<Rightarrow> bool" where
  "userinfo_char c = (let n = (of_char c :: nat) in
     (97 \<le> n \<and> n \<le> 122) \<or> (65 \<le> n \<and> n \<le> 90) \<or> (48 \<le> n \<and> n \<le> 57) \<or> c \<in> set (''-._:~!$&()*+,;=%@'' @ [CHR 0x27]))"

definition split_authority :: "string \<Rightarrow> string option \<times> string" where
  "split_authority authority =
     (if CHR ''@'' \<in> set authority
      then (Some (rev (tl (dropWhile (\<lambda>c. c \<noteq> CHR ''@'') (rev authority)))), rev (takeWhile (\<lambda>c. c \<noteq> CHR ''@'') (rev authority)))
      else (None, authority))"

definition check_userinfo :: "string \<Rightarrow> go_error option" where
  "check_userinfo user =
     (if \<not> list_all userinfo_char user then Some (Plain ''net/url: invalid userinfo'')
      else (case (case cut user '':'' of
             None \<Rightarrow> url_unescape False user
           | Some (name, password) \<Rightarrow> rbind (url_unescape False name) (\<lambda>_. url_unescape False password)) of
          Inl e \<Rightarrow> Some e | Inr _ \<Rightarrow> None))"

definition url_parse :: "string \<Rightarrow> go_error + parsed_url" where
  "url_parse dsn =
     (let (u, frag) = (case cut dsn ''#'' of None \<Rightarrow> (dsn, []) | Some p \<Rightarrow> p);
          fail = (\<lambda>s e. Inl (Wrapped (''parse '' @ go_quote s) e)) in
      if list_ex control_byte u then fail u (Plain ''net/url: invalid control character in URL'')
      else
        (let rest = drop (length ''datafusion://'') u;
             (hier, query) = (case cut rest ''?'' of None \<Rightarrow> (rest, []) | Some p \<Rightarrow> p);
             (user, host) = split_authority (takeWhile (\<lambda>c. c \<noteq> CHR ''/'') hier) in
         if host \<noteq> [] then Inr \<lparr>pu_host = host, pu_path = [], pu_query = query\<rparr>
         else (case (case user of None \<Rightarrow> None | Some i \<Rightarrow> check_userinfo i) of
             Some e \<Rightarrow> fail u e
           | None \<Rightarrow> (case url_unescape False (dropWhile (\<lambda>c. c \<noteq> CHR ''/'') hier) of
                 Inl e \<Rightarrow> fail u e
               | Inr path \<Rightarrow> (case url_unescape False frag of
                     Inl e \<Rightarrow> fail dsn e
                   | Inr _ \<Rightarrow> Inr \<lparr>pu_host = [], pu_path = path, pu_query = query\<rparr>)))))"

subsection \<open>Options\<close>

record connector_options =
  op_shared_session :: bool
  op_runtime_workers :: int
  op_shared_runtime :: bool
  op_cache_statements :: bool
  op_runtime_workers_set :: bool
  op_shared_runtime_set :: bool
  op_cache_statements_set :: bool

definition default_connector_options :: connector_options where
  "default_connector_options = \<lparr>op_shared_session = True, op_runtime_workers = 0, op_shared_runtime = False,
     op_cache_statements = False, op_runtime_workers_set = False, op_shared_runtime_set = False,
     op_cache_statements_set = False\<rparr>"

datatype connector_option =
    WithSharedSession bool | WithRuntimeWorkers int | WithSharedRuntime bool | WithPreparedStatementCache bool

fun apply_option :: "connector_option \<Rightarrow> connector_options \<Rightarrow> connector_options" where
  "apply_option (WithSharedSession b) os = os\<lparr>op_shared_session := b\<rparr>"
| "apply_option (WithRuntimeWorkers n) os = os\<lparr>op_runtime_workers := n, op_runtime_workers_set := True\<rparr>"
| "apply_option (WithSharedRuntime b) os = os\<lparr>op_shared_runtime := b, op_shared_runtime_set := True\<rparr>"
| "apply_option (WithPreparedStatementCache b) os = os\<lparr>op_cache_statements := b, op_cache_statements_set := True\<rparr>"

text \<open>A nil option is skipped.\<close>

definition apply_options :: "connector_option option list \<Rightarrow> connector_options" where
  "apply_options options =
     fold (\<lambda>opt os. case opt of None \<Rightarrow> os | Some f \<Rightarrow> apply_option f os) options default_connector_options"

abbreviation shared_session_key :: string where "shared_session_key \<equiv> ''datafusion.go.shared_session''"
abbreviation runtime_workers_key :: string where "runtime_workers_key \<equiv> ''datafusion.go.runtime_workers''"
abbreviation shared_runtime_key :: string where "shared_runtime_key \<equiv> ''datafusion.go.shared_runtime''"
abbreviation cache_statements_key :: string where "cache_statements_key \<equiv> ''datafusion.go.cache_statements''"

definition bool_word :: "string \<Rightarrow> bool option" where
  "bool_word s =
     (let w = to_lower s in
      if w \<in> set [''1'', ''t'', ''true'', ''y'', ''yes'', ''on''] then Some True
      else if w \<in> set [''0'', ''f'', ''false'', ''n'', ''no'', ''off''] then Some False else None)"

definition parse_bool_option :: "string \<Rightarrow> string list \<Rightarrow> go_error + bool" where
  "parse_bool_option key vals =
     (if vals = [] \<or> hd vals = [] then Inl (Plain (key @ '' requires a boolean value''))
      else if 1 < length vals then Inl (Plain (key @ '' must be specified at most once''))
      else (case bool_word (hd vals) of
          Some b \<Rightarrow> Inr b
        | None \<Rightarrow> Inl (Plain (key @ '' must be a boolean value, got '' @ go_quote (hd vals)))))"

definition normalize_session_dsn :: "string \<Rightarrow> connector_options \<Rightarrow> go_error + string \<times> connector_options" where
  "normalize_session_dsn raw opts =
     (case parse_query raw of
        (vals, Some e) \<Rightarrow> Inl e
      | (vals, None) \<Rightarrow>
          rbind (case map_of vals shared_session_key of
              None \<Rightarrow> Inr (vals, opts)
            | Some value \<Rightarrow> rbind (parse_bool_option shared_session_key value) (\<lambda>shared.
                Inr (del_value shared_session_key vals, opts\<lparr>op_shared_session := shared\<rparr>)))
            (\<lambda>(vals, opts).
              let encoded = encode_values vals in Inr (if encoded = [] then [] else ''?'' @ encoded, opts)))"

definition unsupported_dsn :: "string \<Rightarrow> string \<Rightarrow> go_error" where
  "unsupported_dsn dsn m = Plain (''unsupported DataFusion DSN '' @ go_quote dsn @ ''; '' @ m)"

definition supported_dsns :: string where
  "supported_dsns = ''supported DSNs are empty string, ?<options>, datafusion://, and datafusion://?<options>''"

definition normalize_dsn :: "string \<Rightarrow> connector_options \<Rightarrow> go_error + string \<times> connector_options" where
  "normalize_dsn dsn opts =
     (if dsn = [] then Inr ([], opts)
      else if has_prefix dsn ''?'' then normalize_session_dsn (drop 1 dsn) opts
      else if has_prefix dsn ''datafusion://'' then
        rbind (url_parse dsn) (\<lambda>u.
          if pu_host u \<noteq> [] then Inl (unsupported_dsn dsn ''datafusion:// DSNs do not support hosts'')
          else if pu_path u \<noteq> [] \<and> pu_path u \<noteq> ''/''
          then Inl (unsupported_dsn dsn ''datafusion:// DSNs only support an empty or / path'')
          else normalize_session_dsn (pu_query u) opts)
      else Inl (unsupported_dsn dsn supported_dsns))"

definition format_bool :: "bool \<Rightarrow> string" where
  "format_bool b = (if b then ''true'' else ''false'')"

definition override_values :: "connector_options \<Rightarrow> query_values \<Rightarrow> query_values" where
  "override_values opts vals =
     (let vals1 = (if op_runtime_workers_set opts
            then (let d = del_value runtime_workers_key vals in
                  if op_runtime_workers opts \<noteq> 0 then set_value runtime_workers_key (show_int (op_runtime_workers opts)) d else d)
            else vals);
          vals2 = (if op_shared_runtime_set opts
            then set_value shared_runtime_key (format_bool (op_shared_runtime opts)) vals1 else vals1) in
      if op_cache_statements_set opts
      then set_value cache_statements_key (format_bool (op_cache_statements opts)) vals2 else vals2)"

text \<open>\<^verbatim>\<open>NewConnectorWithInitContext\<close> up to the native call: the DSN for it and the session mode.\<close>

definition connector_dsn :: "connector_option option list \<Rightarrow> string \<Rightarrow> go_error + string \<times> bool" where
  "connector_dsn options dsn =
     (case normalize_dsn dsn (apply_options options) of
        Inl e \<Rightarrow> Inl (driver_error ErrorConnect ''could not parse datafusion DSN'' (Some e))
      | Inr (normalized, opts) \<Rightarrow>
          if op_runtime_workers opts < 0
          then Inl (driver_error ErrorConnect ''runtime worker count must be non-negative'' None)
          else Inr
            (if op_runtime_workers_set opts \<or> op_shared_runtime_set opts \<or> op_cache_statements_set opts
             then ''?'' @ encode_values (override_values opts (fst (parse_query (trim_prefix normalized ''?''))))
             else normalized,
             op_shared_session opts))"

subsection \<open>Escaping and parsing\<close>

lemma char_nibbles: "(of_char c :: nat) div 16 < 16" "(of_char c :: nat) mod 16 < 16"
proof -
  have "(of_char c :: nat) < 16 * 16" by simp
  then show "(of_char c :: nat) div 16 < 16" by (rule less_mult_imp_div_less)
qed simp

lemma digit_of_upper_hex: "d < 16 \<Longrightarrow> digit_of 16 (upper_hex d) = Some d"
  by (simp add: upper_hex_def digit_of_def)

lemma unreserved_plain: "unreserved c \<Longrightarrow> c \<notin> set ''%+&=;''"
  by (auto simp: unreserved_def)

lemma upper_hex_plain: "d < 16 \<Longrightarrow> upper_hex d \<notin> set ''%+&=;''"
proof -
  assume d: "d < 16"
  then have "(of_char (upper_hex d) :: nat) \<in> {48..57} \<union> {65..70}" by (auto simp: upper_hex_def)
  then show ?thesis by (cases "upper_hex d \<in> set ''%+&=;''") (auto simp del: of_char_eq_iff)
qed

lemma url_unescape_char:
  "url_unescape True (query_escape_char c @ s) = rbind (url_unescape True s) (\<lambda>r. Inr (c # r))"
proof (cases "unreserved c")
  case True
  then show ?thesis using unreserved_plain [OF True] by (simp add: query_escape_char_def)
next
  case False
  then show ?thesis
    by (simp add: query_escape_char_def Let_def digit_of_upper_hex char_nibbles)
qed

lemma url_unescape_escape: "url_unescape True (query_escape s) = Inr s"
  by (induction s) (simp_all add: query_escape_def url_unescape_char)

lemma query_escape_plain: "c \<in> set ''&=;'' \<Longrightarrow> c \<notin> set (query_escape s)"
proof -
  have "c \<notin> set (query_escape_char d)" if "c \<in> set ''&=;''" for d
  proof -
    have "upper_hex (of_char d div 16) \<notin> set ''%+&=;''" "upper_hex (of_char d mod 16) \<notin> set ''%+&=;''"
      by (rule upper_hex_plain [OF char_nibbles(1)], rule upper_hex_plain [OF char_nibbles(2)])
    then show ?thesis using that unreserved_plain [of d] by (auto simp: query_escape_char_def Let_def)
  qed
  then show "c \<in> set ''&=;'' \<Longrightarrow> c \<notin> set (query_escape s)" by (simp add: query_escape_def)
qed

lemma cut_char: "c \<notin> set s \<Longrightarrow> cut (s @ c # t) [c] = Some (s, t)"
  by (induction s) (auto simp: has_prefix_def)

lemma parse_encode_pair: "parse_pair (encode_pair k v) = Inr (k, v)"
  using cut_char [OF query_escape_plain [of "CHR ''=''" k], of "query_escape v"]
  by (simp add: parse_pair_def encode_pair_def url_unescape_escape)

lemma encode_pair_plain: "c \<in> set ''&;'' \<Longrightarrow> c \<notin> set (encode_pair k v)" "encode_pair k v \<noteq> []"
  using query_escape_plain [of c] by (auto simp: encode_pair_def)

lemma split_join: "list_all (\<lambda>p. c \<notin> set p) ps \<Longrightarrow> ps \<noteq> [] \<Longrightarrow> split_on c (join_with [c] ps) = ps"
  by (induction ps rule: induct_list012) (simp_all add: split_on_append split_on_single)

fun add_pairs :: "(string \<times> string) list \<Rightarrow> query_values \<Rightarrow> query_values" where
  "add_pairs [] vals = vals"
| "add_pairs ((k, v) # ps) vals = add_pairs ps (add_value k v vals)"

lemma parse_pieces_encoded:
  "parse_pieces (map (\<lambda>(k, v). encode_pair k v) ps) vals err = (add_pairs ps vals, err)"
proof (induction ps arbitrary: vals)
  case (Cons p ps)
  obtain k v where p: "p = (k, v)" by force
  have "CHR '';'' \<notin> set (encode_pair k v)" using encode_pair_plain(1) [of "CHR '';''"] by simp
  then show ?case using Cons p by (simp add: encode_pair_plain(2) parse_encode_pair)
qed simp

definition flat_values :: "query_values \<Rightarrow> (string \<times> string) list" where
  "flat_values vals = concat (map (\<lambda>(k, vs). map (\<lambda>v. (k, v)) vs) vals)"

lemma encode_values_flat:
  "encode_values vals = join_with ''&'' (map (\<lambda>(k, v). encode_pair k v) (flat_values (sort_key fst vals)))"
  by (simp add: encode_values_def flat_values_def map_concat o_def split_def)

definition wf_values :: "query_values \<Rightarrow> bool" where
  "wf_values vals \<longleftrightarrow> distinct (map fst vals) \<and> [] \<notin> snd ` set vals"

lemma add_value_fresh: "k \<notin> fst ` set vals \<Longrightarrow> add_value k v vals = vals @ [(k, [v])]"
  by (induction vals) auto

lemma add_value_last: "k \<notin> fst ` set vals \<Longrightarrow> add_value k v (vals @ [(k, vs)]) = vals @ [(k, vs @ [v])]"
  by (induction vals) auto

lemma add_pairs_same:
  "k \<notin> fst ` set vals \<Longrightarrow> add_pairs (map (\<lambda>v. (k, v)) us @ ps) (vals @ [(k, vs)]) = add_pairs ps (vals @ [(k, vs @ us)])"
  by (induction us arbitrary: vs) (simp_all add: add_value_last)

lemma add_pairs_flat:
  "wf_values vals \<Longrightarrow> fst ` set acc \<inter> fst ` set vals = {} \<Longrightarrow> add_pairs (flat_values vals) acc = acc @ vals"
proof (induction vals arbitrary: acc)
  case (Cons p vals)
  obtain k v vs where p: "p = (k, v # vs)" using Cons.prems(1) by (cases p; cases "snd p") (auto simp: wf_values_def)
  have k: "k \<notin> fst ` set acc" using Cons.prems(2) p by auto
  have wf: "wf_values vals" using Cons.prems(1) by (auto simp: wf_values_def)
  have dis: "fst ` set (acc @ [p]) \<inter> fst ` set vals = {}" using Cons.prems p by (auto simp: wf_values_def)
  have "add_pairs (flat_values (p # vals)) acc = add_pairs (flat_values vals) (acc @ [p])"
    using k by (simp add: flat_values_def p add_value_fresh add_pairs_same)
  then show ?case using Cons.IH [OF wf dis] by simp
qed (simp add: flat_values_def)

lemma wf_sorted: "wf_values vals \<Longrightarrow> wf_values (sort_key fst vals)"
  by (simp add: wf_values_def distinct_map)

lemma parse_encode_values:
  assumes "wf_values vals"
  shows "parse_query (encode_values vals) = (sort_key fst vals, None)"
proof (cases "flat_values (sort_key fst vals) = []")
  case True
  then have "sort_key fst vals = []"
    using add_pairs_flat [OF wf_sorted [OF assms], of "[]"] by simp
  then show ?thesis by (simp add: encode_values_def parse_query_def)
next
  case False
  have "list_all (\<lambda>p. CHR ''&'' \<notin> set p) (map (\<lambda>(k, v). encode_pair k v) (flat_values (sort_key fst vals)))"
    using encode_pair_plain(1) [of "CHR ''&''"] by (auto simp: list_all_iff)
  then have "parse_query (encode_values vals) = (add_pairs (flat_values (sort_key fst vals)) [], None)"
    using False by (simp add: parse_query_def encode_values_flat split_join parse_pieces_encoded)
  then show ?thesis using add_pairs_flat [OF wf_sorted [OF assms], of "[]"] by simp
qed

lemma keys_add_value: "fst ` set (add_value k v vals) = insert k (fst ` set vals)"
  by (induction k v vals rule: add_value.induct) (simp_all add: insert_commute)

lemma wf_add_value: "wf_values vals \<Longrightarrow> wf_values (add_value k v vals)"
proof (induction vals)
  case (Cons p vals)
  then have "wf_values (add_value k v vals)" by (auto simp: wf_values_def)
  with Cons.prems show ?case using keys_add_value [of k v vals] by (cases p) (auto simp: wf_values_def)
qed (simp add: wf_values_def)

lemma wf_parse_pieces: "wf_values vals \<Longrightarrow> wf_values (fst (parse_pieces ps vals err))"
  by (induction ps arbitrary: vals err) (auto simp: wf_add_value split: sum.splits)

lemma wf_parse_query: "wf_values (fst (parse_query q))"
  unfolding parse_query_def by (rule wf_parse_pieces) (simp add: wf_values_def)

lemma wf_del_value: "wf_values vals \<Longrightarrow> wf_values (del_value k vals)"
  by (induction vals) (auto simp: wf_values_def del_value_def)

lemma wf_set_value: "wf_values vals \<Longrightarrow> wf_values (set_value k v vals)"
  using wf_del_value [of vals k] by (auto simp: wf_values_def set_value_def del_value_def)

lemma map_of_del_value: "map_of (del_value k vals) j = (if j = k then None else map_of vals j)"
  by (induction vals) (auto simp: del_value_def)

lemma map_of_set_value: "map_of (set_value k v vals) j = (if j = k then Some [v] else map_of vals j)"
  by (simp add: set_value_def map_of_del_value)

lemma map_of_sorted: "wf_values vals \<Longrightarrow> map_of (sort_key fst vals) = map_of vals"
  using wf_sorted [of vals] by (intro iffD2 [OF map_of_inject_set]) (simp_all add: wf_values_def)

subsection \<open>What the native library is given\<close>

text \<open>The query of a DSN: what follows the question mark in either form.\<close>

definition dsn_query :: "string \<Rightarrow> string" where
  "dsn_query dsn =
     (if dsn = [] then [] else if has_prefix dsn ''?'' then drop 1 dsn
      else case url_parse dsn of Inl e \<Rightarrow> [] | Inr u \<Rightarrow> pu_query u)"

definition explicit_option :: "connector_options \<Rightarrow> string \<Rightarrow> string list option option" where
  "explicit_option opts key =
     (if key = runtime_workers_key \<and> op_runtime_workers_set opts
      then Some (if op_runtime_workers opts = 0 then None else Some [show_int (op_runtime_workers opts)])
      else if key = shared_runtime_key \<and> op_shared_runtime_set opts then Some (Some [format_bool (op_shared_runtime opts)])
      else if key = cache_statements_key \<and> op_cache_statements_set opts then Some (Some [format_bool (op_cache_statements opts)])
      else None)"

lemma override_wf: "wf_values vals \<Longrightarrow> wf_values (override_values opts vals)"
  by (simp add: override_values_def Let_def wf_set_value wf_del_value)

lemma map_of_override:
  "map_of (override_values opts vals) key =
     (case explicit_option opts key of Some r \<Rightarrow> r | None \<Rightarrow> map_of vals key)"
  by (simp add: override_values_def explicit_option_def Let_def map_of_set_value map_of_del_value)

lemma parse_query_Nil [simp]: "parse_query [] = ([], None)"
  by (simp add: parse_query_def)

lemma parse_bool_option_Inr: "parse_bool_option k vs = Inr b \<Longrightarrow> \<exists>v. vs = [v] \<and> bool_word v = Some b"
  by (cases vs; cases "tl vs") (auto simp: parse_bool_option_def split: option.splits if_splits)

lemma normalize_session_dsn_Inr:
  assumes "normalize_session_dsn raw opts = Inr (normalized, opts')"
  shows "snd (parse_query raw) = None"
    and "map_of (fst (parse_query (trim_prefix normalized ''?''))) =
      (map_of (fst (parse_query raw)))(shared_session_key := None)"
    and "wf_values (fst (parse_query (trim_prefix normalized ''?'')))"
    and "snd (parse_query (trim_prefix normalized ''?'')) = None"
    and "case map_of (fst (parse_query raw)) shared_session_key of
        None \<Rightarrow> opts' = opts
      | Some vs \<Rightarrow> \<exists>v b. vs = [v] \<and> bool_word v = Some b \<and> opts' = opts\<lparr>op_shared_session := b\<rparr>"
proof -
  obtain vals where vals: "parse_query raw = (vals, None)" and wf: "wf_values vals"
    using assms wf_parse_query [of raw] by (auto simp: normalize_session_dsn_def split: prod.splits option.splits)
  define kept where "kept = del_value shared_session_key vals"
  have kept: "map_of kept = (map_of vals)(shared_session_key := None)" "wf_values kept"
    by (simp_all add: kept_def fun_eq_iff map_of_del_value wf_del_value wf)
  have same: "kept = vals" if "map_of vals shared_session_key = None"
    using that unfolding kept_def del_value_def map_of_eq_None_iff by (intro filter_True) force
  have norm: "normalized = (if encode_values kept = [] then [] else ''?'' @ encode_values kept)"
    using assms same vals by (auto simp: normalize_session_dsn_def kept_def res_simps Let_def split: option.splits)
  then have "trim_prefix normalized ''?'' = encode_values kept"
    by (simp add: trim_prefix_def has_prefix_def)
  then have parse: "parse_query (trim_prefix normalized ''?'') = (sort_key fst kept, None)"
    by (simp add: parse_encode_values kept)
  show "snd (parse_query raw) = None" by (simp add: vals)
  show "map_of (fst (parse_query (trim_prefix normalized ''?''))) = (map_of (fst (parse_query raw)))(shared_session_key := None)"
    by (simp add: parse map_of_sorted [OF kept(2)] kept vals)
  show "wf_values (fst (parse_query (trim_prefix normalized ''?'')))" by (rule wf_parse_query)
  show "snd (parse_query (trim_prefix normalized ''?'')) = None" by (simp add: parse)
  show "case map_of (fst (parse_query raw)) shared_session_key of
        None \<Rightarrow> opts' = opts
      | Some vs \<Rightarrow> \<exists>v b. vs = [v] \<and> bool_word v = Some b \<and> opts' = opts\<lparr>op_shared_session := b\<rparr>"
    using assms vals
    by (auto simp: normalize_session_dsn_def res_simps Let_def dest: parse_bool_option_Inr split: option.splits if_splits)
qed

lemma normalize_dsn_Inr:
  assumes "normalize_dsn dsn opts = Inr (normalized, opts')"
  shows "snd (parse_query (dsn_query dsn)) = None \<and>
    map_of (fst (parse_query (trim_prefix normalized ''?''))) =
      (map_of (fst (parse_query (dsn_query dsn))))(shared_session_key := None) \<and>
    snd (parse_query (trim_prefix normalized ''?'')) = None \<and>
    (case map_of (fst (parse_query (dsn_query dsn))) shared_session_key of
        None \<Rightarrow> opts' = opts
      | Some vs \<Rightarrow> \<exists>v b. vs = [v] \<and> bool_word v = Some b \<and> opts' = opts\<lparr>op_shared_session := b\<rparr>)"
proof (cases "dsn = []")
  case True
  with assms show ?thesis by (simp add: normalize_dsn_def dsn_query_def trim_prefix_def)
next
  case False
  with assms have "normalize_session_dsn (dsn_query dsn) opts = Inr (normalized, opts')"
    by (auto simp: normalize_dsn_def dsn_query_def res_simps split: if_splits)
  from normalize_session_dsn_Inr [OF this] show ?thesis by blast
qed

lemma explicit_option_shared [simp]: "explicit_option (os\<lparr>op_shared_session := b\<rparr>) = explicit_option os"
  by (simp add: explicit_option_def fun_eq_iff)

text \<open>C26: The DSN a connector hands to the native library carries exactly the options of the caller's DSN, less the
  session mode, which decides whether the connector shares its session, and with every explicit connector option
  in place of the DSN's setting; a DSN with a malformed query or a repeated or non-boolean session mode is refused.\<close>

theorem dsn_options_reach_native:
  assumes "connector_dsn options dsn = Inr (normalized, shared)"
  shows "snd (parse_query (dsn_query dsn)) = None \<and> snd (parse_query (trim_prefix normalized ''?'')) = None \<and>
    map_of (fst (parse_query (trim_prefix normalized ''?''))) key =
      (case explicit_option (apply_options options) key of
         Some setting \<Rightarrow> setting
       | None \<Rightarrow> if key = shared_session_key then None else map_of (fst (parse_query (dsn_query dsn))) key) \<and>
    (case map_of (fst (parse_query (dsn_query dsn))) shared_session_key of
       None \<Rightarrow> shared = op_shared_session (apply_options options)
     | Some vs \<Rightarrow> list_all (\<lambda>v. bool_word v = Some shared) vs \<and> length vs = 1)"
proof -
  define os where "os = apply_options options"
  obtain base os' where norm: "normalize_dsn dsn os = Inr (base, os')" and
    out: "normalized = (if op_runtime_workers_set os' \<or> op_shared_runtime_set os' \<or> op_cache_statements_set os'
        then ''?'' @ encode_values (override_values os' (fst (parse_query (trim_prefix base ''?'')))) else base)"
      "shared = op_shared_session os'"
    using assms by (auto simp: connector_dsn_def os_def split: sum.splits if_splits)
  note N = normalize_dsn_Inr [OF norm]
  have set: "explicit_option os' = explicit_option os"
    using N by (auto split: option.splits)
  have "map_of (fst (parse_query (trim_prefix normalized ''?''))) key =
      (case explicit_option os' key of Some r \<Rightarrow> r | None \<Rightarrow> map_of (fst (parse_query (trim_prefix base ''?''))) key) \<and>
      snd (parse_query (trim_prefix normalized ''?'')) = None"
  proof (cases "op_runtime_workers_set os' \<or> op_shared_runtime_set os' \<or> op_cache_statements_set os'")
    case True
    have "wf_values (override_values os' (fst (parse_query (trim_prefix base ''?''))))"
      by (intro override_wf wf_parse_query)
    with True show ?thesis
      by (simp only: out if_True trim_prefix_append parse_encode_values fst_conv snd_conv map_of_sorted map_of_override)
  next
    case False
    with N show ?thesis by (simp add: out explicit_option_def)
  qed
  with N set show ?thesis unfolding os_def [symmetric] out(2) by (auto split: option.splits)
qed

theorem dsn_options_reach_native_witness:
  "\<exists>normalized shared. connector_dsn [None, Some (WithRuntimeWorkers 4)]
      ''datafusion:///?b=1&a=x%20y+z&datafusion.go.shared_session=No&datafusion.go.runtime_workers=9'' = Inr (normalized, shared) \<and>
    \<not> shared \<and> map_of (fst (parse_query (trim_prefix normalized ''?''))) runtime_workers_key = Some [''4'']"
proof -
  let ?dsn = "''datafusion:///?b=1&a=x%20y+z&datafusion.go.shared_session=No&datafusion.go.runtime_workers=9''"
  have run: "connector_dsn [None, Some (WithRuntimeWorkers 4)] ?dsn =
      Inr (''?a=x+y+z&b=1&datafusion.go.runtime_workers=4'', False)"
    by code_simp
  have "explicit_option (apply_options [None, Some (WithRuntimeWorkers 4)]) runtime_workers_key = Some (Some [''4''])"
    by code_simp
  with dsn_options_reach_native [OF run, of runtime_workers_key] run show ?thesis by auto
qed

end
