(* ===== verification/Extensions.thy ===== *)
theory Extensions
  imports Execution Lifecycle Callbacks
begin

text \<open>
  Registration of Go extensions (\<^verbatim>\<open>extensions.go\<close>, \<^verbatim>\<open>ffi_table_provider.go\<close>, and \<^verbatim>\<open>extensionState\<close>,
  \<^verbatim>\<open>RegisterGo\<close>, \<^verbatim>\<open>RegisterFFITableProvider\<close> and \<^verbatim>\<open>DeregisterTable\<close> of \<^verbatim>\<open>internal/native/native.go\<close>).
  The first half is the protocol by which plans that ran without callback contexts are kept apart from the first
  published provider, as a step relation over any number of plans and registrations.  The second half is the path of
  one registration: its checks, the kind it announces, the lock of its session and the native call.
\<close>

subsection \<open>The read-write lock\<close>

text \<open>\<^verbatim>\<open>sync.RWMutex\<close>: an operation that would block, or that Go aborts as a misuse, has no result.\<close>

record rw_mutex =
  rw_readers :: "nat set"
  rw_writer :: "nat option"

definition rw_rlock :: "nat \<Rightarrow> rw_mutex \<Rightarrow> rw_mutex option" where
  "rw_rlock p m = (if rw_writer m = None then Some (m\<lparr>rw_readers := insert p (rw_readers m)\<rparr>) else None)"

definition rw_runlock :: "nat \<Rightarrow> rw_mutex \<Rightarrow> rw_mutex option" where
  "rw_runlock p m = (if p \<in> rw_readers m then Some (m\<lparr>rw_readers := rw_readers m - {p}\<rparr>) else None)"

definition rw_lock :: "nat \<Rightarrow> rw_mutex \<Rightarrow> rw_mutex option" where
  "rw_lock r m = (if rw_writer m = None \<and> rw_readers m = {} then Some (m\<lparr>rw_writer := Some r\<rparr>) else None)"

definition rw_unlock :: "rw_mutex \<Rightarrow> rw_mutex option" where
  "rw_unlock m = (if rw_writer m = None then None else Some (m\<lparr>rw_writer := None\<rparr>))"

locale read_write_lock =
  fixes rlock :: "nat \<Rightarrow> 'm \<Rightarrow> 'm option" and runlock :: "nat \<Rightarrow> 'm \<Rightarrow> 'm option"
    and lock :: "nat \<Rightarrow> 'm \<Rightarrow> 'm option" and unlock :: "'m \<Rightarrow> 'm option"
    and readers :: "'m \<Rightarrow> nat set" and writer :: "'m \<Rightarrow> nat option"
  assumes rlock_iff: "rlock p m = Some n \<Longrightarrow> writer m = None \<and> readers n = insert p (readers m) \<and> writer n = None"
    and rlock_free: "writer m = None \<Longrightarrow> rlock p m \<noteq> None"
    and runlock_iff: "runlock p m = Some n \<Longrightarrow> readers n = readers m - {p} \<and> writer n = writer m"
    and runlock_held: "p \<in> readers m \<Longrightarrow> runlock p m \<noteq> None"
    and lock_iff: "lock r m = Some n \<Longrightarrow> writer m = None \<and> readers m = {} \<and> readers n = {} \<and> writer n = Some r"
    and lock_free: "writer m = None \<Longrightarrow> readers m = {} \<Longrightarrow> lock r m \<noteq> None"
    and unlock_iff: "unlock m = Some n \<Longrightarrow> readers n = readers m \<and> writer n = None"
    and unlock_held: "writer m \<noteq> None \<Longrightarrow> unlock m \<noteq> None"
begin

lemma exclusion:
  assumes "writer m \<noteq> None \<longrightarrow> readers m = {}"
  shows "rlock p m = Some n \<Longrightarrow> writer n \<noteq> None \<longrightarrow> readers n = {}"
    and "runlock p m = Some n \<Longrightarrow> writer n \<noteq> None \<longrightarrow> readers n = {}"
    and "lock r m = Some n \<Longrightarrow> writer n \<noteq> None \<longrightarrow> readers n = {}"
    and "unlock m = Some n \<Longrightarrow> writer n \<noteq> None \<longrightarrow> readers n = {}"
  using assms rlock_iff runlock_iff lock_iff unlock_iff by fastforce+

lemma blocked_by:
  "rlock p m = None \<Longrightarrow> \<exists>r. writer m = Some r"
  "lock r m = None \<Longrightarrow> (\<exists>q. writer m = Some q) \<or> (\<exists>p. p \<in> readers m)"
  using rlock_free [of m p] lock_free [of m r] by auto

end

interpretation rw: read_write_lock rw_rlock rw_runlock rw_lock rw_unlock rw_readers rw_writer
  by unfold_locales (auto simp: rw_rlock_def rw_runlock_def rw_lock_def rw_unlock_def split: if_splits)

subsection \<open>Plans and the first registration\<close>

text \<open>
  A plan loads the flag, may wait for and take the read lock, loads the flag again to decide whether it runs with
  callback contexts, and gives the lock back when its execution returns.  A registration loads the flag, may take
  the write lock, store the flag and unlock, and then publishes its provider.
\<close>

datatype plan_phase = PlanWaiting | PlanLocked | PlanLoading | PlanRunning bool bool

datatype activation = ActWaiting | ActLocked | ActStored | ActReady

record ext_world =
  ew_active :: bool
  ew_lock :: rw_mutex
  ew_plans :: "nat \<Rightarrow> plan_phase option"
  ew_regs :: "nat \<Rightarrow> activation option"
  ew_published :: "nat list"

definition set_plan :: "nat \<Rightarrow> plan_phase option \<Rightarrow> ext_world \<Rightarrow> ext_world" where
  "set_plan p ph w = w\<lparr>ew_plans := (ew_plans w)(p := ph)\<rparr>"

definition set_reg :: "nat \<Rightarrow> activation option \<Rightarrow> ext_world \<Rightarrow> ext_world" where
  "set_reg r ph w = w\<lparr>ew_regs := (ew_regs w)(r := ph)\<rparr>"

definition plan_begin :: "nat \<Rightarrow> ext_world \<Rightarrow> ext_world option" where
  "plan_begin p w =
     (if ew_plans w p \<noteq> None then None
      else Some (set_plan p (Some (if ew_active w then PlanLoading else PlanWaiting)) w))"

definition plan_advance :: "nat \<Rightarrow> ext_world \<Rightarrow> ext_world option" where
  "plan_advance p w =
     (case ew_plans w p of
        None \<Rightarrow> None
      | Some PlanWaiting \<Rightarrow> map_option (\<lambda>m. set_plan p (Some PlanLocked) (w\<lparr>ew_lock := m\<rparr>)) (rw_rlock p (ew_lock w))
      | Some PlanLocked \<Rightarrow> Some (set_plan p (Some (PlanRunning True (ew_active w))) w)
      | Some PlanLoading \<Rightarrow> Some (set_plan p (Some (PlanRunning False (ew_active w))) w)
      | Some (PlanRunning locked callbacks) \<Rightarrow>
          if locked then map_option (\<lambda>m. set_plan p None (w\<lparr>ew_lock := m\<rparr>)) (rw_runlock p (ew_lock w))
          else Some (set_plan p None w))"

definition activate_begin :: "nat \<Rightarrow> ext_world \<Rightarrow> ext_world option" where
  "activate_begin r w =
     (if ew_regs w r \<noteq> None then None
      else Some (set_reg r (Some (if ew_active w then ActReady else ActWaiting)) w))"

definition activate_advance :: "nat \<Rightarrow> ext_world \<Rightarrow> ext_world option" where
  "activate_advance r w =
     (case ew_regs w r of
        None \<Rightarrow> None
      | Some ActWaiting \<Rightarrow> map_option (\<lambda>m. set_reg r (Some ActLocked) (w\<lparr>ew_lock := m\<rparr>)) (rw_lock r (ew_lock w))
      | Some ActLocked \<Rightarrow> Some (set_reg r (Some ActStored) (w\<lparr>ew_active := True\<rparr>))
      | Some ActStored \<Rightarrow> map_option (\<lambda>m. set_reg r (Some ActReady) (w\<lparr>ew_lock := m\<rparr>)) (rw_unlock (ew_lock w))
      | Some ActReady \<Rightarrow> Some (set_reg r None (w\<lparr>ew_published := r # ew_published w\<rparr>)))"

inductive ext_step :: "ext_world \<Rightarrow> ext_world \<Rightarrow> bool" where
  plan_begin: "plan_begin p w = Some v \<Longrightarrow> ext_step w v"
| plan_advance: "plan_advance p w = Some v \<Longrightarrow> ext_step w v"
| activate_begin: "activate_begin r w = Some v \<Longrightarrow> ext_step w v"
| activate_advance: "activate_advance r w = Some v \<Longrightarrow> ext_step w v"

definition ext_start :: ext_world where
  "ext_start = \<lparr>ew_active = False, ew_lock = \<lparr>rw_readers = {}, rw_writer = None\<rparr>, ew_plans = (\<lambda>p. None),
     ew_regs = (\<lambda>r. None), ew_published = []\<rparr>"

inductive ext_reachable :: "ext_world \<Rightarrow> bool" where
  start: "ext_reachable ext_start"
| step: "ext_reachable w \<Longrightarrow> ext_step w v \<Longrightarrow> ext_reachable v"

inductive_cases ext_stepE: "ext_step w v"

text \<open>
  The invariant: the lock's holders are the plans and the registration in the phases between their lock and
  unlock; nothing is published, and no plan skips the lock, before the flag is set; a running plan has callbacks
  exactly when the flag is set.
\<close>

definition plan_holds :: "plan_phase option \<Rightarrow> bool" where
  "plan_holds ph \<longleftrightarrow> (case ph of Some PlanLocked \<Rightarrow> True | Some (PlanRunning locked callbacks) \<Rightarrow> locked | _ \<Rightarrow> False)"

definition reg_holds :: "activation option \<Rightarrow> bool" where
  "reg_holds ph \<longleftrightarrow> ph = Some ActLocked \<or> ph = Some ActStored"

definition ext_inv :: "ext_world \<Rightarrow> bool" where
  "ext_inv w \<longleftrightarrow>
     (\<forall>p. p \<in> rw_readers (ew_lock w) \<longleftrightarrow> plan_holds (ew_plans w p)) \<and>
     (\<forall>r. rw_writer (ew_lock w) = Some r \<longleftrightarrow> reg_holds (ew_regs w r)) \<and>
     (rw_writer (ew_lock w) \<noteq> None \<longrightarrow> rw_readers (ew_lock w) = {}) \<and>
     (\<forall>r. ew_regs w r = Some ActStored \<or> ew_regs w r = Some ActReady \<longrightarrow> ew_active w) \<and>
     (\<forall>p. ew_plans w p = Some PlanLoading \<longrightarrow> ew_active w) \<and>
     (\<forall>p c. ew_plans w p = Some (PlanRunning False c) \<longrightarrow> c) \<and>
     (ew_published w \<noteq> [] \<longrightarrow> ew_active w) \<and>
     (\<forall>p locked c. ew_plans w p = Some (PlanRunning locked c) \<longrightarrow> c = ew_active w)"

lemma ext_invD:
  assumes "ext_inv w"
  shows "p \<in> rw_readers (ew_lock w) \<longleftrightarrow> plan_holds (ew_plans w p)"
    "rw_writer (ew_lock w) = Some r \<longleftrightarrow> reg_holds (ew_regs w r)"
    "rw_writer (ew_lock w) \<noteq> None \<Longrightarrow> rw_readers (ew_lock w) = {}"
    "ew_published w \<noteq> [] \<Longrightarrow> ew_active w"
    "ew_plans w p = Some (PlanRunning locked c) \<Longrightarrow> c = ew_active w"
    "ew_regs w r = Some ActStored \<or> ew_regs w r = Some ActReady \<Longrightarrow> ew_active w"
    "ew_plans w p = Some PlanLoading \<Longrightarrow> ew_active w"
    "ew_plans w p = Some (PlanRunning False c) \<Longrightarrow> c"
  using assms unfolding ext_inv_def by blast+

lemmas ext_defs = plan_begin_def plan_advance_def activate_begin_def activate_advance_def set_plan_def set_reg_def
lemmas rw_defs = rw_rlock_def rw_runlock_def rw_lock_def rw_unlock_def

text \<open>One plan, or one registration, changes its phase, and the lock with it.\<close>

lemma ext_inv_set_plan:
  assumes "ext_inv w" "rw_writer m = rw_writer (ew_lock w)"
    and "rw_readers m = (if plan_holds ph then insert p (rw_readers (ew_lock w)) else rw_readers (ew_lock w) - {p})"
    and "plan_holds ph \<Longrightarrow> rw_writer (ew_lock w) = None" "ph = Some PlanLoading \<Longrightarrow> ew_active w"
    and "\<And>c. ph = Some (PlanRunning False c) \<Longrightarrow> c" "\<And>l c. ph = Some (PlanRunning l c) \<Longrightarrow> c = ew_active w"
  shows "ext_inv (set_plan p ph (w\<lparr>ew_lock := m\<rparr>))"
  unfolding ext_inv_def
proof (intro conjI)
  show "\<forall>q. q \<in> rw_readers (ew_lock (set_plan p ph (w\<lparr>ew_lock := m\<rparr>))) \<longleftrightarrow>
      plan_holds (ew_plans (set_plan p ph (w\<lparr>ew_lock := m\<rparr>)) q)"
    using assms(3) ext_invD(1) [OF assms(1)] by (auto simp: set_plan_def)
  show "rw_writer (ew_lock (set_plan p ph (w\<lparr>ew_lock := m\<rparr>))) \<noteq> None \<longrightarrow>
      rw_readers (ew_lock (set_plan p ph (w\<lparr>ew_lock := m\<rparr>))) = {}"
    using assms(2-4) ext_invD(3) [OF assms(1)] by (auto simp: set_plan_def)
qed (use assms(2,4-7) ext_invD [OF assms(1)] in \<open>auto simp: set_plan_def\<close>)

lemma ext_inv_set_reg:
  assumes "ext_inv w" "rw_readers m = rw_readers (ew_lock w)"
    and "rw_writer m = (if reg_holds ph then Some r else if rw_writer (ew_lock w) = Some r then None else rw_writer (ew_lock w))"
    and "reg_holds ph \<Longrightarrow> \<not> reg_holds (ew_regs w r) \<Longrightarrow> rw_writer (ew_lock w) = None"
    and "reg_holds ph \<Longrightarrow> rw_readers (ew_lock w) = {}"
    and "ph = Some ActStored \<or> ph = Some ActReady \<Longrightarrow> a" "ew_active w \<Longrightarrow> a" "pub \<noteq> [] \<Longrightarrow> a"
    and "a \<Longrightarrow> \<not> ew_active w \<Longrightarrow> rw_readers (ew_lock w) = {}"
  shows "ext_inv (set_reg r ph (w\<lparr>ew_lock := m, ew_active := a, ew_published := pub\<rparr>))"
proof -
  have run: "ew_plans w p = Some (PlanRunning l c) \<Longrightarrow> c = a" for p l c
    using assms(7,9) ext_invD(1) [OF assms(1), of p] ext_invD(5,8) [OF assms(1), of p]
    by (cases l; cases "ew_active w"; cases a) (auto simp: plan_holds_def)
  have wr: "rw_writer m = Some q \<longleftrightarrow> reg_holds (if q = r then ph else ew_regs w q)" for q
    using assms(3,4) ext_invD(2) [OF assms(1), of q] ext_invD(2) [OF assms(1), of r] by auto
  have "rw_writer m \<noteq> None \<longrightarrow> rw_readers m = {}"
    using assms(2,3,5) ext_invD(3) [OF assms(1)] by (auto split: if_splits)
  with wr run assms show ?thesis
    unfolding ext_inv_def by (simp add: set_reg_def) blast
qed

lemma ext_inv_plan_begin: "ext_inv w \<Longrightarrow> plan_begin p w = Some v \<Longrightarrow> ext_inv v"
  using ext_inv_set_plan [of w "ew_lock w" "Some (if ew_active w then PlanLoading else PlanWaiting)" p] ext_invD(1) [of w p]
  by (auto simp: plan_begin_def plan_holds_def split: if_splits)

lemma ext_inv_plan_advance:
  assumes "ext_inv w" "plan_advance p w = Some v"
  shows "ext_inv v"
proof -
  note holds = ext_invD(1) [OF assms(1), of p]
  obtain ph where ph: "ew_plans w p = Some ph" using assms(2) by (auto simp: plan_advance_def split: option.splits)
  show ?thesis
  proof (cases ph)
    case PlanWaiting
    then obtain m where m: "rw_rlock p (ew_lock w) = Some m" "v = set_plan p (Some PlanLocked) (w\<lparr>ew_lock := m\<rparr>)"
      using assms(2) ph by (auto simp: plan_advance_def)
    show ?thesis unfolding m(2) using rw.rlock_iff [OF m(1)]
      by (intro ext_inv_set_plan [OF assms(1)]) (auto simp: plan_holds_def)
  next
    case PlanLocked
    then show ?thesis
      using assms ph holds ext_inv_set_plan [OF assms(1), of "ew_lock w" "Some (PlanRunning True (ew_active w))" p]
        ext_invD(3) [OF assms(1)]
      by (auto simp: plan_advance_def plan_holds_def insert_absorb)
  next
    case PlanLoading
    moreover have "ew_active w" using ext_invD(7) [OF assms(1)] ph PlanLoading by simp
    ultimately show ?thesis
      using assms ph holds ext_inv_set_plan [OF assms(1), of "ew_lock w" "Some (PlanRunning False (ew_active w))" p]
      by (auto simp: plan_advance_def plan_holds_def)
  next
    case (PlanRunning locked callbacks)
    show ?thesis
    proof (cases locked)
      case True
      then obtain m where m: "rw_runlock p (ew_lock w) = Some m" "v = set_plan p None (w\<lparr>ew_lock := m\<rparr>)"
        using assms(2) ph PlanRunning by (auto simp: plan_advance_def)
      show ?thesis unfolding m(2) using rw.runlock_iff [OF m(1)]
        by (intro ext_inv_set_plan [OF assms(1)]) (auto simp: plan_holds_def)
    next
      case False
      then show ?thesis
        using assms ph PlanRunning holds ext_inv_set_plan [OF assms(1), of "ew_lock w" None p]
        by (auto simp: plan_advance_def plan_holds_def)
    qed
  qed
qed

lemma ext_inv_activate_begin: "ext_inv w \<Longrightarrow> activate_begin r w = Some v \<Longrightarrow> ext_inv v"
  using ext_inv_set_reg [of w "ew_lock w" "Some (if ew_active w then ActReady else ActWaiting)" r "ew_active w" "ew_published w"]
    ext_invD(2) [of w r] ext_invD(4) [of w]
  by (auto simp: activate_begin_def reg_holds_def split: if_splits)

lemma ext_inv_activate_advance:
  assumes "ext_inv w" "activate_advance r w = Some v"
  shows "ext_inv v"
proof -
  note holds = ext_invD(2) [OF assms(1), of r]
  obtain ph where ph: "ew_regs w r = Some ph" using assms(2) by (auto simp: activate_advance_def split: option.splits)
  show ?thesis
  proof (cases ph)
    case ActWaiting
    then obtain m where m: "rw_lock r (ew_lock w) = Some m" "v = set_reg r (Some ActLocked) (w\<lparr>ew_lock := m\<rparr>)"
      using assms(2) ph by (auto simp: activate_advance_def)
    show ?thesis
      using ext_inv_set_reg [OF assms(1), of m "Some ActLocked" r "ew_active w" "ew_published w"] rw.lock_iff [OF m(1)]
        ext_invD(4) [OF assms(1)]
      by (auto simp: m(2) reg_holds_def)
  next
    case ActLocked
    then show ?thesis
      using assms ph holds ext_inv_set_reg [OF assms(1), of "ew_lock w" "Some ActStored" r True "ew_published w"]
        ext_invD(3) [OF assms(1)]
      by (auto simp: activate_advance_def reg_holds_def)
  next
    case ActStored
    then obtain m where m: "rw_unlock (ew_lock w) = Some m" "v = set_reg r (Some ActReady) (w\<lparr>ew_lock := m\<rparr>)"
      using assms(2) ph by (auto simp: activate_advance_def)
    have v: "v = set_reg r (Some ActReady) (w\<lparr>ew_lock := m, ew_active := ew_active w, ew_published := ew_published w\<rparr>)"
      by (simp add: m)
    show ?thesis unfolding v
      using rw.unlock_iff [OF m(1)] holds ph ActStored ext_invD(6) [OF assms(1), of r]
      by (intro ext_inv_set_reg [OF assms(1)]) (simp_all add: reg_holds_def)
  next
    case ActReady
    then have v: "v = set_reg r None (w\<lparr>ew_lock := ew_lock w, ew_active := ew_active w, ew_published := r # ew_published w\<rparr>)"
      using assms(2) ph by (simp add: activate_advance_def)
    show ?thesis unfolding v
      using holds ph ActReady ext_invD(6) [OF assms(1), of r]
      by (intro ext_inv_set_reg [OF assms(1)]) (simp_all add: reg_holds_def)
  qed
qed

lemma ext_reachable_inv: "ext_reachable w \<Longrightarrow> ext_inv w"
proof (induction rule: ext_reachable.induct)
  case start
  show ?case by (simp add: ext_inv_def ext_start_def plan_holds_def reg_holds_def)
next
  case (step w v)
  from step.hyps(2) step.IH show ?case by (auto elim!: ext_stepE intro: ext_inv_plan_begin ext_inv_plan_advance ext_inv_activate_begin ext_inv_activate_advance)
qed

lemma reader_advances:
  "ext_inv w \<Longrightarrow> p \<in> rw_readers (ew_lock w) \<Longrightarrow> plan_advance p w \<noteq> None"
  using ext_invD(1) [of w p] rw.runlock_held [of p "ew_lock w"]
  by (auto simp: plan_holds_def plan_advance_def split: option.splits plan_phase.splits)

lemma writer_advances:
  "ext_inv w \<Longrightarrow> rw_writer (ew_lock w) = Some r \<Longrightarrow> activate_advance r w \<noteq> None"
  using ext_invD(2) [of w r] rw.unlock_held [of "ew_lock w"]
  by (auto simp: reg_holds_def activate_advance_def)

text \<open>How much a plan or a registration still has to do.\<close>

fun plan_rank :: "plan_phase option \<Rightarrow> nat" where
  "plan_rank None = 0"
| "plan_rank (Some (PlanRunning l c)) = 1"
| "plan_rank (Some PlanLocked) = 2"
| "plan_rank (Some PlanLoading) = 2"
| "plan_rank (Some PlanWaiting) = 3"

fun reg_rank :: "activation option \<Rightarrow> nat" where
  "reg_rank None = 0"
| "reg_rank (Some ActReady) = 1"
| "reg_rank (Some ActStored) = 2"
| "reg_rank (Some ActLocked) = 3"
| "reg_rank (Some ActWaiting) = 4"

lemma plan_advance_rank:
  "plan_advance p w = Some v \<Longrightarrow> plan_rank (ew_plans v p) + 1 = plan_rank (ew_plans w p) \<and>
     (\<forall>q. q \<noteq> p \<longrightarrow> ew_plans v q = ew_plans w q) \<and> ew_regs v = ew_regs w"
  by (auto simp: plan_advance_def set_plan_def split: option.splits plan_phase.splits if_splits)

lemma activate_advance_rank:
  "activate_advance r w = Some v \<Longrightarrow> reg_rank (ew_regs v r) + 1 = reg_rank (ew_regs w r) \<and>
     (\<forall>q. q \<noteq> r \<longrightarrow> ew_regs v q = ew_regs w q) \<and> ew_plans v = ew_plans w"
  by (auto simp: activate_advance_def set_reg_def split: option.splits activation.splits)

text \<open>C18: No plan misses a provider: in every interleaving of plans and registrations, a running plan has
  callback contexts exactly when the flag is set, so it has them whenever a Go provider is published; a plan
  without them holds the planning lock, and no registration is inside the write lock then.\<close>

theorem no_plan_misses_a_provider:
  assumes "ext_reachable w" "ew_plans w p = Some (PlanRunning locked callbacks)"
  shows "callbacks = ew_active w \<and>
    (if callbacks then rw_writer (ew_lock w) = None \<or> \<not> locked
     else locked \<and> ew_published w = [] \<and> rw_writer (ew_lock w) = None)"
proof -
  note inv = ext_reachable_inv [OF assms(1)]
  have active: "callbacks = ew_active w" using ext_invD(5) [OF inv assms(2)] .
  have free: "rw_writer (ew_lock w) = None" if locked
    using ext_invD(1) [OF inv, of p] ext_invD(3) [OF inv] assms(2) that
    by (cases "rw_writer (ew_lock w)") (auto simp: plan_holds_def)
  show ?thesis
  proof (cases callbacks)
    case False
    then have locked using ext_invD(8) [OF inv, of p callbacks] assms(2) by (cases locked) auto
    with False free active ext_invD(4) [OF inv] show ?thesis by auto
  qed (use active free in auto)
qed

text \<open>A plan that took the lock while the first registration waits for it.\<close>

definition sample_planning :: ext_world where
  "sample_planning = the (Option.bind (plan_begin 7 ext_start) (\<lambda>w. Option.bind (activate_begin 1 w) (\<lambda>w.
     Option.bind (plan_advance 7 w) (plan_advance 7))))"

lemma sample_planning_reachable: "ext_reachable sample_planning"
proof -
  obtain w1 where w1: "plan_begin 7 ext_start = Some w1" by (simp add: plan_begin_def ext_start_def)
  obtain w2 where w2: "activate_begin 1 w1 = Some w2" using w1
    by (auto simp: plan_begin_def activate_begin_def ext_start_def set_plan_def)
  obtain w3 where w3: "plan_advance 7 w2 = Some w3" using w1 w2
    by (auto simp: ext_defs ext_start_def rw_defs)
  obtain w4 where w4: "plan_advance 7 w3 = Some w4" using w1 w2 w3
    by (auto simp: ext_defs ext_start_def rw_defs)
  have "sample_planning = w4" by (simp add: sample_planning_def w1 w2 w3 w4 del: One_nat_def)
  then show ?thesis
    using ext_reachable.intros ext_step.intros w1 w2 w3 w4 by metis
qed

theorem no_plan_misses_a_provider_witness:
  "ew_plans sample_planning 7 = Some (PlanRunning True False) \<and> ew_published sample_planning = [] \<and>
   activate_advance 1 sample_planning = None"
proof -
  have plan: "ew_plans sample_planning 7 = Some (PlanRunning True False)" by code_simp
  have "activate_advance 1 sample_planning = None" by code_simp
  with plan no_plan_misses_a_provider [OF sample_planning_reachable plan] show ?thesis by simp
qed



subsection \<open>Registering an extension\<close>

text \<open>
  A registration reads its context up to three times and may wait for a lock: its first check, the lock's own
  check, the choice of the lock's \<^verbatim>\<open>select\<close>, and the check under the lock.  \<open>answer\<close> is the native library's.
  A native call that was made is recorded with its arguments, whatever it answered.
\<close>

record registration_context =
  rc_first :: "go_error option"
  rc_lock :: "go_error option"
  rc_choice :: select_choice
  rc_second :: "go_error option"

record extension_call =
  ec_native :: nat
  ec_name :: string
  ec_kind :: int
  ec_object :: go_object
  ec_answer :: "go_error option"

definition registration_error :: "go_error + extension_call \<Rightarrow> go_error option" where
  "registration_error res = (case res of Inl e \<Rightarrow> Some e | Inr call \<Rightarrow> ec_answer call)"

definition native_connection_closed :: go_error where
  "native_connection_closed = Plain ''datafusion-go connection is closed''"

definition register_go ::
  "go_error option \<Rightarrow> string \<Rightarrow> go_object \<Rightarrow> int \<Rightarrow> nat \<Rightarrow> world \<Rightarrow> (go_error + extension_call) \<times> world" where
  "register_go answer name obj kind n w =
     (if n \<notin> w_live w then (Inl native_connection_closed, w)
      else (case check_no_nul_byte name ''extension name'' of
          Some e \<Rightarrow> (Inl e, w)
        | None \<Rightarrow> (Inr \<lparr>ec_native = n, ec_name = name, ec_kind = kind, ec_object = obj, ec_answer = answer\<rparr>, w)))"

definition extension_lock :: "nat \<Rightarrow> world \<Rightarrow> lock_id" where
  "extension_lock k w =
     (case w_conns w k of
        None \<Rightarrow> ConnectionLock k
      | Some x \<Rightarrow> if connector_shared (co_connector x) w then ConnectorLock (co_connector x) else ConnectionLock k)"

definition with_extension ::
  "registration_context \<Rightarrow> nat \<Rightarrow> (nat \<Rightarrow> world \<Rightarrow> (go_error + 'a) \<times> world) \<Rightarrow> locks \<Rightarrow> world \<Rightarrow>
   ((go_error + 'a) \<times> locks \<times> world) option" where
  "with_extension rc k f held w =
     (case lock_at (rc_lock rc) (rc_choice rc) (extension_lock k w) held of
        None \<Rightarrow> None
      | Some (Inl e, h) \<Rightarrow> Some (Inl e, h, w)
      | Some (Inr u, h) \<Rightarrow>
          (case (case rc_second rc of Some e \<Rightarrow> (Inl e, w) | None \<Rightarrow> with_native k f w) of
             (res, v) \<Rightarrow> map_option (\<lambda>h2. (res, h2, v)) (release_lock u h)))"

text \<open>A table provider: a nil interface, a nil pointer in an interface, or a value and the optional interfaces it has.\<close>

datatype provider_value = NilProvider | NilPointer | GoProvider bool bool

definition nil_provider_error :: go_error where
  "nil_provider_error = Plain ''datafusion table provider is nil''"

definition validate_provider :: "provider_value \<Rightarrow> go_error option" where
  "validate_provider p =
     (case p of NilProvider \<Rightarrow> Some nil_provider_error | NilPointer \<Rightarrow> Some nil_provider_error | GoProvider a b \<Rightarrow> None)"

definition provider_kind :: "bool \<Rightarrow> bool \<Rightarrow> int" where
  "provider_kind pushdown writable = (let kind = (if pushdown then or 0 1 else 0) in if writable then or kind 2 else kind)"

definition register_provider ::
  "registration_context \<Rightarrow> go_error option \<Rightarrow> nat \<Rightarrow> string \<Rightarrow> provider_value \<Rightarrow> locks \<Rightarrow> world \<Rightarrow>
   ((go_error + extension_call) \<times> locks \<times> world) option" where
  "register_provider rc answer k name p held w =
     (case rc_first rc of
        Some e \<Rightarrow> Some (Inl e, held, w)
      | None \<Rightarrow> (case validate_provider p of
          Some e \<Rightarrow> Some (Inl e, held, w)
        | None \<Rightarrow> (case p of
              GoProvider pushdown writable \<Rightarrow>
                with_extension rc k (register_go answer name (ObjProvider pushdown writable) (provider_kind pushdown writable)) held w
            | _ \<Rightarrow> Some (Inl nil_provider_error, held, w))))"

record scalar_function =
  sf_name :: string
  sf_arguments :: "arrow_type option list"
  sf_return :: "arrow_type option"
  sf_volatility :: int
  sf_evaluate :: bool

definition volatile :: int where "volatile = 0"
definition immutable :: int where "immutable = 2"

fun nil_argument :: "nat \<Rightarrow> arrow_type option list \<Rightarrow> go_error option" where
  "nil_argument i [] = None"
| "nil_argument i (None # ts) = Some (Plain (''datafusion function argument '' @ show_nat i @ '' has nil type''))"
| "nil_argument i (Some t # ts) = nil_argument (i + 1) ts"

definition register_scalar_function ::
  "registration_context \<Rightarrow> go_error option \<Rightarrow> nat \<Rightarrow> scalar_function \<Rightarrow> locks \<Rightarrow> world \<Rightarrow>
   ((go_error + extension_call) \<times> locks \<times> world) option" where
  "register_scalar_function rc answer k f held w =
     (case rc_first rc of
        Some e \<Rightarrow> Some (Inl e, held, w)
      | None \<Rightarrow> (case sf_return f of
          None \<Rightarrow> Some (Inl (Plain ''datafusion function requires a name, return type and evaluator''), held, w)
        | Some ret \<Rightarrow>
            if sf_name f = [] \<or> \<not> sf_evaluate f
            then Some (Inl (Plain ''datafusion function requires a name, return type and evaluator''), held, w)
            else if sf_volatility f < volatile \<or> sf_volatility f > immutable
            then Some (Inl (Plain ''datafusion function has invalid volatility''), held, w)
            else (case nil_argument 0 (sf_arguments f) of
                Some e \<Rightarrow> Some (Inl e, held, w)
              | None \<Rightarrow> with_extension rc k
                  (register_go answer (sf_name f) (ObjFunction (map the (sf_arguments f)) ret) (10 + sf_volatility f)) held w)))"

text \<open>A catalog: nil, or a value that may list its schemas and tables.\<close>

definition register_catalog ::
  "registration_context \<Rightarrow> go_error option \<Rightarrow> nat \<Rightarrow> string \<Rightarrow> bool option \<Rightarrow> locks \<Rightarrow> world \<Rightarrow>
   ((go_error + extension_call) \<times> locks \<times> world) option" where
  "register_catalog rc answer k name catalog held w =
     (case rc_first rc of
        Some e \<Rightarrow> Some (Inl e, held, w)
      | None \<Rightarrow> (case catalog of
          None \<Rightarrow> Some (Inl (Plain ''datafusion catalog is nil''), held, w)
        | Some discoverable \<Rightarrow>
            with_extension rc k (register_go answer name (ObjCatalog discoverable) (if discoverable then 21 else 20)) held w))"

datatype extension =
  TableExtension string provider_value | FunctionExtension scalar_function | CatalogExtension string "bool option"

fun register_extension ::
  "registration_context \<Rightarrow> go_error option \<Rightarrow> nat \<Rightarrow> extension \<Rightarrow> locks \<Rightarrow> world \<Rightarrow>
   ((go_error + extension_call) \<times> locks \<times> world) option" where
  "register_extension rc answer k (TableExtension name p) = register_provider rc answer k name p"
| "register_extension rc answer k (FunctionExtension f) = register_scalar_function rc answer k f"
| "register_extension rc answer k (CatalogExtension name c) = register_catalog rc answer k name c"

text \<open>What the kind of a call tells the native library about its object.\<close>

fun kind_describes :: "int \<Rightarrow> go_object \<Rightarrow> bool" where
  "kind_describes kind (ObjProvider pushdown writable) \<longleftrightarrow>
     0 \<le> kind \<and> kind \<le> 3 \<and> (bit kind 0 \<longleftrightarrow> pushdown) \<and> (bit kind 1 \<longleftrightarrow> writable)"
| "kind_describes kind (ObjFunction args ret) \<longleftrightarrow> 10 \<le> kind \<and> kind \<le> 12"
| "kind_describes kind (ObjCatalog discoverable) \<longleftrightarrow> 20 \<le> kind \<and> kind \<le> 21 \<and> (kind = 21 \<longleftrightarrow> discoverable)"
| "kind_describes kind _ \<longleftrightarrow> False"

lemma provider_kind_describes: "kind_describes (provider_kind pushdown writable) (ObjProvider pushdown writable)"
  by (cases pushdown; cases writable) (simp_all add: provider_kind_def bit_iff_odd)

definition reaches_native :: "nat \<Rightarrow> world \<Rightarrow> nat \<Rightarrow> bool" where
  "reaches_native k w n \<longleftrightarrow> conn_is_valid k w \<and> co_native (the (w_conns w k)) = Some n \<and> n \<in> w_live w"

lemma with_extension_call:
  assumes "with_extension rc k (register_go answer name obj kind) held w = Some (res, held', w')"
  shows "held' = held \<and> w' = w \<and>
    (case res of
       Inl e \<Rightarrow> True
     | Inr call \<Rightarrow> reaches_native k w (ec_native call) \<and> \<not> held (extension_lock k w) \<and> CHR 0x00 \<notin> set (ec_name call) \<and>
         ec_object call = obj \<and> ec_kind call = kind \<and> ec_name call = name \<and> ec_answer call = answer)"
proof (cases "lock_at (rc_lock rc) (rc_choice rc) (extension_lock k w) held")
  case (Some r)
  obtain a h where r: "r = (a, h)" by force
  have lock: "\<not> held (extension_lock k w) \<and> a = Inr (Some (extension_lock k w)) \<and> h = held(extension_lock k w := True) \<or>
      (\<exists>e. a = Inl e) \<and> h = held"
    using lock_at_cases [OF Some [unfolded r]] by blast
  show ?thesis
  proof (cases a)
    case (Inl e)
    with assms Some r lock show ?thesis by (auto simp: with_extension_def)
  next
    case (Inr u)
    define body where "body = (case rc_second rc of Some e \<Rightarrow> (Inl e, w)
      | None \<Rightarrow> with_native k (register_go answer name obj kind) w)"
    have b: "snd body = w \<and> (case fst body of Inl e \<Rightarrow> True | Inr call \<Rightarrow> reaches_native k w (ec_native call) \<and>
        CHR 0x00 \<notin> set (ec_name call) \<and> ec_object call = obj \<and> ec_kind call = kind \<and> ec_name call = name \<and> ec_answer call = answer)"
      unfolding body_def
      by (auto simp: with_native_def register_go_def check_no_nul_byte_def reaches_native_def conn_is_valid_def
          split: option.splits if_splits)
    have "held' = held \<and> w' = snd body \<and> res = fst body"
      using assms Some r Inr lock
      by (auto simp: with_extension_def body_def [symmetric] release_lock_def mutex_unlock_def fun_upd_idem split: prod.splits)
    with b lock Inr show ?thesis by (cases "fst body") auto
  qed
qed (use assms in \<open>simp add: with_extension_def\<close>)

lemma nil_argument_None: "nil_argument i ts = None \<longleftrightarrow> None \<notin> set ts"
  by (induction i ts rule: nil_argument.induct) auto

text \<open>The lock a statement that mutates the session takes on the same connection.\<close>

definition mutating_operation :: "nat \<Rightarrow> world \<Rightarrow> query_operation" where
  "mutating_operation k w =
     (case w_conns w k of
        None \<Rightarrow> \<lparr>qo_connector = None, qo_connection = k, qo_serializes = True, qo_closes = True\<rparr>
      | Some x \<Rightarrow> \<lparr>qo_connector = Some (co_connector x, connector_shared (co_connector x) w), qo_connection = k,
          qo_serializes = True, qo_closes = True\<rparr>)"

definition extension_object :: "extension \<Rightarrow> go_object option" where
  "extension_object ext =
     (case ext of
        TableExtension name p \<Rightarrow> (case p of GoProvider a b \<Rightarrow> Some (ObjProvider a b) | _ \<Rightarrow> None)
      | FunctionExtension f \<Rightarrow>
          if sf_name f = [] \<or> \<not> sf_evaluate f \<or> None \<in> set (sf_arguments f) then None
          else map_option (\<lambda>ret. ObjFunction (map the (sf_arguments f)) ret) (sf_return f)
      | CatalogExtension name c \<Rightarrow> map_option ObjCatalog c)"

definition good_call :: "nat \<Rightarrow> world \<Rightarrow> locks \<Rightarrow> go_error option \<Rightarrow> extension \<Rightarrow> extension_call \<Rightarrow> bool" where
  "good_call k w held answer ext call \<longleftrightarrow>
     reaches_native k w (ec_native call) \<and> \<not> held (extension_lock k w) \<and> CHR 0x00 \<notin> set (ec_name call) \<and>
     extension_object ext = Some (ec_object call) \<and> kind_describes (ec_kind call) (ec_object call) \<and> ec_answer call = answer"

lemma extension_lock_mutating:
  "conn_is_valid k w \<Longrightarrow> operation_lock (mutating_operation k w) = Some (extension_lock k w)"
  by (auto simp: operation_lock_def mutating_operation_def extension_lock_def conn_is_valid_def isolated_connector_def
      split: option.splits)

lemma register_extension_cases:
  assumes "register_extension rc answer k ext held w = Some (res, held', w')"
  shows "held' = held \<and> w' = w \<and> (\<exists>e. res = Inl e) \<or>
    (\<exists>name obj kind. extension_object ext = Some obj \<and> kind_describes kind obj \<and>
       with_extension rc k (register_go answer name obj kind) held w = Some (res, held', w'))"
proof (cases ext)
  case (TableExtension name p)
  show ?thesis
  proof (cases p)
    case (GoProvider a b)
    then have "extension_object ext = Some (ObjProvider a b)" by (simp add: TableExtension extension_object_def)
    moreover have "held' = held \<and> w' = w \<and> (\<exists>e. res = Inl e) \<or>
        with_extension rc k (register_go answer name (ObjProvider a b) (provider_kind a b)) held w = Some (res, held', w')"
      using assms TableExtension GoProvider
      by (auto simp: register_provider_def validate_provider_def split: option.splits)
    ultimately show ?thesis using provider_kind_describes by blast
  qed (use assms TableExtension in \<open>auto simp: register_provider_def validate_provider_def split: option.splits\<close>)
next
  case (FunctionExtension f)
  show ?thesis
  proof (cases "sf_return f = None \<or> sf_name f = [] \<or> \<not> sf_evaluate f \<or> None \<in> set (sf_arguments f) \<or>
      sf_volatility f < volatile \<or> sf_volatility f > immutable")
    case True
    then show ?thesis using assms FunctionExtension nil_argument_None [of 0 "sf_arguments f"]
      by (auto simp: register_scalar_function_def split: option.splits if_splits)
  next
    case False
    then obtain ret where ret: "sf_return f = Some ret" by auto
    define obj where "obj = ObjFunction (map the (sf_arguments f)) ret"
    have "extension_object ext = Some obj" "kind_describes (10 + sf_volatility f) obj"
      using False ret by (auto simp: FunctionExtension extension_object_def obj_def volatile_def immutable_def)
    moreover have "held' = held \<and> w' = w \<and> (\<exists>e. res = Inl e) \<or>
        with_extension rc k (register_go answer (sf_name f) obj (10 + sf_volatility f)) held w = Some (res, held', w')"
      using assms FunctionExtension False ret nil_argument_None [of 0 "sf_arguments f"]
      by (auto simp: register_scalar_function_def obj_def split: option.splits if_splits)
    ultimately show ?thesis by blast
  qed
next
  case (CatalogExtension name c)
  show ?thesis
  proof (cases c)
    case (Some d)
    then have "extension_object ext = Some (ObjCatalog d)" "kind_describes (if d then 21 else 20) (ObjCatalog d)"
      by (simp_all add: CatalogExtension extension_object_def)
    moreover have "held' = held \<and> w' = w \<and> (\<exists>e. res = Inl e) \<or>
        with_extension rc k (register_go answer name (ObjCatalog d) (if d then 21 else 20)) held w = Some (res, held', w')"
      using assms CatalogExtension Some by (auto simp: register_catalog_def split: option.splits)
    ultimately show ?thesis by blast
  qed (use assms CatalogExtension in \<open>auto simp: register_catalog_def split: option.splits\<close>)
qed


definition sample_session :: world where
  "sample_session = snd (connect_begin None AnswerOk 1 (snd (new_connector True False init_world)))"


subsection \<open>Foreign table providers and removal\<close>

definition register_ffi_native ::
  "go_error option \<Rightarrow> string \<Rightarrow> bool \<Rightarrow> string \<Rightarrow> nat \<Rightarrow> world \<Rightarrow> (go_error + unit) \<times> world" where
  "register_ffi_native answer name has_provider version n w =
     ((if n \<notin> w_live w then Inl native_connection_closed
       else if \<not> has_provider then Inl (Plain ''datafusion-go FFI table provider is nil'')
       else (case check_no_nul_byte name ''table name'' of
           Some e \<Rightarrow> Inl e
         | None \<Rightarrow> (case check_no_nul_byte version ''provider datafusion version'' of
             Some e \<Rightarrow> Inl e
           | None \<Rightarrow> (case answer of Some e \<Rightarrow> Inl e | None \<Rightarrow> Inr ())))), w)"

definition deregister_table_native ::
  "go_error option \<Rightarrow> string \<Rightarrow> nat \<Rightarrow> world \<Rightarrow> (go_error + unit) \<times> world" where
  "deregister_table_native answer name n w =
     ((if n \<notin> w_live w then Inl native_connection_closed
       else (case check_no_nul_byte name ''table name'' of
           Some e \<Rightarrow> Inl e
         | None \<Rightarrow> (case answer of Some e \<Rightarrow> Inl e | None \<Rightarrow> Inr ()))), w)"

text \<open>\<^verbatim>\<open>sql.Conn.Raw\<close> fails by itself, hands out a connection of another driver, or one of this driver.\<close>

datatype raw_conn = RawError go_error | RawOther string | RawConn nat

definition with_datafusion_conn ::
  "raw_conn \<Rightarrow> (nat \<Rightarrow> world \<Rightarrow> (go_error + 'a) \<times> world) \<Rightarrow> world \<Rightarrow> (go_error + 'a) \<times> world" where
  "with_datafusion_conn raw f w =
     (case raw of
        RawError e \<Rightarrow> (Inl e, w)
      | RawOther t \<Rightarrow> (Inl (Plain (''not a datafusion driver connection: '' @ t)), w)
      | RawConn k \<Rightarrow> f k w)"

record registered_table =
  rt_name :: string
  rt_done :: bool

definition register_ffi_table_provider ::
  "go_error option \<Rightarrow> go_error option \<Rightarrow> go_error option \<Rightarrow> raw_conn option \<Rightarrow> string \<Rightarrow> bool \<Rightarrow> string \<Rightarrow> world \<Rightarrow>
   (go_error + registered_table) \<times> world" where
  "register_ffi_table_provider ctx ctx2 answer raw name has_provider version w =
     (case ctx of Some e \<Rightarrow> (Inl e, w) | None \<Rightarrow>
      case raw of None \<Rightarrow> (Inl (Plain ''datafusion sql connection is nil''), w) | Some r \<Rightarrow>
      if name = [] then (Inl (Plain ''datafusion ffi table name is empty''), w)
      else if \<not> has_provider then (Inl (Plain ''datafusion ffi table provider is nil''), w)
      else if version = [] then (Inl (Plain ''datafusion ffi provider datafusion version is empty''), w)
      else (case with_datafusion_conn r (\<lambda>k w. case ctx2 of Some e \<Rightarrow> (Inl e, w)
              | None \<Rightarrow> with_native k (register_ffi_native answer name has_provider version) w) w of
          (Inl e, v) \<Rightarrow> (Inl e, v)
        | (Inr _, v) \<Rightarrow> (Inr \<lparr>rt_name = name, rt_done = False\<rparr>, v)))"

text \<open>One call of \<^verbatim>\<open>Deregister\<close>: its error, whether the native table was removed, and the handle after it.\<close>

definition deregister ::
  "go_error option \<Rightarrow> go_error option \<Rightarrow> raw_conn \<Rightarrow> registered_table \<Rightarrow> world \<Rightarrow>
   go_error option \<times> bool \<times> registered_table \<times> world" where
  "deregister ctx answer raw t w =
     (if rt_done t then (None, False, t, w)
      else (case ctx of
          Some e \<Rightarrow> (Some e, False, t, w)
        | None \<Rightarrow> (case with_datafusion_conn raw (\<lambda>k. with_native k (deregister_table_native answer (rt_name t))) w of
            (Inl e, v) \<Rightarrow> (Some e, False, t, v)
          | (Inr _, v) \<Rightarrow> (None, True, t\<lparr>rt_done := True\<rparr>, v))))"

fun deregister_calls ::
  "(go_error option \<times> go_error option \<times> raw_conn) list \<Rightarrow> registered_table \<Rightarrow> world \<Rightarrow>
   (go_error option \<times> bool) list \<times> registered_table" where
  "deregister_calls [] t w = ([], t)"
| "deregister_calls ((ctx, answer, raw) # calls) t w =
     (case deregister ctx answer raw t w of
        (err, removed, t1, w1) \<Rightarrow> (case deregister_calls calls t1 w1 of (res, t2) \<Rightarrow> ((err, removed) # res, t2)))"

lemma deregister_done:
  "deregister_calls calls t w = (res, t') \<Longrightarrow> rt_done t \<Longrightarrow> t' = t \<and> set res \<subseteq> {(None, False)}"
proof (induction calls arbitrary: res w)
  case (Cons call calls)
  obtain ctx answer raw where call: "call = (ctx, answer, raw)" by (cases call)
  obtain rest where rest: "deregister_calls calls t w = (rest, t')" "res = (None, False) # rest"
    using Cons.prems by (auto simp: call deregister_def split: prod.splits)
  from Cons.IH [OF rest(1) Cons.prems(2)] rest(2) show ?case by simp
qed simp

lemma deregister_removes_once:
  "deregister_calls calls t w = (res, t') \<Longrightarrow> \<not> rt_done t \<Longrightarrow>
   length (filter snd res) = (if rt_done t' then 1 else 0) \<and> (rt_done t' \<longleftrightarrow> None \<in> fst ` set res) \<and> rt_name t' = rt_name t"
proof (induction calls arbitrary: t w res)
  case (Cons call calls)
  obtain ctx answer raw where call: "call = (ctx, answer, raw)" by (cases call)
  obtain err removed t1 w1 where d: "deregister ctx answer raw t w = (err, removed, t1, w1)"
    by (cases "deregister ctx answer raw t w")
  obtain rest where rest: "deregister_calls calls t1 w1 = (rest, t')" "res = (err, removed) # rest"
    using Cons.prems(1) by (auto simp: call d split: prod.splits)
  have step: "if removed then err = None \<and> rt_done t1 \<and> rt_name t1 = rt_name t else err \<noteq> None \<and> t1 = t"
    using d Cons.prems(2) by (auto simp: deregister_def split: if_splits option.splits prod.splits sum.splits)
  show ?case
  proof (cases removed)
    case True
    then have "t' = t1" "set rest \<subseteq> {(None, False)}" using deregister_done [OF rest(1)] step by auto
    moreover from this(2) have "filter snd rest = []" by (force simp: filter_empty_conv)
    ultimately show ?thesis using True step rest(2) by simp
  next
    case False
    then have "\<not> rt_done t1" "t1 = t" using step Cons.prems(2) by auto
    with False step rest(2) Cons.IH [OF rest(1)] show ?thesis by auto
  qed
qed simp

end
