(* ===== verification/NativeLibrary.thy ===== *)
theory NativeLibrary
  imports GoErrors GoText "HOL-Library.Word"
begin

unbundle bit_operations_syntax

text \<open>
  Finding the native library at run time (\<^verbatim>\<open>internal/native/library.go\<close>, \<^verbatim>\<open>library_trust*.go\<close>,
  \<^verbatim>\<open>secure_execution.go\<close>): the explicit path, the library beside the sources, the cache and the download, with the
  check of every directory on the way.  An absolute path is the list of its components; files carry their type,
  owner, permission bits, access control list and content.  The operating system's answers (symbolic links,
  creation of the cache directory, the HTTP response) and the digest function are arguments; an error that
  \<^verbatim>\<open>errors.Is\<close> finds to be \<^verbatim>\<open>os.ErrNotExist\<close> is \<open>FsAbsent\<close>.
\<close>

subsection \<open>Files\<close>

datatype native_path = AbsPath "string list" | RelPath string

datatype file_kind = RegularFile | DirectoryFile | OtherFile

record access_entry =
  ae_type :: nat
  ae_inherit_only :: bool
  ae_mask :: "32 word"
  ae_trusted :: bool

record file_entry =
  fe_kind :: file_kind
  fe_uid :: nat
  fe_perm :: int
  fe_sticky :: bool
  fe_acl_errno :: int
  fe_owner_trusted :: bool
  fe_dacl :: "access_entry list option"
  fe_content :: string

type_synonym files = "string list \<Rightarrow> file_entry option"

datatype fs_error = FsAbsent | FsError go_error

definition show_path :: "string list \<Rightarrow> string" where
  "show_path p = ''/'' @ join_with ''/'' p"

definition lstat :: "files \<Rightarrow> string list \<Rightarrow> fs_error + file_entry" where
  "lstat fs p = (case fs p of None \<Rightarrow> Inl FsAbsent | Some f \<Rightarrow> Inr f)"

subsection \<open>Permissions\<close>

datatype os_family = UnixFamily nat | WindowsFamily | OtherFamily

text \<open>The owner and the permission bits; the errno of the access control list is 0 outside macOS.\<close>

definition check_acl :: "string list \<Rightarrow> file_entry \<Rightarrow> go_error option" where
  "check_acl p f =
     (if fe_acl_errno f \<noteq> 0
      then Some (Plain (''native path has an unsafe or unreadable ACL: '' @ show_path p @ '' (errno '' @ show_int (fe_acl_errno f) @ '')''))
      else None)"

definition sticky_root :: "bool \<Rightarrow> file_entry \<Rightarrow> bool" where
  "sticky_root library_directory f \<longleftrightarrow> \<not> library_directory \<and> fe_kind f = DirectoryFile \<and> fe_uid f = 0 \<and> fe_sticky f"

text \<open>\<^verbatim>\<open>%04o\<close> of permission bits, at most \<^verbatim>\<open>0777\<close>.\<close>

definition show_octal4 :: "int \<Rightarrow> string" where
  "show_octal4 m = map (\<lambda>d. digit_char (nat (m div d mod 8))) [512, 64, 8, 1]"

definition check_unix :: "nat \<Rightarrow> string list \<Rightarrow> file_entry \<Rightarrow> bool \<Rightarrow> go_error option" where
  "check_unix euid p f library_directory =
     (if fe_uid f \<noteq> euid \<and> fe_uid f \<noteq> 0
      then Some (Plain (''native path is owned by another user: '' @ show_path p @ '' (uid '' @ show_nat (fe_uid f) @ '')''))
      else if fe_perm f AND 0x12 \<noteq> 0 \<and> \<not> sticky_root library_directory f
      then Some (Plain (''native path is writable by other users: '' @ show_path p @ '' (mode '' @ show_octal4 (fe_perm f) @ '')''))
      else check_acl p f)"

text \<open>Windows: the rights that let another account change the file or plant one beside it.\<close>

definition delete_child :: "32 word" where "delete_child = 0x40"
definition file_writes :: "32 word" where "file_writes = 0x6"
definition always_writes :: "32 word" where "always_writes = 0x500D0000"

definition write_mask :: "file_entry \<Rightarrow> bool \<Rightarrow> 32 word" where
  "write_mask f library_directory =
     (if fe_kind f = DirectoryFile
      then (if library_directory then always_writes OR delete_child OR file_writes else always_writes OR delete_child)
      else always_writes OR file_writes)"

fun check_entries :: "string list \<Rightarrow> 32 word \<Rightarrow> access_entry list \<Rightarrow> go_error option" where
  "check_entries p writes [] = None"
| "check_entries p writes (ae # rest) =
     (if ae_inherit_only ae then check_entries p writes rest
      else if ae_type ae = 1 then check_entries p writes rest
      else if ae_type ae = 0 then
        (if ae_mask ae AND writes \<noteq> 0 \<and> \<not> ae_trusted ae
         then Some (Plain (''native path is writable by other users: '' @ show_path p))
         else check_entries p writes rest)
      else Some (Plain (''native path has an unsupported ACL entry: '' @ show_path p)))"

definition check_windows :: "string list \<Rightarrow> file_entry \<Rightarrow> bool \<Rightarrow> go_error option" where
  "check_windows p f library_directory =
     (if \<not> fe_owner_trusted f then Some (Plain (''native path is owned by another user: '' @ show_path p))
      else (case fe_dacl f of
          None \<Rightarrow> Some (Plain (''native path has no restrictive DACL: '' @ show_path p))
        | Some entries \<Rightarrow> check_entries p (write_mask f library_directory) entries))"

definition check_permissions :: "os_family \<Rightarrow> string list \<Rightarrow> file_entry \<Rightarrow> bool \<Rightarrow> go_error option" where
  "check_permissions os p f library_directory =
     (case os of
        UnixFamily euid \<Rightarrow> check_unix euid p f library_directory
      | WindowsFamily \<Rightarrow> check_windows p f library_directory
      | OtherFamily \<Rightarrow> Some (Plain (''native path permission checks are unsupported on this platform: '' @ show_path p)))"

subsection \<open>Trusted paths\<close>

text \<open>\<open>ancestors\<close> lists a path and its parents up to the root; the loop checks them from the root down.\<close>

fun ancestors_rev :: "string list \<Rightarrow> string list list" where
  "ancestors_rev [] = [[]]"
| "ancestors_rev (c # rp) = rev (c # rp) # ancestors_rev rp"

definition ancestors :: "string list \<Rightarrow> string list list" where
  "ancestors p = ancestors_rev (rev p)"

definition check_component :: "os_family \<Rightarrow> files \<Rightarrow> bool \<Rightarrow> nat \<times> string list \<Rightarrow> fs_error option" where
  "check_component os fs directory ip =
     (case ip of (i, p) \<Rightarrow>
       (case lstat fs p of
          Inl e \<Rightarrow> Some e
        | Inr f \<Rightarrow>
            (let want_dir = (i \<noteq> 0 \<or> directory);
                 library_directory = (want_dir \<and> ((directory \<and> i = 0) \<or> (\<not> directory \<and> i = 1))) in
             if (want_dir \<and> fe_kind f \<noteq> DirectoryFile) \<or> (\<not> want_dir \<and> fe_kind f \<noteq> RegularFile)
             then Some (FsError (Plain (''native path has unexpected file type: '' @ show_path p)))
             else map_option FsError (check_permissions os p f library_directory))))"

fun first_error :: "('a \<Rightarrow> 'e option) \<Rightarrow> 'a list \<Rightarrow> 'e option" where
  "first_error f [] = None"
| "first_error f (x # xs) = (case f x of Some e \<Rightarrow> Some e | None \<Rightarrow> first_error f xs)"

record native_env =
  ne_privileged :: bool
  ne_getenv :: "string \<Rightarrow> string"
  ne_is_abs :: "string \<Rightarrow> bool"
  ne_goos :: string
  ne_goarch :: string
  ne_os :: os_family
  ne_caller :: "native_path option"
  ne_version :: string
  ne_manifest :: string
  ne_links :: "files \<Rightarrow> string list \<Rightarrow> fs_error + string list"
  ne_cache :: "go_error + native_path"
  ne_mkdir :: "files \<Rightarrow> native_path \<Rightarrow> go_error option \<times> files"
  ne_digest :: "string \<Rightarrow> string"

definition trusted_native_path :: "native_env \<Rightarrow> files \<Rightarrow> native_path \<Rightarrow> bool \<Rightarrow> fs_error + string list" where
  "trusted_native_path env fs path directory =
     (case path of
        RelPath r \<Rightarrow> Inl (FsError (Plain (''native path must be absolute: '' @ go_quote r)))
      | AbsPath p \<Rightarrow> (case ne_links env fs p of
            Inl e \<Rightarrow> Inl e
          | Inr resolved \<Rightarrow>
              (case first_error (check_component (ne_os env) fs directory) (rev (enumerate 0 (ancestors resolved))) of
                 Some e \<Rightarrow> Inl e | None \<Rightarrow> Inr resolved)))"

definition secure_execution :: "nat \<Rightarrow> nat \<Rightarrow> nat \<Rightarrow> nat \<Rightarrow> bool \<Rightarrow> bool" where
  "secure_execution euid uid egid gid platform = (if euid \<noteq> uid \<or> egid \<noteq> gid then True else platform)"

subsection \<open>Names, checksums, URLs\<close>

definition native_platform :: "native_env \<Rightarrow> string" where
  "native_platform env = ne_goos env @ ''-'' @ ne_goarch env"

definition shared_library_name :: "native_env \<Rightarrow> go_error + string" where
  "shared_library_name env =
     (if ne_goos env = ''darwin'' then Inr ''libdatafusion_go.dylib''
      else if ne_goos env = ''linux'' then Inr ''libdatafusion_go.so''
      else if ne_goos env = ''windows'' then Inr ''datafusion_go.dll''
      else Inl (Plain (''datafusion-go does not publish a native shared library for '' @ native_platform env)))"

definition asset_name :: "native_env \<Rightarrow> go_error + string" where
  "asset_name env = rbind (shared_library_name env) (\<lambda>name.
     Inr (''datafusion-go-v'' @ ne_version env @ ''-'' @ native_platform env @ ''-'' @ name))"

text \<open>\<^verbatim>\<open>strings.Fields\<close> on ASCII white space.\<close>

definition ascii_fields :: "string \<Rightarrow> string list" where
  "ascii_fields s = filter (\<lambda>f. f \<noteq> []) (split_on CHR '' '' (map (\<lambda>c. if ascii_space c then CHR '' '' else c) s))"

fun checksum_in :: "string \<Rightarrow> string list \<Rightarrow> string option" where
  "checksum_in asset [] = None"
| "checksum_in asset (raw # rest) =
     (let line = trim_space raw in
      if line = [] \<or> has_prefix line ''#'' then checksum_in asset rest
      else (case ascii_fields line of
          [hash, name] \<Rightarrow> if name = asset then Some (to_lower hash) else checksum_in asset rest
        | _ \<Rightarrow> checksum_in asset rest))"

definition asset_checksum :: "native_env \<Rightarrow> string \<Rightarrow> string option" where
  "asset_checksum env asset = checksum_in asset (split_on CHR 0x0A (ne_manifest env))"

definition library_env :: string where "library_env = ''DATAFUSION_GO_LIBRARY''"
definition no_download_env :: string where "no_download_env = ''DATAFUSION_GO_NO_DOWNLOAD''"
definition download_base_env :: string where "download_base_env = ''DATAFUSION_GO_DOWNLOAD_BASE''"

text \<open>\<open>parsed\<close> is \<^verbatim>\<open>url.Parse\<close> of the configured base: an error, or its scheme and host.\<close>

definition download_url :: "native_env \<Rightarrow> (string \<Rightarrow> go_error + string \<times> string) \<Rightarrow> string \<Rightarrow> go_error + string" where
  "download_url env parsed asset =
     (let base = ne_getenv env download_base_env;
          url = (\<lambda>b. rev (dropWhile (\<lambda>c. c = CHR ''/'') (rev b)) @ ''/'' @ asset) in
      if base = [] then Inr (url (''https://github.com/datafusion-contrib/datafusion-go/releases/download/v'' @ ne_version env))
      else (case parsed base of
          Inl e \<Rightarrow> Inl (Wrapped (''invalid '' @ download_base_env @ '' '' @ go_quote base) e)
        | Inr (scheme, host) \<Rightarrow>
            if scheme \<noteq> ''https'' \<or> host = []
            then Inl (Plain (download_base_env @ '' must be an https:// URL with a host, got '' @ go_quote base))
            else Inr (url base)))"

definition check_redirect :: "string \<Rightarrow> nat \<Rightarrow> go_error option" where
  "check_redirect scheme via =
     (if scheme \<noteq> ''https'' then Some (Plain ''native library download redirect must use HTTPS'')
      else if 10 \<le> via then Some (Plain ''too many native library download redirects'') else None)"

subsection \<open>Downloading\<close>

definition max_asset_size :: int where "max_asset_size = 536870912"

text \<open>\<^verbatim>\<open>io.LimitReader\<close> one byte above the bound.\<close>

definition limit_read :: "string \<Rightarrow> string" where
  "limit_read data = (if int (length data) \<le> max_asset_size + 1 then data else take (nat (max_asset_size + 1)) data)"

lemma limit_read_take: "limit_read data = take (nat (max_asset_size + 1)) data"
  by (auto simp: limit_read_def max_asset_size_def)

record http_response =
  hr_error :: "go_error option"
  hr_status :: nat
  hr_status_text :: string
  hr_length :: int
  hr_body :: string
  hr_copy_error :: "go_error option"

text \<open>What was written to the file, and the error.\<close>

definition download_file :: "http_response \<Rightarrow> string \<Rightarrow> go_error option \<times> string" where
  "download_file r url =
     (case hr_error r of
        Some e \<Rightarrow> (Some (Wrapped (''could not download datafusion-go native library '' @ url) e), [])
      | None \<Rightarrow>
          if hr_status r \<noteq> 200
          then (Some (Plain (''could not download datafusion-go native library '' @ url @ '': HTTP '' @ hr_status_text r)), [])
          else if hr_length r > max_asset_size
          then (Some (Plain (''datafusion-go native library download is '' @ show_int (hr_length r) @ '' bytes, above the '' @
                 show_int max_asset_size @ '' byte limit'')), [])
          else (let data = limit_read (hr_body r) in
            case hr_copy_error r of
              Some e \<Rightarrow> (Some (Wrapped ''could not write datafusion-go native library download'' e), data)
            | None \<Rightarrow>
                if int (length data) > max_asset_size
                then (Some (Plain (''datafusion-go native library download exceeds the '' @ show_int max_asset_size @ '' byte limit'')), data)
                else (None, data)))"

definition verify_file :: "native_env \<Rightarrow> files \<Rightarrow> string list \<Rightarrow> string \<Rightarrow> go_error option" where
  "verify_file env fs p want =
     (case fs p of
        None \<Rightarrow> Some (Plain (''open '' @ show_path p @ '': no such file or directory''))
      | Some f \<Rightarrow>
          if fe_kind f \<noteq> RegularFile \<or> int (length (fe_content f)) > max_asset_size
          then Some (Plain (''native library must be a regular file no larger than '' @ show_int max_asset_size @ '' bytes: '' @ show_path p))
          else (let got = ne_digest env (limit_read (fe_content f)) in
            if to_lower got \<noteq> to_lower want
            then Some (Plain (''sha256 mismatch for '' @ show_path p @ '': got '' @ got @ '', want '' @ want)) else None))"

text \<open>
  What the calls of one download answer.  A temporary file has a fresh name made from the asset's; its owner,
  permissions and inherited access control list are the system's.
\<close>

record download_answers =
  da_temp :: "go_error + string \<times> file_entry"
  da_parse :: "string \<Rightarrow> go_error + string \<times> string"
  da_response :: http_response
  da_close :: "go_error option"
  da_chmod :: "go_error option"
  da_rename :: "go_error option"

definition fs_cause :: "fs_error \<Rightarrow> go_error" where
  "fs_cause e = (case e of FsAbsent \<Rightarrow> Plain ''no such file or directory'' | FsError g \<Rightarrow> g)"

definition empty_file :: "file_entry \<Rightarrow> file_entry" where
  "empty_file f = f\<lparr>fe_kind := RegularFile, fe_content := []\<rparr>"

text \<open>From the temporary file to the installed one; the deferred removal runs on every path.\<close>

definition fetch_library ::
  "native_env \<Rightarrow> download_answers \<Rightarrow> string \<Rightarrow> string \<Rightarrow> string list \<Rightarrow> string list \<Rightarrow> file_entry \<Rightarrow> files \<Rightarrow>
   (go_error + string list) \<times> files" where
  "fetch_library env da asset want path tmp f fs =
     (let fs1 = fs(tmp \<mapsto> empty_file f); gone = (\<lambda>e. (Inl e, fs(tmp := None))) in
      case trusted_native_path env fs1 (AbsPath tmp) False of
        Inl e \<Rightarrow> gone (Wrapped ''unsafe native download file'' (fs_cause e))
      | Inr _ \<Rightarrow>
          (case download_url env (da_parse da) asset of
             Inl e \<Rightarrow> gone e
           | Inr url \<Rightarrow>
               (case download_file (da_response da) url of
                  (Some e, data) \<Rightarrow> gone e
                | (None, data) \<Rightarrow>
                    (let g = (empty_file f)\<lparr>fe_content := data\<rparr> in
                     case da_close da of
                       Some e \<Rightarrow> gone (Wrapped ''could not close datafusion-go native download'' e)
                     | None \<Rightarrow>
                         (case verify_file env (fs(tmp \<mapsto> g)) tmp want of
                            Some e \<Rightarrow> gone (Wrapped ''downloaded datafusion-go native library failed checksum verification'' e)
                          | None \<Rightarrow>
                              (case da_chmod da of
                                 Some e \<Rightarrow> gone (Wrapped ''could not mark datafusion-go native library executable'' e)
                               | None \<Rightarrow>
                                   (case da_rename da of
                                      Some e \<Rightarrow> gone (Wrapped ''could not install datafusion-go native library in cache'' e)
                                    | None \<Rightarrow> (Inr path, (fs(tmp := None))(path \<mapsto> g\<lparr>fe_perm := 0x1ED\<rparr>)))))))))"

text \<open>The cached file: trusted and intact, to be replaced at the path it resolves to, or absent.\<close>

datatype cache_state = CacheHit "string list" | CacheMiss "string list" | CacheRefused go_error

definition cached_library :: "native_env \<Rightarrow> files \<Rightarrow> string list \<Rightarrow> string \<Rightarrow> cache_state" where
  "cached_library env fs path want =
     (if (case fs path of None \<Rightarrow> False | Some f \<Rightarrow> fe_kind f \<noteq> RegularFile)
      then CacheRefused (Plain (''cached native library is not a regular file: '' @ show_path path))
      else (case trusted_native_path env fs (AbsPath path) False of
          Inr resolved \<Rightarrow> if verify_file env fs resolved want = None then CacheHit resolved else CacheMiss resolved
        | Inl FsAbsent \<Rightarrow> CacheMiss path
        | Inl (FsError e) \<Rightarrow> CacheRefused (Wrapped ''refusing to use cached native library'' e)))"

definition join_path :: "native_path \<Rightarrow> string list \<Rightarrow> native_path" where
  "join_path p cs = (case p of AbsPath q \<Rightarrow> AbsPath (q @ cs) | RelPath r \<Rightarrow> RelPath (join_with ''/'' (r # cs)))"

definition cache_directory :: "native_env \<Rightarrow> native_path \<Rightarrow> native_path" where
  "cache_directory env cache = join_path cache [''datafusion-go'', ''v'' @ ne_version env]"

definition download_native_library :: "native_env \<Rightarrow> download_answers \<Rightarrow> files \<Rightarrow> (go_error + string list) \<times> files" where
  "download_native_library env da fs =
     (case asset_name env of Inl e \<Rightarrow> (Inl e, fs) | Inr asset \<Rightarrow>
     (case asset_checksum env asset of
        None \<Rightarrow> (Inl (Plain (''datafusion-go release checksums do not include '' @ asset @ ''; set '' @ library_env @
            '' to a compatible libdatafusion_go shared library'')), fs)
      | Some want \<Rightarrow>
     (case ne_cache env of
        Inl e \<Rightarrow> (Inl (Wrapped ''could not locate user cache directory for datafusion-go native library'' e), fs)
      | Inr cache \<Rightarrow>
     (case ne_mkdir env fs (cache_directory env cache) of
        (Some e, fs1) \<Rightarrow> (Inl (Wrapped ''could not create datafusion-go native cache directory'' e), fs1)
      | (None, fs1) \<Rightarrow>
     (case trusted_native_path env fs1 (cache_directory env cache) True of
        Inl e \<Rightarrow> (Inl (Wrapped ''refusing to use datafusion-go native cache directory'' (fs_cause e)), fs1)
      | Inr dir \<Rightarrow>
     (case cached_library env fs1 (dir @ [asset]) want of
        CacheRefused e \<Rightarrow> (Inl e, fs1)
      | CacheHit p \<Rightarrow> (Inr p, fs1)
      | CacheMiss path \<Rightarrow>
     (case da_temp da of
        Inl e \<Rightarrow> (Inl (Wrapped ''could not create datafusion-go native download file'' e), fs1)
      | Inr (rnd, f) \<Rightarrow>
          (let tmp = dir @ [asset @ ''.'' @ rnd @ ''.tmp''] in
           if fs1 tmp \<noteq> None
           then (Inl (Wrapped ''could not create datafusion-go native download file'' (Plain ''file exists'')), fs1)
           else fetch_library env da asset want path tmp f fs1))))))))"

definition local_native_library :: "native_env \<Rightarrow> files \<Rightarrow> string list option" where
  "local_native_library env fs =
     (case ne_caller env of
        Some (AbsPath file) \<Rightarrow>
          (case shared_library_name env of
             Inl e \<Rightarrow> None
           | Inr name \<Rightarrow>
               (case trusted_native_path env fs (AbsPath (butlast file @ [''lib'', native_platform env, name])) False of
                  Inl e \<Rightarrow> None | Inr resolved \<Rightarrow> Some resolved))
      | _ \<Rightarrow> None)"

datatype library_location = ExplicitLibrary string | FoundLibrary "string list"

definition resolve_native_library ::
  "native_env \<Rightarrow> download_answers \<Rightarrow> files \<Rightarrow> (go_error + library_location) \<times> files" where
  "resolve_native_library env da fs =
     (if ne_privileged env
      then (Inl (Plain (''datafusion-go runtime library loading is disabled for privileged execution; use '' @
             ''datafusion_use_bundled or datafusion_use_source'')), fs)
      else let path = ne_getenv env library_env in
        if path \<noteq> []
        then (if \<not> ne_is_abs env path
              then (Inl (Plain (library_env @ '' must be an absolute path, got '' @ go_quote path)), fs)
              else (Inr (ExplicitLibrary path), fs))
        else (case local_native_library env fs of
            Some p \<Rightarrow> (Inr (FoundLibrary p), fs)
          | None \<Rightarrow>
              if ne_getenv env no_download_env \<noteq> []
              then (Inl (Plain (''datafusion-go native library was not found; unset '' @ no_download_env @ '' or set '' @ library_env @
                     '' to a libdatafusion_go shared library'')), fs)
              else (case download_native_library env da fs of
                  (Inl e, fs') \<Rightarrow> (Inl e, fs') | (Inr p, fs') \<Rightarrow> (Inr (FoundLibrary p), fs'))))"

subsection \<open>What a trusted path is\<close>

text \<open>The type and the permissions of one component.\<close>

definition sound_component :: "native_env \<Rightarrow> files \<Rightarrow> file_kind \<Rightarrow> bool \<Rightarrow> string list \<Rightarrow> bool" where
  "sound_component env fs kind library_directory p \<longleftrightarrow>
     (case fs p of None \<Rightarrow> False | Some f \<Rightarrow> fe_kind f = kind \<and> check_permissions (ne_os env) p f library_directory = None)"

definition secure_file :: "native_env \<Rightarrow> files \<Rightarrow> string list \<Rightarrow> bool" where
  "secure_file env fs p \<longleftrightarrow> sound_component env fs RegularFile False p \<and>
     (\<forall>q. strict_prefix q p \<longrightarrow> sound_component env fs DirectoryFile (q = butlast p) q)"

definition secure_directory :: "native_env \<Rightarrow> files \<Rightarrow> string list \<Rightarrow> bool" where
  "secure_directory env fs p \<longleftrightarrow> (\<forall>q. prefix q p \<longrightarrow> sound_component env fs DirectoryFile (q = p) q)"

lemma first_error_None: "first_error f xs = None \<longleftrightarrow> (\<forall>x \<in> set xs. f x = None)"
  by (induction xs) (auto split: option.splits)

lemma ancestors_nth: "length (ancestors p) = length p + 1" "i \<le> length p \<Longrightarrow> ancestors p ! i = take (length p - i) p"
proof -
  have "length (ancestors_rev r) = length r + 1 \<and> (\<forall>i \<le> length r. ancestors_rev r ! i = rev (drop i r))" for r
  proof (induction r)
    case (Cons c r)
    then show ?case by (auto simp: nth_Cons' drop_Cons')
  qed simp
  from this [of "rev p"] show "length (ancestors p) = length p + 1"
    "i \<le> length p \<Longrightarrow> ancestors p ! i = take (length p - i) p"
    by (simp_all add: ancestors_def rev_drop)
qed

lemma check_component_None:
  "check_component os fs directory (i, p) = None \<longleftrightarrow>
     (\<exists>f. fs p = Some f \<and> fe_kind f = (if i \<noteq> 0 \<or> directory then DirectoryFile else RegularFile) \<and>
        check_permissions os p f (directory \<and> i = 0 \<or> \<not> directory \<and> i = 1) = None)"
  by (auto simp: check_component_def lstat_def Let_def split: option.splits)

lemma component_paths:
  "(\<forall>x \<in> set (enumerate 0 (ancestors p)). P x) \<longleftrightarrow> (\<forall>i \<le> length p. P (i, take (length p - i) p))"
  by (simp add: all_set_conv_all_nth nth_enumerate_eq ancestors_nth less_Suc_eq_le)

lemma take_inject: "a \<le> length p \<Longrightarrow> b \<le> length p \<Longrightarrow> take a p = take b p \<longleftrightarrow> a = b"
  by (metis length_take min.absorb2)

lemma take_butlast_iff:
  assumes "i \<le> length p" "0 < i"
  shows "take (length p - i) p = butlast p \<longleftrightarrow> i = 1"
  using assms take_inject [of "length p - i" p "length p - 1"] by (auto simp: butlast_conv_take)

lemma prefix_take: "prefix q p \<longleftrightarrow> (\<exists>i \<le> length p. q = take (length p - i) p)"
proof
  assume "prefix q p"
  then have "q = take (length q) p" "length q \<le> length p" by (auto simp: prefix_def)
  then show "\<exists>i \<le> length p. q = take (length p - i) p" by (intro exI [of _ "length p - length q"]) simp
qed (auto simp: take_is_prefix)

lemma strict_prefix_take: "strict_prefix q p \<longleftrightarrow> (\<exists>i \<le> length p. 0 < i \<and> q = take (length p - i) p)"
  unfolding strict_prefix_def prefix_take
  by (metis bot_nat_0.not_eq_extremum diff_zero length_take min.absorb2 diff_le_self take_all_iff diff_less le_neq_implies_less nat_less_le order_refl zero_less_diff)

lemma sound_component_check:
  "check_component (ne_os env) fs directory (i, p) = None \<longleftrightarrow>
     sound_component env fs (if i \<noteq> 0 \<or> directory then DirectoryFile else RegularFile)
       (directory \<and> i = 0 \<or> \<not> directory \<and> i = 1) p"
  by (simp add: check_component_None sound_component_def split: option.splits)

lemma trusted_file:
  assumes "trusted_native_path env fs (AbsPath p) False = Inr r"
  shows "ne_links env fs p = Inr r" "secure_file env fs r"
proof -
  show "ne_links env fs p = Inr r"
    using assms by (auto simp: trusted_native_path_def split: sum.splits option.splits)
  have all: "\<forall>i \<le> length r. check_component (ne_os env) fs False (i, take (length r - i) r) = None"
    using assms by (auto simp: trusted_native_path_def first_error_None component_paths split: sum.splits option.splits)
  show "secure_file env fs r"
    unfolding secure_file_def
  proof (intro conjI allI impI)
    show "sound_component env fs RegularFile False r"
      using all [rule_format, of 0] by (simp add: sound_component_check)
    fix q assume "strict_prefix q r"
    then obtain i where i: "i \<le> length r" "0 < i" "q = take (length r - i) r" by (auto simp: strict_prefix_take)
    with all [rule_format, OF i(1)] show "sound_component env fs DirectoryFile (q = butlast r) q"
      by (simp add: sound_component_check take_butlast_iff del: One_nat_def)
  qed
qed

lemma trusted_directory:
  assumes "trusted_native_path env fs d True = Inr r"
  shows "\<exists>p. ne_links env fs p = Inr r" "secure_directory env fs r"
proof -
  obtain p where d: "d = AbsPath p" using assms by (cases d) (auto simp: trusted_native_path_def)
  show "\<exists>p. ne_links env fs p = Inr r"
    using assms by (auto simp: trusted_native_path_def d split: sum.splits option.splits)
  have all: "\<forall>i \<le> length r. check_component (ne_os env) fs True (i, take (length r - i) r) = None"
    using assms by (auto simp: trusted_native_path_def first_error_None component_paths d split: sum.splits option.splits)
  show "secure_directory env fs r"
    unfolding secure_directory_def
  proof (intro allI impI)
    fix q assume "prefix q r"
    then obtain i where i: "i \<le> length r" "q = take (length r - i) r" by (auto simp: prefix_take)
    have "take (length r - i) r = r \<longleftrightarrow> i = 0" using take_inject [of "length r - i" r "length r"] i(1) by auto
    with all [rule_format, OF i(1)] i show "sound_component env fs DirectoryFile (q = r) q"
      by (simp add: sound_component_check)
  qed
qed

subsection \<open>Resolution\<close>

lemma check_entries_path: "check_entries p m es = None \<longleftrightarrow> check_entries q m es = None"
  by (induction es) auto

lemma check_permissions_path:
  assumes "check_permissions os p f False = None" "fe_kind f = RegularFile"
  shows "check_permissions os q (f\<lparr>fe_content := c, fe_perm := 0x1ED\<rparr>) False = None"
  using assms check_entries_path [of p "write_mask f False"]
  by (auto simp: check_permissions_def check_unix_def check_acl_def check_windows_def write_mask_def sticky_root_def
      split: os_family.splits if_splits option.splits)

definition parents_sound :: "native_env \<Rightarrow> files \<Rightarrow> string list \<Rightarrow> bool" where
  "parents_sound env fs p \<longleftrightarrow> (\<forall>q. strict_prefix q p \<longrightarrow> sound_component env fs DirectoryFile (q = butlast p) q)"

lemma secure_file_iff: "secure_file env fs p \<longleftrightarrow> sound_component env fs RegularFile False p \<and> parents_sound env fs p"
  by (simp add: secure_file_def parents_sound_def)

lemma parents_of_child: "secure_directory env fs d \<Longrightarrow> parents_sound env fs (d @ [c])"
  by (auto simp: secure_directory_def parents_sound_def strict_prefix_def)

lemma parents_sound_put: "parents_sound env fs p \<Longrightarrow> parents_sound env (fs(p \<mapsto> g)) p"
  by (auto simp: parents_sound_def sound_component_def)

text \<open>
  \<^verbatim>\<open>filepath.EvalSymlinks\<close> as documented: a path it returned has no symbolic links, so a regular file in that
  directory resolves to itself.
\<close>

definition links_resolved :: "native_env \<Rightarrow> bool" where
  "links_resolved env \<longleftrightarrow> (\<forall>fs p q c f. ne_links env fs p = Inr q \<longrightarrow> fe_kind f = RegularFile \<longrightarrow>
     ne_links env (fs(q @ [c] \<mapsto> f)) (q @ [c]) = Inr (q @ [c]))"

definition intact :: "native_env \<Rightarrow> files \<Rightarrow> string list \<Rightarrow> string \<Rightarrow> bool" where
  "intact env fs p want \<longleftrightarrow>
     (case fs p of None \<Rightarrow> False
      | Some f \<Rightarrow> to_lower (ne_digest env (fe_content f)) = to_lower want \<and> int (length (fe_content f)) \<le> max_asset_size)"

lemma verify_file_intact: "verify_file env fs p want = None \<Longrightarrow> intact env fs p want"
  by (auto simp: verify_file_def intact_def Let_def limit_read_def split: option.splits if_splits)

lemma fetch_library_cases:
  assumes run: "fetch_library env da asset want path (d @ [c]) f fs = (res, fs')"
    and links: "links_resolved env" "ne_links env fs p0 = Inr d" and fresh: "fs (d @ [c]) = None"
    and parents: "parents_sound env fs path"
  shows "case res of Inl e \<Rightarrow> fs' = fs | Inr p \<Rightarrow> p = path \<and> secure_file env fs' p \<and> intact env fs' p want"
proof (cases res)
  case (Inl e)
  have gone: "fs(d @ [c] := None) = fs" using fresh by auto
  from run Inl show ?thesis
    by (auto simp: fetch_library_def Let_def gone split: sum.splits prod.splits option.splits)
next
  case (Inr p)
  define tmp where "tmp = d @ [c]"
  obtain r data where r: "trusted_native_path env (fs(tmp \<mapsto> empty_file f)) (AbsPath tmp) False = Inr r"
    and v: "verify_file env (fs(tmp \<mapsto> (empty_file f)\<lparr>fe_content := data\<rparr>)) tmp want = None"
    and out: "p = path" "fs' = (fs(tmp := None))(path \<mapsto> (empty_file f)\<lparr>fe_content := data, fe_perm := 0x1ED\<rparr>)"
    using run Inr unfolding tmp_def [symmetric]
    by (auto simp: fetch_library_def Let_def split: sum.splits prod.splits option.splits)
  define h where "h = (empty_file f)\<lparr>fe_content := data, fe_perm := 0x1ED\<rparr>"
  have kind: "fe_kind (empty_file f) = RegularFile" by (simp add: empty_file_def)
  have "ne_links env (fs(tmp \<mapsto> empty_file f)) tmp = Inr tmp"
    using links(1) [unfolded links_resolved_def, rule_format, OF links(2) kind] by (simp add: tmp_def)
  then have "r = tmp" using trusted_file(1) [OF r] by simp
  then have "sound_component env (fs(tmp \<mapsto> empty_file f)) RegularFile False tmp"
    using trusted_file(2) [OF r] by (simp add: secure_file_iff)
  then have "check_permissions (ne_os env) tmp (empty_file f) False = None" by (simp add: sound_component_def)
  from check_permissions_path [OF this kind] have "check_permissions (ne_os env) path h False = None" by (simp add: h_def)
  moreover have fs': "fs' = fs(path \<mapsto> h)" using out fresh by (auto simp: h_def tmp_def [symmetric])
  ultimately have "secure_file env fs' path"
    using parents by (simp add: secure_file_iff parents_sound_put) (simp add: sound_component_def h_def empty_file_def)
  moreover have "intact env fs' path want"
    using verify_file_intact [OF v] by (simp add: intact_def fs' h_def)
  ultimately show ?thesis using Inr out by simp
qed

lemma cached_library_cases:
  assumes "cached_library env fs (d @ [c]) want = st" "secure_directory env fs d"
  shows "case st of CacheHit p \<Rightarrow> secure_file env fs p \<and> intact env fs p want
    | CacheMiss p \<Rightarrow> parents_sound env fs p | CacheRefused e \<Rightarrow> True"
  using assms parents_of_child [OF assms(2)]
  by (auto simp: cached_library_def secure_file_iff dest!: trusted_file(2) intro: verify_file_intact
      split: if_splits sum.splits fs_error.splits)

lemma download_native_library_cases:
  assumes run: "download_native_library env da fs = (res, fs')" and links: "links_resolved env"
  shows "case res of
      Inl e \<Rightarrow> fs' = fs \<or> (\<exists>cache. ne_cache env = Inr cache \<and> fs' = snd (ne_mkdir env fs (cache_directory env cache)))
    | Inr p \<Rightarrow> secure_file env fs' p \<and> (\<exists>asset want. asset_name env = Inr asset \<and> asset_checksum env asset = Some want \<and>
        intact env fs' p want)"
proof (cases "asset_name env")
  case (Inr asset)
  show ?thesis
  proof (cases "asset_checksum env asset")
    case None
    with run Inr show ?thesis by (auto simp: download_native_library_def)
  next
    case (Some want)
    show ?thesis
    proof (cases "ne_cache env")
      case Inl
      with run Inr Some show ?thesis by (auto simp: download_native_library_def)
    next
      case cache: (Inr cache)
      obtain err fs1 where mk: "ne_mkdir env fs (cache_directory env cache) = (err, fs1)" by force
      show ?thesis
      proof (cases "err = None \<and> (\<exists>dir. trusted_native_path env fs1 (cache_directory env cache) True = Inr dir)")
        case False
        then have "(\<exists>e. res = Inl e) \<and> fs' = fs1"
          using run Inr Some cache mk by (auto simp: download_native_library_def split: option.splits sum.splits)
        with cache mk show ?thesis by auto
      next
        case True
        then obtain dir where dir: "trusted_native_path env fs1 (cache_directory env cache) True = Inr dir" and e: "err = None"
          by auto
        obtain p0 where p0: "ne_links env fs1 p0 = Inr dir" using trusted_directory(1) [OF dir] by auto
        note cached = cached_library_cases [OF refl trusted_directory(2) [OF dir], of want asset]
        show ?thesis
        proof (cases "cached_library env fs1 (dir @ [asset]) want")
          case (CacheHit p)
          with cached run Inr Some cache mk dir e show ?thesis by (auto simp: download_native_library_def)
        next
          case (CacheRefused x)
          with run Inr Some cache mk dir e show ?thesis by (auto simp: download_native_library_def)
        next
          case (CacheMiss path)
          show ?thesis
          proof (cases "\<exists>rnd f. da_temp da = Inr (rnd, f) \<and> fs1 (dir @ [asset @ ''.'' @ rnd @ ''.tmp'']) = None")
            case False
            then have "(\<exists>e. res = Inl e) \<and> fs' = fs1"
              using run Inr Some cache mk dir e CacheMiss
              by (auto simp: download_native_library_def Let_def split: sum.splits prod.splits)
            with cache mk show ?thesis by auto
          next
            case True
            then obtain rnd f where tmp: "da_temp da = Inr (rnd, f)" "fs1 (dir @ [asset @ ''.'' @ rnd @ ''.tmp'']) = None" by auto
            then have "fetch_library env da asset want path (dir @ [asset @ ''.'' @ rnd @ ''.tmp'']) f fs1 = (res, fs')"
              using run Inr Some cache mk dir e CacheMiss by (simp add: download_native_library_def Let_def)
            from fetch_library_cases [OF this links p0 tmp(2)] cached CacheMiss Inr Some cache mk
            show ?thesis by (auto split: sum.splits)
          qed
        qed
      qed
    qed
  qed
qed (use run in \<open>auto simp: download_native_library_def\<close>)

text \<open>C12: A native library is loaded only from a trusted place: never in a privileged process; from the path the user
  names when that path is absolute; otherwise from a file whose every directory passes the ownership and permission
  checks, that lies beside absolute build sources or carries the checksum the release manifest lists for this
  version and platform, within the size bound.\<close>

theorem resolved_library_is_trusted:
  assumes "resolve_native_library env da fs = (Inr loc, fs')" "links_resolved env"
  shows "\<not> ne_privileged env \<and>
    (case loc of
       ExplicitLibrary path \<Rightarrow> path = ne_getenv env library_env \<and> path \<noteq> [] \<and> ne_is_abs env path \<and> fs' = fs
     | FoundLibrary p \<Rightarrow> ne_getenv env library_env = [] \<and> secure_file env fs' p \<and>
         (local_native_library env fs = Some p \<and> fs' = fs \<or>
          (\<exists>asset want. asset_name env = Inr asset \<and> asset_checksum env asset = Some want \<and> intact env fs' p want)))"
proof (cases "ne_privileged env \<or> ne_getenv env library_env \<noteq> []")
  case True
  with assms(1) show ?thesis by (auto simp: resolve_native_library_def Let_def split: if_splits)
next
  case False
  show ?thesis
  proof (cases "local_native_library env fs")
    case (Some p)
    then have "secure_file env fs p"
      by (auto simp: local_native_library_def dest: trusted_file(2) split: option.splits native_path.splits sum.splits)
    with Some assms(1) False show ?thesis by (auto simp: resolve_native_library_def)
  next
    case None
    then obtain p where p: "download_native_library env da fs = (Inr p, fs')" "loc = FoundLibrary p"
      using assms(1) False
      by (auto simp: resolve_native_library_def split: if_splits prod.splits sum.splits)
    from download_native_library_cases [OF p(1) assms(2)] p(2) False show ?thesis by auto
  qed
qed

text \<open>A resolution that fails installs nothing: whatever step of the download fails, the files are those
  before it, up to the creation of the cache directory, and no temporary file is left.\<close>

theorem failed_resolution_installs_nothing:
  assumes "resolve_native_library env da fs = (Inl e, fs')" "links_resolved env"
  shows "case ne_cache env of
      Inl _ \<Rightarrow> fs' = fs
    | Inr cache \<Rightarrow> fs' = fs \<or> fs' = snd (ne_mkdir env fs (cache_directory env cache))"
proof (cases "fs' = fs")
  case False
  then have "\<exists>e. download_native_library env da fs = (Inl e, fs')"
    using assms(1) by (auto simp: resolve_native_library_def Let_def split: if_splits option.splits prod.splits sum.splits)
  then obtain e' where "download_native_library env da fs = (Inl e', fs')" by auto
  from download_native_library_cases [OF this assms(2)] False show ?thesis by auto
qed (simp split: sum.splits)

definition sample_directory :: file_entry where
  "sample_directory = \<lparr>fe_kind = DirectoryFile, fe_uid = 0, fe_perm = 0x1ED, fe_sticky = False, fe_acl_errno = 0,
     fe_owner_trusted = True, fe_dacl = None, fe_content = []\<rparr>"

definition sample_file :: file_entry where
  "sample_file = sample_directory\<lparr>fe_kind := RegularFile, fe_uid := 1000, fe_perm := 0x180\<rparr>"

definition sample_env :: native_env where
  "sample_env = \<lparr>ne_privileged = False, ne_getenv = (\<lambda>v. []), ne_is_abs = (\<lambda>s. has_prefix s ''/''), ne_goos = ''linux'',
     ne_goarch = ''amd64'', ne_os = UnixFamily 1000, ne_caller = None, ne_version = ''1'',
     ne_manifest = ''AB  datafusion-go-v1-linux-amd64-libdatafusion_go.so'',
     ne_links = (\<lambda>fs p. if fs p = None then Inl FsAbsent else Inr p), ne_cache = Inr (AbsPath [''c'']),
     ne_mkdir = (\<lambda>fs d. (None, fs([''c'', ''datafusion-go''] \<mapsto> sample_directory, [''c'', ''datafusion-go'', ''v1''] \<mapsto> sample_directory))),
     ne_digest = (\<lambda>s. ''aB'')\<rparr>"

definition sample_files :: files where
  "sample_files = [[] \<mapsto> sample_directory, [''c''] \<mapsto> sample_directory]"

definition sample_answers :: download_answers where
  "sample_answers = \<lparr>da_temp = Inr (''7'', sample_file), da_parse = (\<lambda>s. Inr (''https'', ''h'')),
     da_response = \<lparr>hr_error = None, hr_status = 200, hr_status_text = ''200 OK'', hr_length = 0, hr_body = [], hr_copy_error = None\<rparr>,
     da_close = None, da_chmod = None, da_rename = None\<rparr>"

definition sample_library :: "string list" where
  "sample_library = [''c'', ''datafusion-go'', ''v1'', ''datafusion-go-v1-linux-amd64-libdatafusion_go.so'']"

lemma sample_resolves: "fst (resolve_native_library sample_env sample_answers sample_files) = Inr (FoundLibrary sample_library)"
  by code_simp

lemma sample_links: "links_resolved sample_env"
  by (simp add: links_resolved_def sample_env_def)

theorem resolved_library_is_trusted_witness:
  "secure_file sample_env (snd (resolve_native_library sample_env sample_answers sample_files)) sample_library"
proof -
  have run: "resolve_native_library sample_env sample_answers sample_files =
      (Inr (FoundLibrary sample_library), snd (resolve_native_library sample_env sample_answers sample_files))"
    using sample_resolves by (simp add: prod_eq_iff)
  from resolved_library_is_trusted [OF run sample_links] show ?thesis by simp
qed

definition sample_failure :: download_answers where
  "sample_failure = sample_answers\<lparr>da_rename := Some (Plain ''disk full'')\<rparr>"

theorem failed_resolution_installs_nothing_witness:
  "case resolve_native_library sample_env sample_failure sample_files of
     (Inl e, fs') \<Rightarrow> fs' = sample_files \<or> fs' = snd (ne_mkdir sample_env sample_files (cache_directory sample_env (AbsPath [''c''])))
   | _ \<Rightarrow> False"
proof -
  have "\<not> isl (fst (resolve_native_library sample_env sample_failure sample_files)) \<Longrightarrow> False" by code_simp
  then obtain e fs' where run: "resolve_native_library sample_env sample_failure sample_files = (Inl e, fs')"
    by (cases "resolve_native_library sample_env sample_failure sample_files") (auto simp: isl_def)
  have "ne_cache sample_env = Inr (AbsPath [''c''])" by (simp add: sample_env_def)
  with failed_resolution_installs_nothing [OF run sample_links] show ?thesis by (simp add: run)
qed

end
