(* ===== verification/Genabi.thy ===== *)
theory Genabi
  imports ToolFiles
begin

text \<open>
  The ABI generator (\<^verbatim>\<open>internal/tools/genabi/main.go\<close>): the parser of the declarations of
  \<^verbatim>\<open>rust/include/datafusion_go.h\<close>, the translation of C types to Rust, the three files generated from
  the contract, and the run that writes or checks them.  The two regular expressions of the source are
  anchored at both ends and lazy, so each is a search for the shortest prefix whose rest matches.
\<close>

subsection \<open>The contract\<close>

record c_decl =
  dl_ctype :: string
  dl_name :: string

record c_function =
  fn_result :: string
  fn_name :: string
  fn_args :: "c_decl list"

record contract =
  ct_functions :: "c_function list"
  ct_fields :: "c_decl list"
  ct_callbacks :: "string list"
  ct_exchange :: "c_decl list"

subsection \<open>The regular expressions\<close>

definition letter :: "char \<Rightarrow> bool" where
  "letter c = (let n = (of_char c :: nat) in 65 \<le> n \<and> n \<le> 90 \<or> 97 \<le> n \<and> n \<le> 122 \<or> n = 95)"

definition word_char :: "char \<Rightarrow> bool" where
  "word_char c = (letter c \<or> char_digit c \<noteq> None)"

definition symbol_char :: "char \<Rightarrow> bool" where
  "symbol_char c = (let n = (of_char c :: nat) in 97 \<le> n \<and> n \<le> 122 \<or> n = 95)"

text \<open>\<open>^(.+?[ *])rest$\<close>: the shortest nonempty prefix up to a space or a star after which \<open>rest\<close> matches.\<close>

fun lazy_prefix :: "(string \<Rightarrow> 'a option) \<Rightarrow> string \<Rightarrow> string \<Rightarrow> (string \<times> 'a) option" where
  "lazy_prefix rest pre [] = None"
| "lazy_prefix rest pre (c # s) =
     (if c = CHR 0x0A then None
      else case (if pre \<noteq> [] \<and> (c = CHR '' '' \<or> c = CHR ''*'') then rest s else None) of
          Some x \<Rightarrow> Some (pre @ [c], x)
        | None \<Rightarrow> lazy_prefix rest (pre @ [c]) s)"

definition c_identifier :: "string \<Rightarrow> string option" where
  "c_identifier s = (if s \<noteq> [] \<and> letter (hd s) \<and> list_all word_char s then Some s else None)"

definition declarator :: "string \<Rightarrow> (string \<times> string) option" where
  "declarator s = lazy_prefix c_identifier [] s"

text \<open>\<open>(dfgo_[a-z_]+)\((.*)\);$\<close>\<close>

definition prototype_rest :: "string \<Rightarrow> (string \<times> string) option" where
  "prototype_rest s =
     (let name = takeWhile symbol_char s; after = dropWhile symbol_char s in
      if has_prefix name ''dfgo_'' \<and> 5 < length name \<and> after \<noteq> [] \<and> hd after = CHR ''('' \<and> has_suffix (tl after) '');'' \<and>
         CHR 0x0A \<notin> set after
      then Some (name, trim_suffix (tl after) '');'') else None)"

definition prototype :: "string \<Rightarrow> (string \<times> string \<times> string) option" where
  "prototype s = lazy_prefix prototype_rest [] s"

text \<open>\<open>\(\*(\w+)\)\<close>, the leftmost match anywhere in the line.\<close>

fun pointer_name :: "string \<Rightarrow> string option" where
  "pointer_name [] = None"
| "pointer_name (c # s) =
     (let name = takeWhile word_char (drop 1 s) in
      if c = CHR ''('' \<and> take 1 s = ''*'' \<and> name \<noteq> [] \<and> take 1 (drop (length name) (drop 1 s)) = '')''
      then Some name else pointer_name s)"

subsection \<open>C types in Rust\<close>

definition rust_types :: "(string \<times> string) list" where
  "rust_types =
     [(''void'', ''()''), (''int'', ''std::ffi::c_int''), (''char'', ''std::ffi::c_char''),
      (''int8_t'', ''i8''), (''uint8_t'', ''u8''), (''int32_t'', ''i32''),
      (''int64_t'', ''i64''), (''uint64_t'', ''u64''), (''double'', ''f64''),
      (''struct ArrowArrayStream'', ''datafusion::arrow::ffi_stream::FFI_ArrowArrayStream''),
      (''struct ArrowArray'', ''datafusion::arrow::ffi::FFI_ArrowArray''),
      (''struct ArrowSchema'', ''datafusion::arrow::ffi::FFI_ArrowSchema'')]"

definition opaque_types :: "string list" where
  "opaque_types = [''dfgo_import'', ''dfgo_database'', ''dfgo_connection'', ''dfgo_statement'', ''dfgo_result_stream'',
     ''dfgo_cancel_token'', ''dfgo_error'', ''dfgo_parameter'']"

fun rust_pointers :: "bool \<Rightarrow> nat \<Rightarrow> string \<Rightarrow> string" where
  "rust_pointers immutable 0 r = r"
| "rust_pointers immutable (Suc n) r = (if n = 0 \<and> immutable then ''*const '' else ''*mut '') @ rust_pointers immutable n r"

definition rust_base :: "string \<Rightarrow> string option" where
  "rust_base t = (if t \<in> set opaque_types then Some (''super::'' @ t) else map_of rust_types t)"

definition rust_type :: "string \<Rightarrow> go_error + string" where
  "rust_type s =
     (let pointers = length (filter (\<lambda>c. c = CHR ''*'') s);
          t = trim_space (filter (\<lambda>c. c \<noteq> CHR ''*'') s);
          immutable = has_prefix t ''const '';
          u = trim_prefix t ''const '' in
      case rust_base u of
        None \<Rightarrow> Inl (Plain (''unsupported C type '' @ go_quote u))
      | Some r \<Rightarrow>
          if immutable \<and> pointers = 0 then Inl (Plain (''unsupported C type '' @ go_quote u))
          else Inr (rust_pointers immutable pointers (if u = ''void'' \<and> 0 < pointers then ''std::ffi::c_void'' else r)))"

subsection \<open>Parsing the header\<close>

definition parse_declaration :: "string \<Rightarrow> go_error + c_decl" where
  "parse_declaration s =
     (case declarator s of
        None \<Rightarrow> Inl (Plain (''unsupported declaration '' @ go_quote s))
      | Some (p, n) \<Rightarrow> rbind (rust_type (trim_space p)) (\<lambda>r. Inr \<lparr>dl_ctype = trim_space p, dl_name = n\<rparr>))"

definition parse_args :: "string \<Rightarrow> go_error + c_decl list" where
  "parse_args args = (if args = ''void'' then Inr [] else traverse (parse_declaration \<circ> trim_space) (split_on (CHR '','') args))"

fun parse_functions :: "string list \<Rightarrow> string list \<Rightarrow> go_error + c_function list" where
  "parse_functions seen [] = Inr []"
| "parse_functions seen (l # ls) =
     (let line = trim_space l in
      if line = [] then parse_functions seen ls
      else case prototype line of
          None \<Rightarrow> Inl (Plain (''unsupported or duplicate prototype: '' @ line))
        | Some (p, name, args) \<Rightarrow>
            if name \<in> set seen then Inl (Plain (''unsupported or duplicate prototype: '' @ line))
            else rbind (rust_type (trim_space p)) (\<lambda>r.
              rbind (parse_args args) (\<lambda>ds.
                rbind (parse_functions (name # seen) ls) (\<lambda>fs.
                  Inr (\<lparr>fn_result = trim_space p, fn_name = name, fn_args = ds\<rparr> # fs)))))"

definition parse_field :: "string \<Rightarrow> go_error + c_decl" where
  "parse_field line = parse_declaration (trim_suffix (trim_space line) '';'')"

fun parse_fields :: "string list \<Rightarrow> string list \<Rightarrow> go_error + c_decl list" where
  "parse_fields seen [] = Inr []"
| "parse_fields seen (l # ls) =
     rbind (parse_field l) (\<lambda>d.
       if dl_name d \<in> set seen then Inl (Plain (''duplicate field '' @ dl_name d))
       else rbind (parse_fields (dl_name d # seen) ls) (\<lambda>ds. Inr (d # ds)))"

definition body_lines :: "string \<Rightarrow> string list" where
  "body_lines body = split_on (CHR 0x0A) (trim_space body)"

definition parse_callback :: "string \<Rightarrow> go_error + string" where
  "parse_callback line =
     (case pointer_name line of
        Some n \<Rightarrow> Inr n
      | None \<Rightarrow> rbind (parse_field line) (\<lambda>d. Inr (dl_name d)))"

text \<open>The text between two markers: \<open>None\<close> when the first is missing, an error when the second is.\<close>

definition cut_block :: "string \<Rightarrow> string \<Rightarrow> string \<Rightarrow> string \<Rightarrow> (go_error + string) option" where
  "cut_block header first second unterminated =
     (case cut header first of
        None \<Rightarrow> None
      | Some (_, body) \<Rightarrow> Some (case cut body second of
            None \<Rightarrow> Inl (Plain unterminated)
          | Some (b, _) \<Rightarrow> Inr b))"

definition prototype_block :: "string \<Rightarrow> go_error + string" where
  "prototype_block header =
     (case cut_block header (''#ifndef DFGO_NO_FUNCTION_PROTOTYPES'' @ [CHR 0x0A]) ''#endif'' ''unterminated function prototype block'' of
        None \<Rightarrow> Inl (Plain ''missing function prototype block'') | Some r \<Rightarrow> r)"

definition parameter_block :: "string \<Rightarrow> go_error + string" where
  "parameter_block header =
     (case cut_block header (''typedef struct dfgo_parameter {'' @ [CHR 0x0A]) ''} dfgo_parameter;'' ''unterminated dfgo_parameter'' of
        None \<Rightarrow> Inl (Plain ''missing dfgo_parameter'') | Some r \<Rightarrow> r)"

text \<open>An optional table: no names when its block is missing.\<close>

definition parse_table ::
  "(string \<Rightarrow> go_error + 'a) \<Rightarrow> string \<Rightarrow> string \<Rightarrow> string \<Rightarrow> string \<Rightarrow> go_error + 'a list" where
  "parse_table entry header first second unterminated =
     (case cut_block header first second unterminated of
        None \<Rightarrow> Inr [] | Some r \<Rightarrow> rbind r (\<lambda>body. traverse entry (body_lines body)))"

definition parse_header :: "string \<Rightarrow> go_error + contract" where
  "parse_header header =
     rbind (rbind (prototype_block header) (\<lambda>body. parse_functions [] (split_on (CHR 0x0A) body))) (\<lambda>fns.
     rbind (rbind (parameter_block header) (\<lambda>body. parse_fields [] (body_lines body))) (\<lambda>fields.
     if fns = [] \<or> fields = [] then Inl (Plain ''empty ABI contract'')
     else
       rbind (parse_table parse_callback header (''typedef struct dfgo_callbacks {'' @ [CHR 0x0A]) ''} dfgo_callbacks;''
         ''unterminated callback table'') (\<lambda>callbacks.
       rbind (parse_table parse_field header (''typedef struct dfgo_arrow_exchange {'' @ [CHR 0x0A]) ''} dfgo_arrow_exchange;''
         ''unterminated Arrow exchange'') (\<lambda>exchange.
         Inr \<lparr>ct_functions = fns, ct_fields = fields, ct_callbacks = callbacks, ct_exchange = exchange\<rparr>))))"

subsection \<open>The generated files\<close>

definition generated_mark :: string where
  "generated_mark = ''// Code generated by internal/tools/genabi; DO NOT EDIT.''"

definition arg_text :: "c_decl \<Rightarrow> string" where
  "arg_text d = dl_ctype d @ '' '' @ dl_name d"

definition loader_row :: "c_function \<Rightarrow> string" where
  "loader_row fn =
     ''  X('' @ fn_result fn @ '', '' @ fn_name fn @ '', ('' @
       join_with '', '' (if fn_args fn = [] then [''void''] else map arg_text (fn_args fn)) @ ''), ('' @
       join_with '', '' (map dl_name (fn_args fn)) @ ''), '' @ (if fn_result fn = ''void'' then [] else ''return'') @ '')''"

definition loader :: "contract \<Rightarrow> string" where
  "loader abi = text_of
     ([generated_mark, [], ''#ifndef DFGO_ABI_GENERATED_H'', ''#define DFGO_ABI_GENERATED_H'', [],
       ''#define DFGO_FUNCTIONS(X) '' @ [CHR 0x5C]] @
      map (\<lambda>i. loader_row (ct_functions abi ! i) @ (if i + 1 < length (ct_functions abi) then '' '' @ [CHR 0x5C] else []))
        [0..<length (ct_functions abi)] @
      [[], ''#endif''])"

text \<open>\<^verbatim>\<open>r, _ := rustType(...)\<close>: the empty string where the translation fails.\<close>

definition rust_or_empty :: "string \<Rightarrow> string" where
  "rust_or_empty s = (case rust_type s of Inl e \<Rightarrow> [] | Inr r \<Rightarrow> r)"

definition rust_function :: "c_function \<Rightarrow> string list" where
  "rust_function fn =
     [''#[rustfmt::skip]'',
      ''const _: unsafe extern '' @ [CHR 0x22] @ ''C'' @ [CHR 0x22] @ '' fn('' @
        join_with '', '' (map (\<lambda>a. rust_or_empty (dl_ctype a)) (fn_args fn)) @ '') -> '' @ rust_or_empty (fn_result fn) @
        '' = super::'' @ fn_name fn @ '';'']"

definition rust_offsets :: "string \<Rightarrow> string list \<Rightarrow> string list" where
  "rust_offsets typ names =
     (if names = [] then []
      else (''        size_of::<'' @ typ @ ''>(), align_of::<'' @ typ @ ''>(),'') #
        map (\<lambda>n. ''        offset_of!('' @ typ @ '', '' @ n @ ''),'') names)"

definition rust :: "contract \<Rightarrow> string" where
  "rust abi = text_of
     ([generated_mark, [], ''// Signature assignments are compile-time checks against the C declarations.''] @
      concat (map rust_function (ct_functions abi)) @
      [[], ''const _: fn(&super::dfgo_parameter) = |p| {''] @
      map (\<lambda>f. ''    let _: '' @ rust_or_empty (dl_ctype f) @ '' = p.'' @ dl_name f @ '';'') (ct_fields abi) @
      [''};'', [], ''#[rustfmt::skip]'', ''pub(super) fn rust_layout() -> Vec<usize> {'',
       ''    use std::mem::{align_of, offset_of, size_of};'', ''    use super::dfgo_parameter;'',
       ''    use datafusion::arrow::{ffi::{FFI_ArrowArray, FFI_ArrowSchema}, ffi_stream::FFI_ArrowArrayStream};'',
       ''    vec!['' ] @
      map (\<lambda>t. ''        size_of::<'' @ t @ ''>(), align_of::<'' @ t @ ''>(),'')
        [''dfgo_parameter'', ''FFI_ArrowSchema'', ''FFI_ArrowArray'', ''FFI_ArrowArrayStream''] @
      map (\<lambda>f. ''        offset_of!(dfgo_parameter, '' @ dl_name f @ ''),'') (ct_fields abi) @
      rust_offsets ''crate::callbacks::Callbacks'' (ct_callbacks abi) @
      rust_offsets ''crate::callback_arrow::ArrowExchange'' (map dl_name (ct_exchange abi)) @
      [''    ]'', ''}''])"

text \<open>A call of \<^verbatim>\<open>printf\<close> that prints each argument with the verb \<^verbatim>\<open>%zu\<close> and a space.\<close>

definition print_sizes :: "string list \<Rightarrow> string" where
  "print_sizes xs =
     ''  printf('' @ [CHR 0x22] @ concat (map (\<lambda>x. ''%zu '') xs) @ [CHR 0x22] @ '', '' @ join_with '', '' xs @ '');''"

definition layout_offsets :: "string \<Rightarrow> string list \<Rightarrow> string list" where
  "layout_offsets typ names =
     (if names = [] then []
      else print_sizes [''sizeof('' @ typ @ '')'', ''_Alignof('' @ typ @ '')''] #
        map (\<lambda>n. print_sizes [''offsetof('' @ typ @ '', '' @ n @ '')'']) names)"

definition layout :: "contract \<Rightarrow> string" where
  "layout abi = text_of
     ([generated_mark, [], ''#include <stddef.h>'', ''#include <stdio.h>'',
       ''#include '' @ [CHR 0x22] @ ''datafusion_go.h'' @ [CHR 0x22], [], ''int main(void) {''] @
      map (\<lambda>t. print_sizes [''sizeof('' @ t @ '')'', ''_Alignof('' @ t @ '')''])
        [''dfgo_parameter'', ''struct ArrowSchema'', ''struct ArrowArray'', ''struct ArrowArrayStream''] @
      map (\<lambda>f. print_sizes [''offsetof(dfgo_parameter, '' @ dl_name f @ '')'']) (ct_fields abi) @
      layout_offsets ''dfgo_callbacks'' (ct_callbacks abi) @
      layout_offsets ''dfgo_arrow_exchange'' (map dl_name (ct_exchange abi)) @
      [''  putchar('' @ [CHR 0x27, CHR 0x5C, CHR ''n'', CHR 0x27] @ '');'', ''  return 0;'', ''}''])"

subsection \<open>The run\<close>

definition header_path :: string where "header_path = ''rust/include/datafusion_go.h''"

definition abi_outputs :: "contract \<Rightarrow> (string \<times> string) list" where
  "abi_outputs abi =
     [(''internal/native/abi_generated.h'', loader abi), (''rust/src/abi/contract_generated.rs'', rust abi),
      (''rust/tests/abi_layout.c'', layout abi)]"

text \<open>
  \<open>mk\<close> says whether the directory of an output cannot be made.  The comparison takes an absent file for an
  empty one; a check stops at the first file that differs.
\<close>

fun sync_outputs :: "faults \<Rightarrow> faults \<Rightarrow> faults \<Rightarrow> bool \<Rightarrow> file_system \<Rightarrow> (string \<times> string) list \<Rightarrow>
    go_error option \<times> file_system" where
  "sync_outputs rf mk wrf check fs [] = (None, fs)"
| "sync_outputs rf mk wrf check fs ((path, content) # rest) =
     (case rf path of
        Some e \<Rightarrow> (Some e, fs)
      | None \<Rightarrow>
          if (case fs path of None \<Rightarrow> [] | Some data \<Rightarrow> data) = content then sync_outputs rf mk wrf check fs rest
          else if check then (Some (Plain (path @ '' is stale; run make generate'')), fs)
          else (case mk path of
              Some e \<Rightarrow> (Some e, fs)
            | None \<Rightarrow> (case wrf path of
                  Some e \<Rightarrow> (Some e, fs)
                | None \<Rightarrow> sync_outputs rf mk wrf check (fs(path \<mapsto> content)) rest)))"

definition run_genabi :: "faults \<Rightarrow> faults \<Rightarrow> faults \<Rightarrow> bool \<Rightarrow> file_system \<Rightarrow> go_error option \<times> file_system" where
  "run_genabi rf mk wrf check fs =
     (case rbind (read_path rf fs header_path) parse_header of
        Inl e \<Rightarrow> (Some e, fs)
      | Inr abi \<Rightarrow> sync_outputs rf mk wrf check fs (abi_outputs abi))"

subsection \<open>Distinct C types have distinct Rust types\<close>

text \<open>A type without its stars, and how many there are; the source allows spaces between the stars.\<close>

definition bare_type :: "string \<Rightarrow> string" where
  "bare_type s = trim_space (filter (\<lambda>c. c \<noteq> CHR ''*'') s)"

definition star_count :: "string \<Rightarrow> nat" where
  "star_count s = length (filter (\<lambda>c. c = CHR ''*'') s)"

definition no_star :: "string \<Rightarrow> bool" where
  "no_star r \<longleftrightarrow> take 1 r \<noteq> ''*''"

lemma rust_pointers_inject:
  assumes "rust_pointers i m a = rust_pointers j n b" "no_star a" "no_star b" "i \<longrightarrow> 0 < m" "j \<longrightarrow> 0 < n"
  shows "i = j \<and> m = n \<and> a = b"
  using assms
proof (induction m arbitrary: n)
  case 0
  then show ?case by (cases n) (auto simp: no_star_def split: if_splits)
next
  case (Suc m)
  then obtain n' where n: "n = Suc n'" by (cases n) (auto simp: no_star_def split: if_splits)
  show ?case
  proof (cases "m = 0 \<and> i")
    case True
    with Suc.prems n show ?thesis by (auto split: if_splits)
  next
    case False
    with Suc.prems n have "\<not> (n' = 0 \<and> j)" "rust_pointers i m a = rust_pointers j n' b" by (auto split: if_splits)
    with Suc.IH [of n'] Suc.prems False n show ?thesis by auto
  qed
qed

definition base_names :: "string list" where
  "base_names = opaque_types @ map fst rust_types"

definition base_text :: "bool \<Rightarrow> string \<Rightarrow> string" where
  "base_text pointer u = (if u = ''void'' \<and> pointer then ''std::ffi::c_void'' else the (rust_base u))"

lemma rust_base_dom: "rust_base u = Some r \<Longrightarrow> u \<in> set base_names"
  by (auto simp: rust_base_def base_names_def split: if_splits dest!: map_of_SomeD intro: rev_image_eqI)

lemma base_text_distinct: "distinct (map (base_text True) base_names)" "distinct (map (base_text False) base_names)"
  by code_simp+

lemma base_text_no_star: "list_all (\<lambda>u. no_star (base_text True u) \<and> no_star (base_text False u)) base_names"
  by code_simp

lemma rust_type_Inr:
  assumes "rust_type s = Inr r"
  obtains i u where "u \<in> set base_names" "bare_type s = (if i then ''const '' else []) @ u" "i \<longrightarrow> 0 < star_count s"
    "r = rust_pointers i (star_count s) (base_text (0 < star_count s) u)"
proof -
  let ?t = "bare_type s"
  obtain b where b: "rust_base (trim_prefix ?t ''const '') = Some b" "has_prefix ?t ''const '' \<longrightarrow> 0 < star_count s"
    "r = rust_pointers (has_prefix ?t ''const '') (star_count s)
      (if trim_prefix ?t ''const '' = ''void'' \<and> 0 < star_count s then ''std::ffi::c_void'' else b)"
    using assms by (auto simp: rust_type_def Let_def star_count_def [symmetric] bare_type_def [symmetric] split: option.splits if_splits)
  have "?t = (if has_prefix ?t ''const '' then ''const '' else []) @ trim_prefix ?t ''const ''"
    by (auto simp: has_prefix_iff)
       (auto simp: trim_prefix_def has_prefix_iff)
  with b rust_base_dom [OF b(1)] that [of "trim_prefix ?t ''const ''" "has_prefix ?t ''const ''"] show thesis
    by (auto simp: base_text_def)
qed

text \<open>The Rust type the generated contract pins for a C type determines it: two accepted C types with the same
  translation are the same type with the same number of pointers, constness included, so that any change of a type
  in the header changes the generated assignment the Rust compiler checks.\<close>

theorem rust_type_injective:
  assumes "rust_type s = Inr r" "rust_type t = Inr r"
  shows "bare_type s = bare_type t \<and> star_count s = star_count t"
proof -
  obtain i u where s: "u \<in> set base_names" "bare_type s = (if i then ''const '' else []) @ u" "i \<longrightarrow> 0 < star_count s"
    "r = rust_pointers i (star_count s) (base_text (0 < star_count s) u)" using rust_type_Inr [OF assms(1)] .
  obtain j v where t: "v \<in> set base_names" "bare_type t = (if j then ''const '' else []) @ v" "j \<longrightarrow> 0 < star_count t"
    "r = rust_pointers j (star_count t) (base_text (0 < star_count t) v)" using rust_type_Inr [OF assms(2)] .
  have ns: "no_star (base_text p w)" if "w \<in> set base_names" for p w
    using base_text_no_star that by (cases p) (auto simp: list_all_iff)
  have eq: "i = j \<and> star_count s = star_count t \<and> base_text (0 < star_count s) u = base_text (0 < star_count t) v"
    using s t ns by (intro rust_pointers_inject) auto
  then have "u = v"
    using s(1) t(1) base_text_distinct by (cases "0 < star_count s") (auto simp: distinct_map dest: inj_onD)
  with eq s(2) t(2) show ?thesis by simp
qed

lemma sample_rust_types:
  "rust_type ''const char **'' = Inr ''*mut *const std::ffi::c_char''"
  "rust_type ''const char * *'' = Inr ''*mut *const std::ffi::c_char''"
  by code_simp+

theorem rust_type_injective_witness:
  "bare_type ''const char **'' = bare_type ''const char * *'' \<and> star_count ''const char **'' = star_count ''const char * *''"
  by (rule rust_type_injective [OF sample_rust_types])

subsection \<open>Nothing is dropped\<close>

definition despace :: "string \<Rightarrow> string" where
  "despace s = filter (\<lambda>c. \<not> ascii_space c) s"

definition ascii_text :: "string \<Rightarrow> bool" where
  "ascii_text s \<longleftrightarrow> list_all (\<lambda>c. (of_char c :: nat) < 128) s"

lemma ascii_text_simps [simp]:
  "ascii_text []" "ascii_text (c # s) \<longleftrightarrow> (of_char c :: nat) < 128 \<and> ascii_text s"
  "ascii_text (s @ t) \<longleftrightarrow> ascii_text s \<and> ascii_text t" "ascii_text (rev s) \<longleftrightarrow> ascii_text s"
  by (simp_all add: ascii_text_def)

lemma despace_simps [simp]:
  "despace [] = []" "despace (c # s) = (if ascii_space c then despace s else c # despace s)"
  "despace (s @ t) = despace s @ despace t" "despace (rev s) = rev (despace s)"
  by (simp_all add: despace_def rev_filter)

lemma ascii_no_wide: "(of_char a :: nat) < 128 \<Longrightarrow> \<not> space2 a b \<and> \<not> space3 a b c"
  by (auto simp: space2_def space3_def)

lemma ascii_no_wide_end:
  "(of_char b :: nat) < 128 \<Longrightarrow> \<not> space2 a b" "(of_char c :: nat) < 128 \<Longrightarrow> \<not> space3 a b c"
  by (auto simp: space2_def space3_def)

lemma trim_left_ascii: "ascii_text s \<Longrightarrow> trim_left s = dropWhile ascii_space s"
  by (induction s rule: trim_left.induct) (auto simp: ascii_no_wide)

lemma trim_left_rev_ascii: "ascii_text s \<Longrightarrow> trim_left_rev s = dropWhile ascii_space s"
  by (induction s rule: trim_left_rev.induct) (auto simp: ascii_no_wide_end)

lemma despace_dropWhile: "despace (dropWhile ascii_space s) = despace s"
  by (induction s) auto

lemma ascii_dropWhile: "ascii_text s \<Longrightarrow> ascii_text (dropWhile P s)"
  by (auto simp: ascii_text_def list_all_iff dest: set_dropWhileD)

lemma despace_trim: "ascii_text s \<Longrightarrow> despace (trim_space s) = despace s"
proof -
  assume s: "ascii_text s"
  have "despace (trim_space s) = rev (despace (dropWhile ascii_space (rev (dropWhile ascii_space s))))"
    using s by (simp add: trim_space_def trim_left_ascii trim_left_rev_ascii ascii_dropWhile)
  then show ?thesis by (simp only: despace_dropWhile despace_simps rev_rev_ident)
qed

lemma ascii_trim: "ascii_text s \<Longrightarrow> ascii_text (trim_space s)"
  by (simp add: trim_space_def trim_left_ascii trim_left_rev_ascii ascii_dropWhile)

lemma ascii_split: "ascii_text s \<Longrightarrow> t \<in> set (split_on c s) \<Longrightarrow> ascii_text t"
  by (induction s arbitrary: t) (auto split: if_splits list.splits)

lemma lazy_prefix_Some: "lazy_prefix rest pre s = Some (p, x) \<Longrightarrow> \<exists>t. pre @ s = p @ t \<and> rest t = Some x"
proof (induction s arbitrary: pre)
  case (Cons c s)
  from Cons.prems consider "rest s = Some x" "p = pre @ [c]" | "lazy_prefix rest (pre @ [c]) s = Some (p, x)"
    by (auto split: if_splits option.splits)
  then show ?case using Cons.IH [of "pre @ [c]"] by cases auto
qed simp

lemma declarator_Some: "declarator s = Some (p, n) \<Longrightarrow> s = p @ n"
  by (auto simp: declarator_def c_identifier_def dest!: lazy_prefix_Some split: if_splits)

lemma prototype_Some: "prototype s = Some (p, n, args) \<Longrightarrow> s = p @ n @ ''('' @ args @ '');''"
proof -
  assume "prototype s = Some (p, n, args)"
  then obtain t where t: "s = p @ t" "prototype_rest t = Some (n, args)"
    by (auto simp: prototype_def dest!: lazy_prefix_Some)
  then have n: "n = takeWhile symbol_char t" and a: "dropWhile symbol_char t \<noteq> []" "hd (dropWhile symbol_char t) = CHR ''(''"
    "has_suffix (tl (dropWhile symbol_char t)) '');''" "args = trim_suffix (tl (dropWhile symbol_char t)) '');''"
    by (auto simp: prototype_rest_def Let_def split: if_splits)
  have "tl (dropWhile symbol_char t) = args @ '');''"
    using a(3,4) by (metis append_take_drop_id has_suffix_def trim_suffix_def)
  then have "dropWhile symbol_char t = CHR ''('' # args @ '');''" using a(1,2) by (metis list.collapse)
  then have "t = n @ CHR ''('' # args @ '');''" unfolding n by (metis takeWhile_dropWhile_id)
  with t(1) show ?thesis by simp
qed

definition args_text :: "c_decl list \<Rightarrow> string" where
  "args_text ds = (if ds = [] then ''void'' else join_with '','' (map arg_text ds))"

definition prototype_text :: "c_function \<Rightarrow> string" where
  "prototype_text fn = fn_result fn @ '' '' @ fn_name fn @ ''('' @
     args_text (fn_args fn) @ '');''"

lemma despace_decl:
  "parse_declaration s = Inr d \<Longrightarrow> ascii_text s \<Longrightarrow> despace (arg_text d) = despace s"
  by (auto simp: parse_declaration_def arg_text_def res_simps despace_trim ascii_space_def split: option.splits dest!: declarator_Some)

lemma despace_join: "despace (join_with '','' xs) = join_with '','' (map despace xs)"
  by (induction xs rule: induct_list012) (auto simp: ascii_space_def)

lemma despace_args:
  assumes "parse_args args = Inr ds" "ascii_text args"
  shows "despace (args_text ds) = despace args"
proof (cases "args = ''void''")
  case True
  with assms show ?thesis by (simp add: parse_args_def args_text_def)
next
  case False
  then have p: "list_all2 (\<lambda>x d. parse_declaration (trim_space x) = Inr d) (split_on CHR '','' args) ds"
    using assms(1) by (simp add: parse_args_def traverse_Inr_iff)
  then have "list_all2 (\<lambda>x d. despace (arg_text d) = despace x) (split_on CHR '','' args) ds"
    using assms(2) by (elim list.rel_mono_strong) (auto simp: despace_decl ascii_trim ascii_split despace_trim)
  then have eq: "map (despace \<circ> arg_text) ds = map despace (split_on CHR '','' args)"
    by (induction rule: list_all2_induct) auto
  have "ds \<noteq> []" using p by (auto dest: list_all2_lengthD)
  then show ?thesis
    using arg_cong [OF eq, of "join_with '',''"] by (simp add: args_text_def despace_join [symmetric] split_on_join flip: map_map)
qed

lemma parse_functions_text:
  assumes "parse_functions seen ls = Inr fns" "list_all ascii_text ls"
  shows "map (\<lambda>f. despace (prototype_text f)) fns = filter (\<lambda>l. l \<noteq> []) (map despace ls) \<and>
    distinct (map fn_name fns) \<and> set (map fn_name fns) \<inter> set seen = {}"
  using assms
proof (induction ls arbitrary: seen fns)
  case (Cons l ls)
  have l: "ascii_text l" "list_all ascii_text ls" using Cons.prems(2) by simp_all
  show ?case
  proof (cases "trim_space l = []")
    case True
    then have "despace l = []" using despace_trim [OF l(1)] by simp
    with True Cons.IH [of seen] Cons.prems(1) l(2) show ?thesis by simp
  next
    case False
    obtain p name args ds fs where f: "prototype (trim_space l) = Some (p, name, args)" "name \<notin> set seen"
      "parse_args args = Inr ds" "parse_functions (name # seen) ls = Inr fs"
      "fns = \<lparr>fn_result = trim_space p, fn_name = name, fn_args = ds\<rparr> # fs"
      using Cons.prems(1) False by (auto simp: Let_def res_simps split: option.splits if_splits)
    note t = prototype_Some [OF f(1)]
    have a: "ascii_text p" "ascii_text args" using ascii_trim [OF l(1)] unfolding t by simp_all
    have "despace l = despace (trim_space l)" using despace_trim [OF l(1)] by simp
    also have "\<dots> = despace (prototype_text (hd fns))"
      using despace_args [OF f(3) a(2)] a(1)
      by (simp add: t f(5) prototype_text_def despace_trim ascii_space_def)
    finally have "despace l = despace (prototype_text (hd fns))" .
    moreover have "despace (prototype_text (hd fns)) \<noteq> []" by (simp add: prototype_text_def ascii_space_def)
    moreover have "map (\<lambda>f. despace (prototype_text f)) fs = filter (\<lambda>l. l \<noteq> []) (map despace ls) \<and>
        distinct (map fn_name fs) \<and> set (map fn_name fs) \<inter> set (name # seen) = {}"
      using Cons.IH [OF f(4) l(2)] .
    ultimately show ?thesis using f(2,5) by auto
  qed
qed simp


definition field_text :: "c_decl \<Rightarrow> string" where
  "field_text d = arg_text d @ '';''"

lemma trim_suffix_cases: "s = trim_suffix s t \<or> s = trim_suffix s t @ t"
  by (metis append_take_drop_id has_suffix_def trim_suffix_def)

lemma parse_field_text:
  assumes "parse_field l = Inr d" "ascii_text l"
  shows "despace l = despace (arg_text d) \<or> despace l = despace (field_text d)"
proof -
  let ?t = "trim_suffix (trim_space l) '';''"
  have t: "trim_space l = ?t \<or> trim_space l = ?t @ '';''" by (rule trim_suffix_cases)
  have "ascii_text ?t" using ascii_trim [OF assms(2)] t by (metis ascii_text_simps(3))
  then have "despace (arg_text d) = despace ?t" using assms(1) by (simp add: parse_field_def despace_decl)
  moreover have "despace l = despace ?t \<or> despace l = despace ?t @ despace '';''"
    using t despace_trim [OF assms(2)] by (metis despace_simps(3))
  ultimately show ?thesis by (simp add: field_text_def)
qed

lemma parse_fields_Inr:
  "parse_fields seen ls = Inr ds \<Longrightarrow> distinct (map dl_name ds) \<and> set (map dl_name ds) \<inter> set seen = {} \<and>
    list_all2 (\<lambda>l d. parse_field l = Inr d) ls ds"
proof (induction ls arbitrary: seen ds)
  case (Cons l ls)
  then obtain d es where d: "parse_field l = Inr d" "dl_name d \<notin> set seen" "parse_fields (dl_name d # seen) ls = Inr es" "ds = d # es"
    by (auto simp: res_simps split: if_splits)
  with Cons.IH [OF d(3)] show ?case by auto
qed simp

definition sample_header :: string where
  "sample_header = text_of
     [''#ifndef DFGO_NO_FUNCTION_PROTOTYPES'', ''int dfgo_a(dfgo_import *i, char c);'', ''#endif'',
      ''typedef struct dfgo_parameter {'', '' int64_t index;'', ''} dfgo_parameter;'']"

definition sample_contract :: contract where
  "sample_contract = \<lparr>ct_functions =
      [\<lparr>fn_result = ''int'', fn_name = ''dfgo_a'', fn_args =
         [\<lparr>dl_ctype = ''dfgo_import *'', dl_name = ''i''\<rparr>, \<lparr>dl_ctype = ''char'', dl_name = ''c''\<rparr>]\<rparr>],
      ct_fields = [\<lparr>dl_ctype = ''int64_t'', dl_name = ''index''\<rparr>], ct_callbacks = [], ct_exchange = []\<rparr>"

lemma sample_protos: "prototype_block sample_header = Inr (text_of [''int dfgo_a(dfgo_import *i, char c);''])" by code_simp
lemma sample_params: "parameter_block sample_header = Inr (text_of ['' int64_t index;''])" by code_simp
lemma sample_header_parses: "parse_header sample_header = Inr sample_contract"
  by code_simp




subsection \<open>Checking and generating\<close>

lemma sync_check: "snd (sync_outputs rf mk wrf True fs ups) = fs"
  "fst (sync_outputs rf mk wrf True fs ups) = None \<longleftrightarrow>
    list_all (\<lambda>(p, c). rf p = None \<and> (case fs p of None \<Rightarrow> [] | Some d \<Rightarrow> d) = c) ups"
proof (induction ups)
  case (Cons u ups)
  obtain p c where u: "u = (p, c)" by fastforce
  have step: "sync_outputs rf mk wrf True fs (u # ups) =
      (case rf p of Some e \<Rightarrow> (Some e, fs)
       | None \<Rightarrow> if (case fs p of None \<Rightarrow> [] | Some d \<Rightarrow> d) = c then sync_outputs rf mk wrf True fs ups
           else (Some (Plain (p @ '' is stale; run make generate'')), fs))"
    by (simp add: u split: option.split)
  { case 1 with Cons.IH show ?case unfolding step by (cases "rf p") simp_all
  next case 2 with Cons.IH u show ?case unfolding step by (cases "rf p") simp_all }
qed simp_all

lemma outputs_not_empty: "(p, c) \<in> set (abi_outputs abi) \<Longrightarrow> c \<noteq> []"
  by (auto simp: abi_outputs_def loader_def rust_def layout_def text_of_def)

text \<open>A check run succeeds exactly when the header is readable and accepted and each of the three generated files
  exists with the text generated from that header; anything missing, stale or unreadable fails the check.\<close>

theorem check_accepts_exactly_generated:
  "fst (run_genabi rf mk wrf True fs) = None \<longleftrightarrow>
     rf header_path = None \<and>
     (case fs header_path of
        None \<Rightarrow> False
      | Some header \<Rightarrow> (case parse_header header of
            Inl e \<Rightarrow> False
          | Inr abi \<Rightarrow> list_all (\<lambda>(p, c). rf p = None \<and> fs p = Some c) (abi_outputs abi)))"
proof -
  have eq: "list_all (\<lambda>(p, c). rf p = None \<and> (case fs p of None \<Rightarrow> [] | Some d \<Rightarrow> d) = c) (abi_outputs abi) \<longleftrightarrow>
      list_all (\<lambda>(p, c). rf p = None \<and> fs p = Some c) (abi_outputs abi)" for abi
    using outputs_not_empty [of _ _ abi] by (fastforce simp: list_all_iff split: option.splits)
  show ?thesis
    by (auto simp: run_genabi_def read_path_def sync_check eq split: option.splits sum.splits)
qed

lemma sync_written:
  assumes "sync_outputs rf mk wrf False fs ups = (None, fs')" "distinct (map fst ups)"
  shows "list_all (\<lambda>(p, c). rf p = None \<and> (case fs' p of None \<Rightarrow> [] | Some d \<Rightarrow> d) = c) ups \<and>
    (\<forall>q. q \<notin> fst ` set ups \<longrightarrow> fs' q = fs q)"
  using assms
proof (induction ups arbitrary: fs)
  case (Cons u ups)
  obtain p c where u: "u = (p, c)" by fastforce
  obtain fs1 where s: "rf p = None" "sync_outputs rf mk wrf False fs1 ups = (None, fs')"
    "(case fs1 p of None \<Rightarrow> [] | Some d \<Rightarrow> d) = c" "\<forall>q. q \<noteq> p \<longrightarrow> fs1 q = fs q"
    using Cons.prems(1) u by (force split: option.splits if_splits)
  have "p \<notin> fst ` set ups" "distinct (map fst ups)" using Cons.prems(2) u by auto
  with Cons.IH [OF s(2)] s u show ?case by auto
qed simp

text \<open>After a run that wrote the files without an error, a check run on the resulting tree succeeds and changes
  nothing: the header is not an output, and the outputs do not depend on one another.\<close>

theorem generated_abi_passes_check:
  assumes "run_genabi rf mk wrf False fs = (None, fs')"
  shows "run_genabi rf mk' wrf' True fs' = (None, fs')"
proof -
  obtain h abi where h: "rf header_path = None" "fs header_path = Some h" "parse_header h = Inr abi"
    "sync_outputs rf mk wrf False fs (abi_outputs abi) = (None, fs')"
    using assms by (auto simp: run_genabi_def read_path_def split: option.splits sum.splits)
  have d: "distinct (map fst (abi_outputs abi))" "header_path \<notin> fst ` set (abi_outputs abi)"
    by (simp_all add: abi_outputs_def header_path_def)
  note w = sync_written [OF h(4) d(1)]
  with d(2) h(2) have "fs' header_path = Some h" by auto
  with h(1,3) w sync_check [of rf mk' wrf' fs'] show ?thesis
    by (simp add: run_genabi_def read_path_def prod_eq_iff)
qed

lemma sync_total:
  "(\<And>p. rf p = None) \<Longrightarrow> (\<And>p. mk p = None) \<Longrightarrow> (\<And>p. wrf p = None) \<Longrightarrow>
   fst (sync_outputs rf mk wrf False fs ups) = None"
  by (induction ups arbitrary: fs) auto

definition sample_tree :: file_system where
  "sample_tree = [header_path \<mapsto> sample_header]"

lemma sample_tree_generates: "fst (run_genabi (\<lambda>p. None) (\<lambda>p. None) (\<lambda>p. None) False sample_tree) = None"
  by (simp add: run_genabi_def read_path_def sample_tree_def sample_header_parses sync_total)

theorem generated_abi_passes_check_witness:
  "run_genabi (\<lambda>p. None) (\<lambda>p. Some (Plain ''read-only'')) (\<lambda>p. Some (Plain ''read-only'')) True
      (snd (run_genabi (\<lambda>p. None) (\<lambda>p. None) (\<lambda>p. None) False sample_tree)) =
    (None, snd (run_genabi (\<lambda>p. None) (\<lambda>p. None) (\<lambda>p. None) False sample_tree))"
  by (rule generated_abi_passes_check
      [where mk = "\<lambda>p. None" and wrf = "\<lambda>p. None" and fs = sample_tree]) (simp add: prod_eq_iff sample_tree_generates)

end
