(* ===== verification/ProviderTest.thy ===== *)
theory ProviderTest
  imports Callbacks
begin

text \<open>
  The conformance suite for Go table providers (\<^verbatim>\<open>providertest/providertest.go\<close>).  The provider under test is
  code outside the repository: its schema and the answer of each of its scans, numbered in the order they
  are made, are an argument, and the readers it returns are states with their method table.  A scan is
  given an amount of fuel for the loop over \<^verbatim>\<open>Next\<close>, which a reader without an end would not leave.  Schema
  metadata is not modelled, so \<^verbatim>\<open>sameSchema\<close> compares the fields; retaining the first batch matters
  only for the check made after the reader is gone.
\<close>

subsection \<open>One scan\<close>

definition same_schema :: "schema option \<Rightarrow> schema option \<Rightarrow> bool" where
  "same_schema a b \<longleftrightarrow> a \<noteq> None \<and> a = b"

fun scan_loop ::
  "'s reader_ops \<Rightarrow> nat \<Rightarrow> schema \<Rightarrow> 's \<Rightarrow> batch option \<Rightarrow> int64 \<Rightarrow>
   (go_error option \<times> 's \<times> batch option \<times> int64) option" where
  "scan_loop ops 0 sch s retained rows = None"
| "scan_loop ops (Suc n) sch s retained rows =
     (case op_next ops s of
        (False, t) \<Rightarrow> Some (op_err ops t, t, retained, rows)
      | (True, t) \<Rightarrow>
          (if (case op_batch ops t of None \<Rightarrow> True | Some rec \<Rightarrow> \<not> same_schema (Some sch) (Some (bt_fields rec)))
           then Some (Some (Plain ''provider returned a nil batch or incorrect batch schema''), t, retained, rows)
           else (let rec = the (op_batch ops t) in
             scan_loop ops n sch t (Some (case retained of None \<Rightarrow> rec | Some b \<Rightarrow> b)) (rows + word_of_nat (bt_rows rec)))))"

text \<open>The first batch, looked at after the reader has been released.\<close>

definition check_retained :: "batch option \<Rightarrow> go_error option" where
  "check_retained retained =
     (case retained of
        None \<Rightarrow> None
      | Some b \<Rightarrow> if list_all (\<lambda>c. arr_len c = bt_rows b) (bt_cols b) then None
          else Some (Plain ''retained batch column length changed''))"

text \<open>What a scan leaves: its answer, the reader it was given, and how often it signalled that it is ready.\<close>

record 's scan_result =
  sc_answer :: "go_error + int64"
  sc_reader :: "'s option"
  sc_ready :: nat

definition scan ::
  "'s reader_ops \<Rightarrow> nat \<Rightarrow> schema \<Rightarrow> bool \<Rightarrow> 's option \<times> go_error option \<Rightarrow> 's scan_result option" where
  "scan ops fuel sch ready opened =
     (let leave = (\<lambda>a r. \<lparr>sc_answer = a, sc_reader = r, sc_ready = (if ready then 1 else 0)\<rparr>) in
      case opened of
        (None, Some e) \<Rightarrow> Some (leave (Inl e) None)
      | (None, None) \<Rightarrow> Some (leave (Inl (Plain ''provider returned a nil reader'')) None)
      | (Some s, Some e) \<Rightarrow> Some (leave (Inl e) (Some (op_release ops s)))
      | (Some s, None) \<Rightarrow>
          if \<not> same_schema (Some sch) (op_schema ops s)
          then Some (leave (Inl (Plain ''provider returned an incorrect reader schema'')) (Some (op_release ops s)))
          else map_option (\<lambda>(e, t, retained, rows).
              leave (case e of
                  Some e \<Rightarrow> Inl e
                | None \<Rightarrow> (case check_retained retained of Some e \<Rightarrow> Inl e | None \<Rightarrow> Inr rows))
                (Some (op_release ops t)))
            (scan_loop ops fuel sch s None 0))"

subsection \<open>The suite\<close>

datatype test_name = RepeatScans | ConcurrentScans | PushdownScans

definition test_names :: "test_name list" where
  "test_names = [RepeatScans, ConcurrentScans, PushdownScans]"

datatype verdict = Passed | Skipped | Failures "go_error list"

record ('s, 't) test_provider =
  tp_schema :: "schema option"
  tp_scan :: "nat \<Rightarrow> 's option \<times> go_error option"
  tp_pushdown :: "(nat \<Rightarrow> scan_options \<Rightarrow> 't option \<times> go_error option) option"

definition repeat_message :: "string \<Rightarrow> int64 \<Rightarrow> int64 \<Rightarrow> go_error" where
  "repeat_message what rows baseline =
     Plain (what @ '' scan returned '' @ show_int (sint rows) @ '' rows, want '' @ show_int (sint baseline))"

fun repeat_scans ::
  "'s reader_ops \<Rightarrow> nat \<Rightarrow> schema \<Rightarrow> int64 \<Rightarrow> ('s option \<times> go_error option) list \<Rightarrow> verdict option" where
  "repeat_scans ops fuel sch baseline [] = Some Passed"
| "repeat_scans ops fuel sch baseline (a # as) =
     Option.bind (scan ops fuel sch False a) (\<lambda>r.
       case sc_answer r of
         Inl e \<Rightarrow> Some (Failures [e])
       | Inr rows \<Rightarrow>
           if rows \<noteq> baseline then Some (Failures [repeat_message ''repeated'' rows baseline])
           else repeat_scans ops fuel sch baseline as)"

text \<open>What a goroutine of the concurrent test sends: an error of its scan, or of its row count.\<close>

definition concurrent_error :: "int64 \<Rightarrow> go_error + int64 \<Rightarrow> go_error list" where
  "concurrent_error baseline answer =
     (case answer of
        Inl e \<Rightarrow> [e]
      | Inr rows \<Rightarrow> if rows \<noteq> baseline then [repeat_message ''concurrent'' rows baseline] else [])"

text \<open>
  The two scans of the concurrent test own their readers, so they are run one after the other.  Each waits for the
  start signal in \<^verbatim>\<open>ready\<close>, which the test sends after two of those signals: fewer would leave it waiting.
\<close>

definition concurrent_scans ::
  "'s reader_ops \<Rightarrow> nat \<Rightarrow> schema \<Rightarrow> int64 \<Rightarrow> 's option \<times> go_error option \<Rightarrow> 's option \<times> go_error option \<Rightarrow> verdict option" where
  "concurrent_scans ops fuel sch baseline a b =
     Option.bind (scan ops fuel sch True a) (\<lambda>r.
     Option.bind (scan ops fuel sch True b) (\<lambda>q.
       if sc_ready r + sc_ready q < 2 then None
       else let errs = concurrent_error baseline (sc_answer r) @ concurrent_error baseline (sc_answer q) in
         Some (if errs = [] then Passed else Failures errs)))"

definition pushdown_options :: "schema \<Rightarrow> scan_options list" where
  "pushdown_options sch =
     (let rev_order = map (\<lambda>i. int (length sch - 1 - i)) [0..<length sch];
          opt = (\<lambda>p l. \<lparr>so_projection = p, so_filters = [], so_limit = l\<rparr>) in
      [opt None (- 1), opt (Some []) (- 1), opt (Some rev_order) (- 1), opt None 2])"

definition expected_schema :: "schema \<Rightarrow> scan_options \<Rightarrow> schema" where
  "expected_schema sch opts =
     (case so_projection opts of None \<Rightarrow> sch | Some is \<Rightarrow> map (\<lambda>j. sch ! nat j) is)"

definition minimum_rows :: "int64 \<Rightarrow> scan_options \<Rightarrow> int" where
  "minimum_rows baseline opts =
     (if 0 \<le> so_limit opts \<and> so_limit opts < sint baseline then so_limit opts else sint baseline)"

definition show_projection :: "int list option \<Rightarrow> string" where
  "show_projection p = ''['' @ join_with '' '' (map show_int (case p of None \<Rightarrow> [] | Some is \<Rightarrow> is)) @ '']''"

fun pushdown_scans ::
  "'t reader_ops \<Rightarrow> nat \<Rightarrow> schema \<Rightarrow> int64 \<Rightarrow> (nat \<Rightarrow> scan_options \<Rightarrow> 't option \<times> go_error option) \<Rightarrow> nat \<Rightarrow>
   scan_options list \<Rightarrow> verdict option" where
  "pushdown_scans ops fuel sch baseline push k [] = Some Passed"
| "pushdown_scans ops fuel sch baseline push k (opts # rest) =
     Option.bind (scan ops fuel (expected_schema sch opts) False (push k opts)) (\<lambda>r.
       case sc_answer r of
         Inl e \<Rightarrow> Some (Failures [e])
       | Inr rows \<Rightarrow>
           if sint rows < minimum_rows baseline opts \<or> sint baseline < sint rows
           then Some (Failures [Plain (''projection '' @ show_projection (so_projection opts) @ '', limit '' @
                  show_int (so_limit opts) @ '': got '' @ show_int (sint rows) @ '' rows, want ['' @
                  show_int (minimum_rows baseline opts) @ '','' @ show_int (sint baseline) @ '']'')])
           else pushdown_scans ops fuel sch baseline push (k + 1) rest)"

definition run_case ::
  "'s reader_ops \<Rightarrow> 't reader_ops \<Rightarrow> nat \<Rightarrow> test_name \<Rightarrow> ('s, 't) test_provider option \<Rightarrow> verdict option" where
  "run_case ops pops fuel name provider =
     (case Option.bind provider tp_schema of
        None \<Rightarrow> Some (Failures [Plain ''providertest: nil provider or schema''])
      | Some sch \<Rightarrow>
          (let p = the provider in
           Option.bind (scan ops fuel sch False (tp_scan p 0)) (\<lambda>r.
             case sc_answer r of
               Inl e \<Rightarrow> Some (Failures [e])
             | Inr baseline \<Rightarrow>
                 (case name of
                    RepeatScans \<Rightarrow> repeat_scans ops fuel sch baseline [tp_scan p 1, tp_scan p 2]
                  | ConcurrentScans \<Rightarrow> concurrent_scans ops fuel sch baseline (tp_scan p 1) (tp_scan p 2)
                  | PushdownScans \<Rightarrow>
                      (case tp_pushdown p of
                         None \<Rightarrow> Some Skipped
                       | Some push \<Rightarrow> pushdown_scans pops fuel sch baseline push 1 (pushdown_options sch))))))"

text \<open>The suite: a fresh provider of the factory for each test.\<close>

definition run_suite ::
  "'s reader_ops \<Rightarrow> 't reader_ops \<Rightarrow> nat \<Rightarrow> (test_name \<Rightarrow> ('s, 't) test_provider option) option \<Rightarrow>
   go_error + (test_name \<times> verdict option) list" where
  "run_suite ops pops fuel factory =
     (case factory of
        None \<Rightarrow> Inl (Plain ''providertest: nil factory'')
      | Some f \<Rightarrow> Inr (map (\<lambda>name. (name, run_case ops pops fuel name (f name))) test_names))"

subsection \<open>What a scan accepts\<close>

lemma same_schema_simps [simp]:
  "same_schema (Some a) (Some b) \<longleftrightarrow> a = b" "\<not> same_schema (Some a) None" "\<not> same_schema None c"
  by (auto simp: same_schema_def)

definition row_sum :: "batch list \<Rightarrow> int64" where
  "row_sum bs = word_of_nat (sum_list (map bt_rows bs))"

definition kept_batch :: "batch option \<Rightarrow> batch list \<Rightarrow> batch option" where
  "kept_batch retained bs = (case retained of Some b \<Rightarrow> Some b | None \<Rightarrow> (case bs of [] \<Rightarrow> None | b # _ \<Rightarrow> Some b))"

text \<open>A stream a scan accepts, with its row count: batches of the schema, no error, columns as long as the batch.\<close>

definition accepted_stream :: "schema \<Rightarrow> stream \<Rightarrow> int64 \<Rightarrow> bool" where
  "accepted_stream sch st rows \<longleftrightarrow>
     (\<exists>bs. st = (map Some bs, None) \<and> (\<forall>b \<in> set bs. bt_fields b = sch) \<and> rows = row_sum bs \<and>
        check_retained (kept_batch None bs) = None)"

context record_reader
begin

lemma scan_loop_accepts:
  assumes "ok s" "stream s = (map Some bs, e)" "\<forall>b \<in> set bs. bt_fields b = sch" "length bs < n"
  shows "\<exists>t. scan_loop ops n sch s retained rows = Some (e, t, kept_batch retained bs, rows + row_sum bs)"
  using assms
proof (induction n arbitrary: s bs retained rows)
  case (Suc n)
  show ?case
  proof (cases bs)
    case Nil
    with next_none [OF Suc.prems(1), of e] Suc.prems(2) show ?thesis
      by (auto simp: kept_batch_def row_sum_def split: option.splits)
  next
    case (Cons b bs')
    with next_some [OF Suc.prems(1), of "Some b" "map Some bs'" e] Suc.prems(2) obtain t where t:
      "op_next ops s = (True, t)" "op_batch ops t = Some b" "stream t = (map Some bs', e)" "ok t" by auto
    let ?kept = "Some (case retained of None \<Rightarrow> b | Some b \<Rightarrow> b)"
    have k: "kept_batch ?kept bs' = kept_batch retained bs" by (cases retained) (simp_all add: kept_batch_def Cons)
    have r: "rows + word_of_nat (bt_rows b) + row_sum bs' = rows + row_sum bs" by (simp add: row_sum_def Cons)
    from Suc.IH [OF t(4,3), of ?kept "rows + word_of_nat (bt_rows b)"] t Suc.prems(3,4) Cons
    show ?thesis by (simp add: k r)
  qed
qed simp

lemma scan_loop_accepted:
  assumes "ok s" "scan_loop ops n sch s retained rows = Some (None, t, kept, rsum)"
  shows "\<exists>bs. stream s = (map Some bs, None) \<and> (\<forall>b \<in> set bs. bt_fields b = sch) \<and>
    kept = kept_batch retained bs \<and> rsum = rows + row_sum bs"
  using assms
proof (induction n arbitrary: s retained rows)
  case (Suc n)
  obtain xs e where st: "stream s = (xs, e)" by fastforce
  show ?case
  proof (cases xs)
    case Nil
    with next_none [OF Suc.prems(1), of e] st Suc.prems(2) show ?thesis
      by (intro exI [of _ "[]"]) (auto simp: kept_batch_def row_sum_def split: option.splits)
  next
    case (Cons x ys)
    with next_some [OF Suc.prems(1), of x ys e] st obtain u where u:
      "op_next ops s = (True, u)" "op_batch ops u = x" "stream u = (ys, e)" "ok u" by auto
    then obtain b where b: "x = Some b" "bt_fields b = sch" and
      r: "scan_loop ops n sch u (Some (case retained of None \<Rightarrow> b | Some b \<Rightarrow> b)) (rows + word_of_nat (bt_rows b)) =
        Some (None, t, kept, rsum)"
      using Suc.prems(2) by (cases x) (auto simp: Let_def split: if_splits)
    from Suc.IH [OF u(4) r] u(3) obtain bs where bs: "ys = map Some bs" "e = None" "\<forall>b \<in> set bs. bt_fields b = sch"
      "kept = kept_batch (Some (case retained of None \<Rightarrow> b | Some b \<Rightarrow> b)) bs"
      "rsum = rows + word_of_nat (bt_rows b) + row_sum bs" by auto
    with b st Cons show ?thesis
      by (intro exI [of _ "b # bs"]) (auto simp: kept_batch_def row_sum_def split: option.splits)
  qed
qed simp

lemma scan_accepts:
  assumes "ok s" "accepted_stream sch (stream s) rows" "op_schema ops s = Some sch" "length (fst (stream s)) < n"
  shows "\<exists>r. scan ops n sch ready (Some s, None) = Some r \<and> sc_answer r = Inr rows \<and> sc_ready r = (if ready then 1 else 0)"
proof -
  obtain bs where bs: "stream s = (map Some bs, None)" "\<forall>b \<in> set bs. bt_fields b = sch" "rows = row_sum bs"
    "check_retained (kept_batch None bs) = None" using assms(2) by (auto simp: accepted_stream_def)
  with scan_loop_accepts [OF assms(1) bs(1,2), of n None 0] assms(4) obtain t where
    "scan_loop ops n sch s None 0 = Some (None, t, kept_batch None bs, rows)" by auto
  with bs(4) assms(3) show ?thesis by (simp add: scan_def Let_def)
qed

lemma scan_accepted:
  assumes "scan ops n sch ready opened = Some r" "sc_answer r = Inr rows" "\<And>s. fst opened = Some s \<Longrightarrow> ok s"
  shows "\<exists>s. opened = (Some s, None) \<and> op_schema ops s = Some sch \<and> accepted_stream sch (stream s) rows"
proof -
  obtain s where o: "opened = (Some s, None)" "same_schema (Some sch) (op_schema ops s)"
    using assms(1,2) by (cases opened) (auto simp: scan_def Let_def split: option.splits if_splits)
  then obtain e t kept rsum where l: "scan_loop ops n sch s None 0 = Some (e, t, kept, rsum)" and
    r: "sc_answer r = (case e of Some e \<Rightarrow> Inl e | None \<Rightarrow> (case check_retained kept of Some e \<Rightarrow> Inl e | None \<Rightarrow> Inr rsum))"
    using assms(1) by (auto simp: scan_def Let_def)
  then have "e = None" "check_retained kept = None" "rsum = rows" using assms(2) by (auto split: option.splits)
  with l scan_loop_accepted [of s n sch None 0 t kept rsum] assms(3) o show ?thesis
    by (auto simp: accepted_stream_def same_schema_def)
qed

end

subsection \<open>Every scan gives its reader back\<close>

lemma source_ops_simps:
  "op_next source_ops s = source_next s" "op_batch source_ops s = src_current s" "op_schema source_ops s = src_schema s"
  "op_err source_ops s = src_end s" "op_release source_ops s = s\<lparr>src_releases := src_releases s + 1\<rparr>"
  by (simp_all add: source_ops_def)

lemma scan_loop_source:
  "length (src_script s) < n \<Longrightarrow>
   \<exists>e t kept rs. scan_loop source_ops n sch s retained rows = Some (e, t, kept, rs) \<and> src_releases t = src_releases s"
proof (induction n arbitrary: s retained rows)
  case (Suc n)
  show ?case
  proof (cases "src_script s")
    case Nil
    then show ?thesis by (simp add: source_ops_simps source_next_def)
  next
    case (Cons x xs)
    let ?t = "s\<lparr>src_script := xs, src_current := x\<rparr>"
    from Cons Suc.prems have "length (src_script ?t) < n" by simp
    with Suc.IH [of ?t] show ?thesis
      using Cons by (cases x) (auto simp: source_ops_simps source_next_def Let_def)
  qed
qed simp

text \<open>A scan of a reader with finitely many batches returns whatever the reader does and whatever error came with it,
  has then released the reader exactly once, and has signalled exactly once when it takes part in the concurrent
  test, so that the two scans of that test always open its barrier.\<close>

theorem scan_releases_reader:
  "case scan source_ops (length (src_script s) + 1) sch ready (Some s, err) of
     None \<Rightarrow> False
   | Some r \<Rightarrow> sc_ready r = (if ready then 1 else 0) \<and>
       (case sc_reader r of None \<Rightarrow> False | Some t \<Rightarrow> src_releases t = src_releases s + 1)"
proof (cases "err = None \<and> same_schema (Some sch) (op_schema source_ops s)")
  case True
  obtain e t kept rs where l: "scan_loop source_ops (length (src_script s) + 1) sch s None 0 = Some (e, t, kept, rs)"
    "src_releases t = src_releases s" using scan_loop_source [of s "length (src_script s) + 1" sch None 0] by (auto simp del: scan_loop.simps)
  with True show ?thesis by (simp add: scan_def Let_def source_ops_simps del: scan_loop.simps)
qed (auto simp: scan_def Let_def source_ops_simps split: option.splits)

subsection \<open>What passing means\<close>

definition accepted_scan :: "schema \<Rightarrow> source option \<times> go_error option \<Rightarrow> int64 \<Rightarrow> bool" where
  "accepted_scan sch opened rows \<longleftrightarrow>
     (case opened of
        (Some s, None) \<Rightarrow> src_schema s = Some sch \<and> accepted_stream sch (source_stream s) rows
      | _ \<Rightarrow> False)"

lemma scan_source_accepted:
  "scan source_ops n sch ready opened = Some r \<Longrightarrow> sc_answer r = Inr rows \<Longrightarrow> accepted_scan sch opened rows"
  using src.scan_accepted [of n sch ready opened r rows] by (auto simp: accepted_scan_def source_ops_def)

lemma pushdown_scans_passed:
  "pushdown_scans source_ops n sch baseline push k opts = Some Passed \<Longrightarrow>
   list_all (\<lambda>i. \<exists>rows. accepted_scan (expected_schema sch (opts ! i)) (push (k + i) (opts ! i)) rows \<and>
     minimum_rows baseline (opts ! i) \<le> sint rows \<and> sint rows \<le> sint baseline) [0..<length opts]"
proof (induction opts arbitrary: k)
  case (Cons o1 opts)
  then obtain r where r0: "scan source_ops n (expected_schema sch o1) False (push k o1) = Some r"
    by (auto simp: bind_eq_Some_conv)
  with Cons.prems obtain rows where r: "scan source_ops n (expected_schema sch o1) False (push k o1) = Some r" "sc_answer r = Inr rows"
    "\<not> (sint rows < minimum_rows baseline o1 \<or> sint baseline < sint rows)"
    and p: "pushdown_scans source_ops n sch baseline push (k + 1) opts = Some Passed"
    by (cases "sc_answer r") (auto split: if_splits)
  have "accepted_scan (expected_schema sch o1) (push k o1) rows" using scan_source_accepted [OF r(1,2)] .
  moreover note Cons.IH [OF p]
  ultimately show ?case
    using r(3) by (auto simp: list_all_iff nth_Cons not_less split: nat.splits)
qed simp



subsection \<open>Providers built from the helpers pass\<close>

text \<open>A provider that answers each scan with a fresh reader of the same batches, and pushes down by projecting and limiting it.\<close>

definition helper_push ::
  "(batch \<Rightarrow> nat \<Rightarrow> batch) \<Rightarrow> source \<Rightarrow> scan_options \<Rightarrow> source provider_reader provider_reader option \<times> go_error option" where
  "helper_push new_slice s opts =
     (case project_reader source_ops (Some s) (so_projection opts) of
        Inl e \<Rightarrow> (None, Some e)
      | Inr p \<Rightarrow> (case limit_reader (provider_ops new_slice source_ops) (Some p) (so_limit opts) of
            Inl e \<Rightarrow> (None, Some e) | Inr r \<Rightarrow> (Some r, None)))"

definition helper_provider ::
  "(batch \<Rightarrow> nat \<Rightarrow> batch) \<Rightarrow> source \<Rightarrow> (source, source provider_reader provider_reader) test_provider" where
  "helper_provider new_slice s =
     \<lparr>tp_schema = src_schema s, tp_scan = (\<lambda>k. (Some s, None)), tp_pushdown = Some (\<lambda>k. helper_push new_slice s)\<rparr>"

definition full_columns :: "batch \<Rightarrow> bool" where
  "full_columns b \<longleftrightarrow> list_all (\<lambda>c. arr_len c = bt_rows b) (bt_cols b)"

text \<open>\<^verbatim>\<open>NewSlice\<close> on a batch whose columns are as long as the batch.\<close>

definition slice_columns :: "(batch \<Rightarrow> nat \<Rightarrow> batch) \<Rightarrow> bool" where
  "slice_columns new_slice \<longleftrightarrow> (\<forall>b n. full_columns b \<and> n \<le> bt_rows b \<longrightarrow> full_columns (new_slice b n))"

lemma sint_row_sum: "int (sum_list (map bt_rows bs)) < 2 ^ 63 \<Longrightarrow> sint (row_sum bs) = int (sum_list (map bt_rows bs))"
  by (simp add: row_sum_def signed_of_nat signed_take_bit_int_eq_self)

lemma check_retained_kept: "\<forall>b \<in> set bs. full_columns b \<Longrightarrow> check_retained (kept_batch None bs) = None"
  by (cases bs) (auto simp: check_retained_def kept_batch_def full_columns_def)

lemma limit_batches_all:
  assumes "\<And>b n. P b \<Longrightarrow> n \<le> bt_rows b \<Longrightarrow> P (new_slice b n)"
  shows "list_all P bs \<Longrightarrow> list_all P (limit_batches new_slice n bs)"
  by (induction bs arbitrary: n) (auto intro!: assms)

definition good_batch :: "schema \<Rightarrow> batch \<Rightarrow> bool" where
  "good_batch sch b \<longleftrightarrow> bt_fields b = sch \<and> full_columns b"

lemma good_slice:
  "slice_law new_slice cell \<Longrightarrow> slice_columns new_slice \<Longrightarrow> good_batch sch b \<Longrightarrow> n \<le> bt_rows b \<Longrightarrow> good_batch sch (new_slice b n)"
  by (simp add: slice_law_def slice_columns_def good_batch_def)

lemma good_projection:
  assumes "wf_batch b" "bt_fields b = sch"
    and "case so_projection opts of None \<Rightarrow> True | Some is \<Rightarrow> \<forall>i \<in> set is. 0 \<le> i \<and> i < int (length sch)"
  shows "good_batch (expected_schema sch opts) (project_batch (expected_schema sch opts) (so_projection opts) b)"
proof -
  have w: "list_all2 (\<lambda>f c. arr_type c = fld_type f \<and> arr_len c = bt_rows b) (bt_fields b) (bt_cols b)"
    and l: "length (bt_cols b) = length sch" using assms(1,2) by (simp_all add: wf_batch_def)
  from w have "\<forall>c \<in> set (bt_cols b). arr_len c = bt_rows b" by (induction rule: list_all2_induct) auto
  note f = l this
  show ?thesis
  proof (cases "so_projection opts")
    case None
    with f assms(2) show ?thesis by (simp add: good_batch_def full_columns_def expected_schema_def list_all_iff)
  next
    case (Some ixs)
    then have "arr_len (bt_cols b ! nat i) = bt_rows b" if "i \<in> set ixs" for i
      using assms(3) f that by (auto simp: nat_less_iff)
    with Some show ?thesis
      by (simp add: good_batch_def full_columns_def expected_schema_def list_all_iff project_batch_def)
  qed
qed

lemma limit_batches_sum:
  assumes "slice_law new_slice cell"
  shows "sum_list (map bt_rows (limit_batches new_slice n bs)) =
    (if n < 0 then sum_list (map bt_rows bs) else min (nat n) (sum_list (map bt_rows bs)))"
proof (cases "n < 0")
  case False
  then have "length (stream_rows cell (limit_batches new_slice n bs)) = length (take (nat n) (stream_rows cell bs))"
    by (simp only: limit_batches_rows [OF assms] not_less)
  with False show ?thesis by (simp add: stream_rows_length)
qed simp

lemma helper_push_accepted:
  assumes law: "slice_law new_slice cell" "slice_columns new_slice"
    and s: "src_schema s = Some sch" "src_script s = map Some bs" "src_end s = None" "\<forall>b \<in> set bs. wf_batch b \<and> bt_fields b = sch"
    and o1: "case so_projection opts of None \<Rightarrow> True | Some is \<Rightarrow> \<forall>i \<in> set is. 0 \<le> i \<and> i < int (length sch)" "- 1 \<le> so_limit opts"
  shows "\<exists>r. helper_push new_slice s opts = (Some r, None) \<and> pv_schema r = expected_schema sch opts \<and>
    provider_inv (provider_inv (\<lambda>s. True)) r \<and>
    (\<exists>out. fst (provider_stream new_slice (provider_stream new_slice source_stream) r) = map Some out \<and> length out \<le> length bs \<and>
      accepted_stream (expected_schema sch opts) (provider_stream new_slice (provider_stream new_slice source_stream) r) (row_sum out) \<and>
      sum_list (map bt_rows out) = (if so_limit opts < 0 then sum_list (map bt_rows bs) else min (nat (so_limit opts)) (sum_list (map bt_rows bs))))"
proof -
  let ?psch = "expected_schema sch opts" and ?n = "so_limit opts"
  let ?p = "new_provider_reader s sch ?psch (so_projection opts) (- 1)"
  let ?r = "new_provider_reader ?p ?psch ?psch None ?n"
  let ?ps = "map (project_batch ?psch (so_projection opts)) bs"
  let ?out = "limit_batches new_slice ?n ?ps"
  have proj: "project_reader source_ops (Some s) (so_projection opts) = Inr ?p"
  proof (cases "so_projection opts")
    case (Some ixs)
    have "traverse (projection_field sch) ixs = Inr (map (\<lambda>i. sch ! nat i) ixs)"
      using o1(1) Some by (intro traverse_total) (auto simp: projection_field_def)
    with Some s(1) show ?thesis
      by (simp add: project_reader_def provider_reader_schema_def source_ops_simps expected_schema_def)
  qed (simp add: project_reader_def provider_reader_schema_def source_ops_simps s(1) expected_schema_def)
  have lim: "limit_reader (provider_ops new_slice source_ops) (Some ?p) ?n = Inr ?r"
    using o1(2) by (simp add: limit_reader_def provider_reader_schema_def new_provider_reader_def)
  have each: "list_all (good_batch ?psch) ?ps"
    using s(4) o1(1) good_projection [of _ sch opts] by (auto simp: list_all_iff)
  have sp: "provider_stream new_slice source_stream ?p = (map Some ?ps, None)"
    using s by (simp add: provider_stream_def new_provider_reader_def source_stream_def conforming_all)
  have "conforming ?psch (map Some ?ps) None = (?ps, None)" using each by (intro conforming_Some) (auto simp: list_all_iff good_batch_def)
  then have st: "provider_stream new_slice (provider_stream new_slice source_stream) ?r = (map Some ?out, None)"
    using sp by (simp add: provider_stream_def [of _ "provider_stream new_slice source_stream"] new_provider_reader_def Let_def comp_def)
  have fine: "list_all (good_batch ?psch) ?out" by (rule limit_batches_all [OF good_slice [OF law] each])
  then have "accepted_stream ?psch (map Some ?out, None) (row_sum ?out)"
    using check_retained_kept [of ?out] by (auto simp: accepted_stream_def list_all_iff good_batch_def)
  moreover have "provider_inv (provider_inv (\<lambda>s. True)) ?r"
    using o1(2) by (simp add: expected_schema_def split: option.splits)
  moreover have "sum_list (map bt_rows ?out) = (if ?n < 0 then sum_list (map bt_rows bs) else min (nat ?n) (sum_list (map bt_rows bs)))"
    using limit_batches_sum [OF law(1), of ?n ?ps] by (simp add: comp_def)
  moreover have "length ?out \<le> length bs" using limit_batches_length [of new_slice ?n ?ps] by simp
  ultimately show ?thesis
    using proj lim st by (intro exI [of _ ?r]) (auto simp: helper_push_def new_provider_reader_def)
qed

lemma pushdown_scans_pass:
  assumes "\<And>opts k. opts \<in> set os \<Longrightarrow> \<exists>r rows. scan ops fuel (expected_schema sch opts) False (push k opts) = Some r \<and>
      sc_answer r = Inr rows \<and> minimum_rows baseline opts \<le> sint rows \<and> sint rows \<le> sint baseline"
  shows "pushdown_scans ops fuel sch baseline push k os = Some Passed"
  using assms
proof (induction os arbitrary: k)
  case (Cons a os)
  from Cons.prems [of a k] obtain r rows where
    "scan ops fuel (expected_schema sch a) False (push k a) = Some r" "sc_answer r = Inr rows"
    "minimum_rows baseline a \<le> sint rows" "sint rows \<le> sint baseline" by auto
  moreover have "pushdown_scans ops fuel sch baseline push (k + 1) os = Some Passed"
    using Cons.prems by (intro Cons.IH) auto
  ultimately show ?case by simp
qed simp

lemma pushdown_options_valid:
  "opts \<in> set (pushdown_options sch) \<Longrightarrow>
   (case so_projection opts of None \<Rightarrow> True | Some is \<Rightarrow> \<forall>i \<in> set is. 0 \<le> i \<and> i < int (length sch)) \<and> - 1 \<le> so_limit opts"
  by (auto simp: pushdown_options_def Let_def)

text \<open>C22: A provider that serves fresh readers of fixed batches and pushes scans down with \<^verbatim>\<open>ProjectReader\<close> and
  \<^verbatim>\<open>LimitReader\<close> passes every test of the suite, given that its batches are well formed and of its schema, that their
  rows are counted by an \<^verbatim>\<open>int64\<close>, and that a slice of a batch is the batch of its first rows.\<close>

theorem helper_provider_passes:
  assumes law: "slice_law new_slice cell" "slice_columns new_slice"
    and s: "src_schema s = Some sch" "src_script s = map Some bs" "src_end s = None" "\<forall>b \<in> set bs. wf_batch b \<and> bt_fields b = sch"
    and small: "int (sum_list (map bt_rows bs)) < 2 ^ 63" "length bs < fuel"
  shows "run_suite source_ops (provider_ops new_slice (provider_ops new_slice source_ops)) fuel
      (Some (\<lambda>name. Some (helper_provider new_slice s))) =
    Inr [(RepeatScans, Some Passed), (ConcurrentScans, Some Passed), (PushdownScans, Some Passed)]"
proof -
  let ?pops = "provider_ops new_slice (provider_ops new_slice source_ops)" and ?rows = "row_sum bs"
  have "\<forall>b \<in> set bs. full_columns b"
    using s(4) good_projection [of _ sch "\<lparr>so_projection = None, so_filters = [], so_limit = - 1\<rparr>"]
    by (auto simp: good_batch_def expected_schema_def)
  then have acc: "accepted_stream sch (source_stream s) ?rows"
    using s check_retained_kept [of bs] by (auto simp: accepted_stream_def source_stream_def)
  have scan: "\<exists>r. scan source_ops fuel sch ready (Some s, None) = Some r \<and> sc_answer r = Inr ?rows \<and>
      sc_ready r = (if ready then 1 else 0)" for ready
    using src.scan_accepts [OF _ acc, of fuel ready] s(1,2) small(2) by (simp add: source_ops_simps source_stream_def)
  obtain r where r: "scan source_ops fuel sch False (Some s, None) = Some r" "sc_answer r = Inr ?rows"
    using scan [of False] by auto
  obtain q where q: "scan source_ops fuel sch True (Some s, None) = Some q" "sc_answer q = Inr ?rows" "sc_ready q = 1"
    using scan [of True] by auto
  have push: "pushdown_scans ?pops fuel sch ?rows (\<lambda>k. helper_push new_slice s) 1 (pushdown_options sch) = Some Passed"
  proof (rule pushdown_scans_pass)
    fix opts k assume "opts \<in> set (pushdown_options sch)"
    note o1 = pushdown_options_valid [OF this, THEN conjunct1] pushdown_options_valid [OF this, THEN conjunct2]
    from helper_push_accepted [OF law s o1] obtain t out where t: "helper_push new_slice s opts = (Some t, None)"
      "pv_schema t = expected_schema sch opts" "provider_inv (provider_inv (\<lambda>s. True)) t"
      "fst (provider_stream new_slice (provider_stream new_slice source_stream) t) = map Some out" "length out \<le> length bs"
      "accepted_stream (expected_schema sch opts) (provider_stream new_slice (provider_stream new_slice source_stream) t) (row_sum out)"
      "sum_list (map bt_rows out) = (if so_limit opts < 0 then sum_list (map bt_rows bs) else min (nat (so_limit opts)) (sum_list (map bt_rows bs)))"
      by blast
    have rr: "record_reader ?pops (provider_stream new_slice (provider_stream new_slice source_stream)) (provider_inv (provider_inv (\<lambda>s. True)))"
      by (rule record_reader.provider_contract [OF src.provider_contract [OF law(1)] law(1)])
    have le: "sum_list (map bt_rows out) \<le> sum_list (map bt_rows bs)" using t(7) by (simp split: if_splits)
    have sint: "sint (row_sum out) = int (sum_list (map bt_rows out))" "sint ?rows = int (sum_list (map bt_rows bs))"
      using small(1) le by (simp_all only: sint_row_sum order.strict_trans1 [OF of_nat_mono])
    have "minimum_rows ?rows opts \<le> sint (row_sum out) \<and> sint (row_sum out) \<le> sint ?rows"
      using t(7) by (auto simp: minimum_rows_def sint split: if_splits)
    with record_reader.scan_accepts [OF rr t(3,6), of fuel False] t(1,2,4,5) small(2)
    show "\<exists>r rows. scan ?pops fuel (expected_schema sch opts) False (helper_push new_slice s opts) = Some r \<and>
      sc_answer r = Inr rows \<and> minimum_rows ?rows opts \<le> sint rows \<and> sint rows \<le> sint ?rows"
      by auto
  qed
  show ?thesis
    using r q push s(1) by (simp add: run_suite_def test_names_def run_case_def helper_provider_def concurrent_scans_def
        concurrent_error_def)
qed



subsection \<open>Samples\<close>

definition sample_provider :: "(source, source) test_provider" where
  "sample_provider = \<lparr>tp_schema = src_schema two_column_source, tp_scan = (\<lambda>k. (Some two_column_source, None)),
     tp_pushdown = Some (\<lambda>k opts. let sch = expected_schema (bt_fields two_columns) opts in
       (Some (two_column_source\<lparr>src_schema := Some sch,
          src_script := map (map_option (project_batch sch (so_projection opts))) (src_script two_column_source)\<rparr>), None))\<rparr>"

lemma sample_provider_passes: "run_case source_ops source_ops 3 PushdownScans (Some sample_provider) = Some Passed"
  by code_simp


text \<open>A slice that keeps what is null.\<close>

definition null_slice :: "batch \<Rightarrow> nat \<Rightarrow> batch" where
  "null_slice b n = b\<lparr>bt_rows := n,
     bt_cols := map (\<lambda>c. OtherArray (arr_type c) (map (\<lambda>x. if x then None else Some ()) (take n (null_mask c)))) (bt_cols b)\<rparr>"

lemma null_slice_mask: "map (Option.is_none \<circ> (\<lambda>x. if x then None else Some ())) xs = xs"
  by (induction xs) auto

lemma null_slice_laws: "slice_law null_slice (\<lambda>c i. null_mask c ! i)" "slice_columns null_slice"
  by (auto simp: slice_law_def slice_columns_def null_slice_def batch_row_def full_columns_def arr_len_def null_slice_mask
      list_all_iff)

theorem helper_provider_passes_witness:
  "run_suite source_ops (provider_ops null_slice (provider_ops null_slice source_ops)) 3
      (Some (\<lambda>name. Some (helper_provider null_slice two_column_source))) =
    Inr [(RepeatScans, Some Passed), (ConcurrentScans, Some Passed), (PushdownScans, Some Passed)]"
  by (rule helper_provider_passes [OF null_slice_laws, where sch = "bt_fields two_columns" and bs = "[two_columns, two_columns]"])
    (simp_all add: two_column_source_def two_columns_def wf_batch_def arr_len_def)

end
