(* ===== verification/NativeCalls.thy ===== *)
theory NativeCalls
  imports NativeExec Lifecycle ProviderReaders
begin

text \<open>
  The calls of \<^verbatim>\<open>internal/native/native.go\<close> that open, register, prepare, import and close, with the C memory
  they use: the strings copied for C, the error objects the library hands out, the stream structures and the
  handles.  A wrapper object holds a handle or a nil pointer.  The library is C: a reply is an
  argument, a function of the call as the library reads it, that is of each string up to its first NUL byte.
  \<open>cm_bad\<close> is set by a free of memory that is not allocated, a read of such memory, or a handle closed twice.
  Without cgo (\<^verbatim>\<open>native_nocgo.go\<close>) every operation fails.
\<close>

subsection \<open>C memory and calls\<close>

record c_call =
  cc_function :: string
  cc_handles :: "nat option list"
  cc_strings :: "string list"
  cc_data :: "string option"

record c_reply =
  cr_status :: c_status
  cr_nil :: bool

record c_memory =
  cm_next :: nat
  cm_blocks :: "nat \<Rightarrow> string option"
  cm_errors :: nat
  cm_handles :: "nat set"
  cm_ptr :: "nat \<Rightarrow> nat option"
  cm_calls :: "c_call list"
  cm_bad :: bool

type_synonym native_library = "c_call \<Rightarrow> c_reply"

definition c_string :: "string \<Rightarrow> c_memory \<Rightarrow> nat \<times> c_memory" where
  "c_string s m = (cm_next m, m\<lparr>cm_next := cm_next m + 1, cm_blocks := (cm_blocks m)(cm_next m \<mapsto> s @ [CHR 0x00])\<rparr>)"

definition c_free :: "nat \<Rightarrow> c_memory \<Rightarrow> c_memory" where
  "c_free p m = m\<lparr>cm_blocks := (cm_blocks m)(p := None), cm_bad := cm_bad m \<or> cm_blocks m p = None\<rparr>"

definition c_read :: "c_memory \<Rightarrow> nat \<Rightarrow> string" where
  "c_read m p = (case cm_blocks m p of None \<Rightarrow> [] | Some bytes \<Rightarrow> takeWhile (\<lambda>c. c \<noteq> CHR 0x00) bytes)"

text \<open>A call: the library reads the strings; an error it reports is an object to free.\<close>

definition native_invoke ::
  "native_library \<Rightarrow> string \<Rightarrow> nat option list \<Rightarrow> nat list \<Rightarrow> string option \<Rightarrow> c_memory \<Rightarrow> c_reply \<times> c_memory" where
  "native_invoke lib f hs ps data m =
     (let call = \<lparr>cc_function = f, cc_handles = hs, cc_strings = map (c_read m) ps, cc_data = data\<rparr>;
          reply = lib call
      in (reply, m\<lparr>cm_calls := cm_calls m @ [call],
            cm_errors := cm_errors m + (case cr_status reply of StateFail (Some e) \<Rightarrow> 1 | _ \<Rightarrow> 0),
            cm_bad := cm_bad m \<or> (\<exists>p \<in> set ps. cm_blocks m p = None)\<rparr>))"

text \<open>\<^verbatim>\<open>takeError\<close> frees the error it has read.\<close>

definition free_error :: "c_error \<Rightarrow> c_memory \<Rightarrow> c_memory" where
  "free_error e m = (case e of None \<Rightarrow> m | Some x \<Rightarrow> m\<lparr>cm_errors := cm_errors m - 1, cm_bad := cm_bad m \<or> cm_errors m = 0\<rparr>)"

definition new_object :: "bool \<Rightarrow> c_memory \<Rightarrow> nat \<times> c_memory" where
  "new_object nil m =
     (cm_next m, m\<lparr>cm_next := cm_next m + 1, cm_ptr := (cm_ptr m)(cm_next m := (if nil then None else Some (cm_next m))),
        cm_handles := (if nil then cm_handles m else insert (cm_next m) (cm_handles m))\<rparr>)"

text \<open>What a wrapper does with the reply: convert the error, or go on.\<close>

definition on_reply ::
  "(c_memory \<Rightarrow> (go_error + 'a) \<times> c_memory) \<Rightarrow> c_reply \<times> c_memory \<Rightarrow> (go_error + 'a) \<times> c_memory" where
  "on_reply f r =
     (case r of (reply, m) \<Rightarrow>
        (case cr_status reply of StateFail e \<Rightarrow> (Inl (take_error e), free_error e m) | StateOk \<Rightarrow> f m))"

definition returns_object :: "string \<Rightarrow> c_reply \<times> c_memory \<Rightarrow> (go_error + nat option) \<times> c_memory" where
  "returns_object message r =
     on_reply (\<lambda>m. if cr_nil (fst r) then (Inl (Plain message), m)
       else (case new_object False m of (k, m1) \<Rightarrow> (Inr (Some k), m1))) r"

definition returns_nothing :: "c_reply \<times> c_memory \<Rightarrow> (go_error + nat option) \<times> c_memory" where
  "returns_nothing r = on_reply (\<lambda>m. (Inr None, m)) r"

text \<open>\<^verbatim>\<open>C.CString\<close> with the deferred \<^verbatim>\<open>C.free\<close>.\<close>

definition with_c_string ::
  "string \<Rightarrow> (nat \<Rightarrow> c_memory \<Rightarrow> 'a \<times> c_memory) \<Rightarrow> c_memory \<Rightarrow> 'a \<times> c_memory" where
  "with_c_string s f m = (case c_string s m of (p, m1) \<Rightarrow> (case f p m1 of (r, m2) \<Rightarrow> (r, c_free p m2)))"

text \<open>The method of a wrapper that is nil or closed.\<close>

definition with_handle ::
  "string \<Rightarrow> nat \<Rightarrow> (nat \<Rightarrow> c_memory \<Rightarrow> (go_error + nat option) \<times> c_memory) \<Rightarrow> c_memory \<Rightarrow> (go_error + nat option) \<times> c_memory" where
  "with_handle what k f m =
     (case cm_ptr m k of None \<Rightarrow> (Inl (Plain (''datafusion-go '' @ what @ '' is closed'')), m) | Some h \<Rightarrow> f h m)"

definition guard_nul ::
  "string \<Rightarrow> string \<Rightarrow> (c_memory \<Rightarrow> (go_error + nat option) \<times> c_memory) \<Rightarrow> c_memory \<Rightarrow> (go_error + nat option) \<times> c_memory" where
  "guard_nul s what f m = (case check_no_nul_byte s what of Some e \<Rightarrow> (Inl e, m) | None \<Rightarrow> f m)"

subsection \<open>The operations\<close>

text \<open>\<open>load\<close> and \<open>version\<close> are the results of loading the library and of the version check.\<close>

definition open_database ::
  "native_library \<Rightarrow> go_error option \<Rightarrow> go_error option \<Rightarrow> string \<Rightarrow> c_memory \<Rightarrow> (go_error + nat option) \<times> c_memory" where
  "open_database lib load version dsn m =
     guard_nul dsn ''DSN'' (\<lambda>m.
       case load of Some e \<Rightarrow> (Inl e, m) | None \<Rightarrow> (case version of Some e \<Rightarrow> (Inl e, m) | None \<Rightarrow>
         with_c_string dsn (\<lambda>p m. returns_object ''datafusion-go native open returned nil database''
           (native_invoke lib ''dfgo_database_open'' [] [p] None m)) m)) m"

definition native_connect :: "native_library \<Rightarrow> bool \<Rightarrow> nat \<Rightarrow> c_memory \<Rightarrow> (go_error + nat option) \<times> c_memory" where
  "native_connect lib shared db m =
     with_handle ''database'' db (\<lambda>h m. returns_object ''datafusion-go native connect returned nil connection''
       (native_invoke lib (if shared then ''dfgo_connection_open_shared'' else ''dfgo_connection_open_isolated'') [Some h] [] None m)) m"

definition register_arrow_ipc ::
  "native_library \<Rightarrow> nat \<Rightarrow> string \<Rightarrow> string \<Rightarrow> c_memory \<Rightarrow> (go_error + nat option) \<times> c_memory" where
  "register_arrow_ipc lib conn name data m =
     with_handle ''connection'' conn (\<lambda>h. guard_nul name ''table name'' (\<lambda>m.
       with_c_string name (\<lambda>p m. returns_nothing
         (native_invoke lib ''dfgo_connection_register_arrow_ipc'' [Some h] [p] (if data = [] then None else Some data) m)) m)) m"

definition register_ffi ::
  "native_library \<Rightarrow> nat \<Rightarrow> string \<Rightarrow> bool \<Rightarrow> string \<Rightarrow> c_memory \<Rightarrow> (go_error + nat option) \<times> c_memory" where
  "register_ffi lib conn name has_provider version m =
     with_handle ''connection'' conn (\<lambda>h m.
       if \<not> has_provider then (Inl (Plain ''datafusion-go FFI table provider is nil''), m)
       else guard_nul name ''table name'' (guard_nul version ''provider datafusion version'' (\<lambda>m.
         with_c_string name (\<lambda>p m. with_c_string version (\<lambda>q m. returns_nothing
           (native_invoke lib ''dfgo_connection_register_ffi_table_provider'' [Some h] [p, q] None m)) m) m)) m) m"

definition deregister_table :: "native_library \<Rightarrow> nat \<Rightarrow> string \<Rightarrow> c_memory \<Rightarrow> (go_error + nat option) \<times> c_memory" where
  "deregister_table lib conn name m =
     with_handle ''connection'' conn (\<lambda>h. guard_nul name ''table name'' (\<lambda>m.
       with_c_string name (\<lambda>p m. returns_nothing
         (native_invoke lib ''dfgo_connection_deregister_table'' [Some h] [p] None m)) m)) m"

text \<open>
  The stream structure is a block of its own, freed when the call returns: the library takes only what it points to.
  \<open>alloc\<close> says whether \<^verbatim>\<open>calloc\<close> succeeds, \<open>safe\<close> is what the panic-safe wrapper answers.
\<close>

definition register_arrow_stream ::
  "native_library \<Rightarrow> bool \<Rightarrow> nat \<Rightarrow> string \<Rightarrow> (go_error + 's safe_reader) option \<Rightarrow> c_memory \<Rightarrow> (go_error + nat option) \<times> c_memory" where
  "register_arrow_stream lib alloc conn name reader m =
     with_handle ''connection'' conn (\<lambda>h m.
       case reader of None \<Rightarrow> (Inl (Plain ''datafusion-go arrow reader is nil''), m) | Some safe \<Rightarrow>
       guard_nul name ''table name'' (\<lambda>m.
         with_c_string name (\<lambda>p m.
           if \<not> alloc then (Inl (Plain ''datafusion-go could not allocate Arrow stream''), m)
           else with_c_string [] (\<lambda>stream m.
             case safe of Inl e \<Rightarrow> (Inl e, m)
             | Inr r \<Rightarrow> returns_nothing
                 (native_invoke lib ''dfgo_connection_register_arrow_stream'' [Some h] [p] None m)) m) m) m) m"

definition native_prepare :: "native_library \<Rightarrow> nat \<Rightarrow> string \<Rightarrow> c_memory \<Rightarrow> (go_error + nat option) \<times> c_memory" where
  "native_prepare lib conn query m =
     with_handle ''connection'' conn (\<lambda>h. guard_nul query ''query'' (\<lambda>m.
       with_c_string query (\<lambda>p m. returns_object ''datafusion-go native prepare returned nil statement''
         (native_invoke lib ''dfgo_prepare'' [Some h] [p] None m)) m)) m"

definition new_import :: "native_library \<Rightarrow> nat \<Rightarrow> string \<Rightarrow> c_memory \<Rightarrow> (go_error + nat option) \<times> c_memory" where
  "new_import lib conn name m =
     with_handle ''connection'' conn (\<lambda>h. guard_nul name ''table name'' (\<lambda>m.
       with_c_string name (\<lambda>p m. let r = native_invoke lib ''dfgo_import_open'' [Some h] [p] None m in
         on_reply (\<lambda>m. case new_object (cr_nil (fst r)) m of (k, m1) \<Rightarrow> (Inr (Some k), m1)) r) m)) m"

definition native_append :: "native_library \<Rightarrow> nat \<Rightarrow> string \<Rightarrow> c_memory \<Rightarrow> (go_error + nat option) \<times> c_memory" where
  "native_append lib i data m =
     with_handle ''import'' i (\<lambda>h m. returns_nothing
       (native_invoke lib ''dfgo_import_append'' [Some h] [] (if data = [] then None else Some data) m)) m"

definition native_commit :: "native_library \<Rightarrow> nat \<Rightarrow> nat \<Rightarrow> c_memory \<Rightarrow> (go_error + nat option) \<times> c_memory" where
  "native_commit lib i conn m =
     with_handle ''import'' i (\<lambda>h m. returns_nothing
       (native_invoke lib ''dfgo_import_commit'' [cm_ptr m conn, Some h] [] None m)) m"

definition native_register_go ::
  "native_library \<Rightarrow> nat \<Rightarrow> string \<Rightarrow> c_memory \<Rightarrow> (go_error + nat option) \<times> c_memory" where
  "native_register_go lib conn name m =
     with_handle ''connection'' conn (\<lambda>h. guard_nul name ''extension name'' (\<lambda>m.
       with_c_string name (\<lambda>p m. returns_nothing
         (native_invoke lib ''dfgo_connection_register_go'' [Some h] [p] None m)) m)) m"

text \<open>\<^verbatim>\<open>Close\<close> of a database, a connection, a statement or an import: the pointer is nil afterwards.\<close>

definition native_close_object :: "nat \<Rightarrow> c_memory \<Rightarrow> c_memory" where
  "native_close_object k m =
     (case cm_ptr m k of
        None \<Rightarrow> m
      | Some h \<Rightarrow> m\<lparr>cm_handles := cm_handles m - {h}, cm_bad := cm_bad m \<or> h \<notin> cm_handles m, cm_ptr := (cm_ptr m)(k := None)\<rparr>)"

definition database_close :: "nat \<Rightarrow> c_memory \<Rightarrow> c_memory" where "database_close db m = native_close_object db m"

definition connection_close :: "nat \<Rightarrow> c_memory \<Rightarrow> c_memory" where "connection_close conn m = native_close_object conn m"

definition statement_close :: "nat \<Rightarrow> c_memory \<Rightarrow> c_memory" where "statement_close stmt m = native_close_object stmt m"

text \<open>What a statement says of itself; \<open>params\<close> and \<open>flag\<close> are the library's answers for its handle.\<close>

definition statement_num_input :: "(nat \<Rightarrow> int) \<Rightarrow> nat \<Rightarrow> c_memory \<Rightarrow> int" where
  "statement_num_input params stmt m = (case cm_ptr m stmt of None \<Rightarrow> - 1 | Some h \<Rightarrow> params h)"

definition statement_serializes :: "(nat \<Rightarrow> int) \<Rightarrow> nat \<Rightarrow> c_memory \<Rightarrow> bool" where
  "statement_serializes flag stmt m = (case cm_ptr m stmt of None \<Rightarrow> False | Some h \<Rightarrow> flag h \<noteq> 0)"

text \<open>A closed statement takes any arguments as far as the driver checks, and does not serialize.\<close>

lemma closed_statement_answers:
  "statement_num_input params stmt (statement_close stmt m) = - 1" "\<not> statement_serializes flag stmt (statement_close stmt m)"
  by (auto simp: statement_num_input_def statement_serializes_def statement_close_def native_close_object_def split: option.split)

datatype 's native_request =
    OpOpen "go_error option" "go_error option" string
  | OpConnect bool nat
  | OpRegisterIPC nat string string
  | OpRegisterFFI nat string bool string
  | OpDeregister nat string
  | OpRegisterStream bool nat string "(go_error + 's safe_reader) option"
  | OpPrepare nat string
  | OpImport nat string
  | OpAppend nat string
  | OpCommit nat nat
  | OpRegisterGo nat string
  | OpClose nat

fun native_call :: "native_library \<Rightarrow> 's native_request \<Rightarrow> c_memory \<Rightarrow> (go_error + nat option) \<times> c_memory" where
  "native_call lib (OpOpen load version dsn) m = open_database lib load version dsn m"
| "native_call lib (OpConnect shared db) m = native_connect lib shared db m"
| "native_call lib (OpRegisterIPC c name data) m = register_arrow_ipc lib c name data m"
| "native_call lib (OpRegisterFFI c name p v) m = register_ffi lib c name p v m"
| "native_call lib (OpDeregister c name) m = deregister_table lib c name m"
| "native_call lib (OpRegisterStream alloc c name r) m = register_arrow_stream lib alloc c name r m"
| "native_call lib (OpPrepare c query) m = native_prepare lib c query m"
| "native_call lib (OpImport c name) m = new_import lib c name m"
| "native_call lib (OpAppend i data) m = native_append lib i data m"
| "native_call lib (OpCommit i c) m = native_commit lib i c m"
| "native_call lib (OpRegisterGo c name) m = native_register_go lib c name m"
| "native_call lib (OpClose k) m = (Inr None, native_close_object k m)"

definition native_run :: "native_library \<Rightarrow> 's native_request list \<Rightarrow> c_memory \<Rightarrow> c_memory" where
  "native_run lib = fold (\<lambda>op m. snd (native_call lib op m))"

text \<open>The build without cgo.\<close>

definition err_cgo_disabled :: go_error where
  "err_cgo_disabled = Plain ''datafusion-go requires cgo; rebuild with CGO_ENABLED=1''"

fun nocgo_op :: "'s native_request \<Rightarrow> go_error + nat option" where
  "nocgo_op (OpClose k) = Inr None"
| "nocgo_op op = Inl err_cgo_disabled"

subsection \<open>No memory is lost\<close>

text \<open>The invariant between calls, with the blocks \<open>B\<close> still allocated.\<close>

definition memory_ok :: "(nat \<Rightarrow> string option) \<Rightarrow> c_memory \<Rightarrow> bool" where
  "memory_ok B m \<longleftrightarrow> \<not> cm_bad m \<and> cm_blocks m = B \<and> cm_errors m = 0 \<and> cm_handles m = dom (cm_ptr m) \<and>
     (\<forall>k. cm_ptr m k \<in> {None, Some k}) \<and> (\<forall>k \<ge> cm_next m. cm_ptr m k = None \<and> B k = None)"

lemma invoke_reply_ok:
  assumes "memory_ok B m" "list_all (\<lambda>p. B p \<noteq> None) ps" "\<And>m reply. memory_ok B m \<Longrightarrow> memory_ok B (snd (f reply m))"
  shows "memory_ok B (snd (on_reply (f (fst (native_invoke lib fn hs ps data m))) (native_invoke lib fn hs ps data m)))"
proof -
  let ?r = "native_invoke lib fn hs ps data m"
  have b: "\<not> (\<exists>p \<in> set ps. cm_blocks m p = None)" using assms(1,2) by (auto simp: memory_ok_def list_all_iff)
  show ?thesis
  proof (cases "cr_status (fst ?r)")
    case StateOk
    with b assms(1) have "memory_ok B (snd ?r)" by (auto simp: native_invoke_def Let_def memory_ok_def)
    with StateOk assms(3) show ?thesis by (simp add: on_reply_def split_beta)
  next
    case (StateFail e)
    with b assms(1) show ?thesis
      by (cases e) (auto simp: on_reply_def native_invoke_def Let_def memory_ok_def free_error_def)
  qed
qed

lemma new_object_ok: "memory_ok B m \<Longrightarrow> memory_ok B (snd (new_object nil m))"
  by (auto simp: memory_ok_def new_object_def)

lemma returns_ok:
  assumes "memory_ok B m" "list_all (\<lambda>p. B p \<noteq> None) ps"
  shows "memory_ok B (snd (returns_object msg (native_invoke lib fn hs ps data m)))"
    "memory_ok B (snd (returns_nothing (native_invoke lib fn hs ps data m)))"
    "memory_ok B (snd (let r = native_invoke lib fn hs ps data m in
       on_reply (\<lambda>m. case new_object (cr_nil (fst r)) m of (k, m1) \<Rightarrow> (Inr (Some k), m1)) r))"
proof -
  show "memory_ok B (snd (returns_object msg (native_invoke lib fn hs ps data m)))"
    unfolding returns_object_def
    by (rule invoke_reply_ok [OF assms, of "\<lambda>r m. if cr_nil r then (Inl (Plain msg), m) else (case new_object False m of (k, m1) \<Rightarrow> (Inr (Some k), m1))"])
      (auto simp: split_beta new_object_ok)
  show "memory_ok B (snd (returns_nothing (native_invoke lib fn hs ps data m)))"
    unfolding returns_nothing_def by (rule invoke_reply_ok [OF assms, of "\<lambda>r m. (Inr None, m)"]) simp
  show "memory_ok B (snd (let r = native_invoke lib fn hs ps data m in
       on_reply (\<lambda>m. case new_object (cr_nil (fst r)) m of (k, m1) \<Rightarrow> (Inr (Some k), m1)) r))"
    unfolding Let_def
    by (rule invoke_reply_ok [OF assms, of "\<lambda>r m. case new_object (cr_nil r) m of (k, m1) \<Rightarrow> (Inr (Some k), m1)"])
      (simp add: split_beta new_object_ok)
qed

lemma with_c_string_ok:
  assumes "memory_ok B m"
    and "\<And>p m. memory_ok (B(p \<mapsto> s @ [CHR 0x00])) m \<Longrightarrow> B p = None \<Longrightarrow> memory_ok (B(p \<mapsto> s @ [CHR 0x00])) (snd (f p m))"
  shows "memory_ok B (snd (with_c_string s f m))"
proof -
  let ?p = "cm_next m" and ?m = "snd (c_string s m)"
  have fresh: "B ?p = None" using assms(1) by (simp add: memory_ok_def)
  have "memory_ok (B(?p \<mapsto> s @ [CHR 0x00])) ?m" using assms(1) by (auto simp: memory_ok_def c_string_def)
  from assms(2) [OF this fresh] have "memory_ok (B(?p \<mapsto> s @ [CHR 0x00])) (snd (f ?p ?m))" .
  then have "memory_ok B (c_free ?p (snd (f ?p ?m)))"
    using fresh by (auto simp: memory_ok_def c_free_def fun_upd_idem split: if_splits)
  then show ?thesis by (simp add: with_c_string_def split_beta c_string_def)
qed

lemma with_handle_ok:
  "memory_ok B m \<Longrightarrow> (\<And>h. cm_ptr m k = Some h \<Longrightarrow> memory_ok B (snd (f h m))) \<Longrightarrow> memory_ok B (snd (with_handle what k f m))"
  by (auto simp: with_handle_def split: option.splits)

lemma guard_nul_ok: "memory_ok B m \<Longrightarrow> memory_ok B (snd (f m)) \<Longrightarrow> memory_ok B (snd (guard_nul s what f m))"
  by (auto simp: guard_nul_def split: option.splits)

lemma native_close_object_ok: "memory_ok B m \<Longrightarrow> memory_ok B (native_close_object k m)"
proof -
  assume m: "memory_ok B m"
  show ?thesis
  proof (cases "cm_ptr m k")
    case (Some h)
    then have "h = k" using m by (auto simp: memory_ok_def dest: spec [of _ k])
    with m Some show ?thesis by (auto simp: memory_ok_def native_close_object_def)
  qed (simp add: native_close_object_def m)
qed

lemmas call_rules = with_handle_ok guard_nul_ok with_c_string_ok returns_ok

lemma native_call_ok: "memory_ok B m \<Longrightarrow> memory_ok B (snd (native_call lib op m))"
proof (cases op)
  case (OpOpen load version dsn)
  assume "memory_ok B m" with OpOpen show ?thesis
    by (auto simp: open_database_def intro!: call_rules split: option.splits)
next
  case (OpRegisterStream alloc c name r)
  assume "memory_ok B m" with OpRegisterStream show ?thesis
    by (auto simp: register_arrow_stream_def intro!: call_rules split: option.splits sum.splits)
qed (auto simp: native_connect_def register_arrow_ipc_def register_ffi_def deregister_table_def native_prepare_def
    new_import_def native_append_def native_commit_def native_register_go_def native_close_object_ok intro!: call_rules)

definition empty_memory :: c_memory where
  "empty_memory = \<lparr>cm_next = 0, cm_blocks = Map.empty, cm_errors = 0, cm_handles = {}, cm_ptr = Map.empty, cm_calls = [], cm_bad = False\<rparr>"

text \<open>C14: After any sequence of these calls, whatever the library answers and whichever wrapper is closed how often, no
  C memory and no error object is left, nothing was freed twice or read after it was freed, and the live native handles
  are exactly those held by wrapper objects that are not closed, one owner each.\<close>

theorem native_calls_account:
  "let m = native_run lib ops empty_memory in
     \<not> cm_bad m \<and> cm_blocks m = Map.empty \<and> cm_errors m = 0 \<and>
     cm_handles m = dom (cm_ptr m) \<and> (\<forall>k. cm_ptr m k \<in> {None, Some k})"
proof -
  have "memory_ok Map.empty m \<Longrightarrow> memory_ok Map.empty (native_run lib ops m)" for m
    by (induction ops arbitrary: m) (auto simp: native_run_def native_call_ok)
  from this [of empty_memory] have "memory_ok Map.empty (native_run lib ops empty_memory)"
    by (simp add: memory_ok_def empty_memory_def)
  then show ?thesis by (simp add: memory_ok_def Let_def)
qed

subsection \<open>Strings reach the library as they are\<close>

fun request_strings :: "'s native_request \<Rightarrow> string list" where
  "request_strings (OpOpen load version dsn) = [dsn]"
| "request_strings (OpRegisterIPC c name data) = [name]"
| "request_strings (OpRegisterFFI c name p v) = [name, v]"
| "request_strings (OpDeregister c name) = [name]"
| "request_strings (OpRegisterStream alloc c name r) = [name]"
| "request_strings (OpPrepare c query) = [query]"
| "request_strings (OpImport c name) = [name]"
| "request_strings (OpRegisterGo c name) = [name]"
| "request_strings op = []"

definition nul_free :: "string list \<Rightarrow> bool" where
  "nul_free = list_all (\<lambda>s. CHR 0x00 \<notin> set s)"

lemma read_whole: "CHR 0x00 \<notin> set s \<Longrightarrow> takeWhile (\<lambda>c. c \<noteq> CHR 0x00) (s @ [CHR 0x00]) = s"
  by (subst takeWhile_append2) auto

lemma free_error_calls [simp]: "cm_calls (free_error e m) = cm_calls m"
  by (simp add: free_error_def split: option.splits)

lemma reply_calls:
  "cm_calls (snd (returns_object msg r)) = cm_calls (snd r)"
  "cm_calls (snd (returns_nothing r)) = cm_calls (snd r)"
  "cm_calls (snd (on_reply (\<lambda>m. case new_object nil m of (k, m1) \<Rightarrow> (Inr (Some k), m1)) r)) = cm_calls (snd r)"
  "cm_calls (snd (on_reply (\<lambda>m. (Inr (Some (fst (new_object nil m))), snd (new_object nil m))) r)) = cm_calls (snd r)"
  by (cases r; simp add: returns_object_def returns_nothing_def on_reply_def new_object_def split: c_status.splits prod.splits)+

lemmas call_defs = open_database_def native_connect_def register_arrow_ipc_def register_ffi_def deregister_table_def
  register_arrow_stream_def native_prepare_def new_import_def native_append_def native_commit_def native_register_go_def
  with_handle_def guard_nul_def check_no_nul_byte_def with_c_string_def c_string_def c_free_def native_invoke_def
  Let_def c_read_def nul_free_def split_beta

text \<open>C15: A string never reaches the library truncated.  A call whose table name, query, version or DSN contains a NUL
  byte fails before the library is called; every other call reaches it at most once, with exactly the strings of the
  caller.\<close>

theorem native_strings_arrive:
  "case native_call lib op m of (res, m') \<Rightarrow>
     if \<not> nul_free (request_strings op) then cm_calls m' = cm_calls m \<and> isl res
     else cm_calls m' = cm_calls m \<or>
       (\<exists>fn hs data. cm_calls m' =
          cm_calls m @ [\<lparr>cc_function = fn, cc_handles = hs, cc_strings = request_strings op, cc_data = data\<rparr>])"
  by (cases op)
    (auto simp: call_defs reply_calls read_whole native_close_object_def split: option.splits sum.splits)

text \<open>The log of a request and the lifecycle of its handles agree with the connections of the driver.\<close>

definition abstract_answer :: "c_reply \<Rightarrow> native_answer" where
  "abstract_answer r = (case cr_status r of StateFail e \<Rightarrow> AnswerError (take_error e) | StateOk \<Rightarrow> if cr_nil r then AnswerNil else AnswerOk)"

definition same_outcome :: "(go_error + nat option) \<times> c_memory \<Rightarrow> (go_error + nat) \<times> world \<Rightarrow> bool" where
  "same_outcome a b \<longleftrightarrow> (case (fst a, fst b) of
      (Inl e, Inl d) \<Rightarrow> e = d \<and> cm_handles (snd a) = w_live (snd b)
    | (Inr (Some k), Inr n) \<Rightarrow> cm_handles (snd a) - {k} = w_live (snd b) - {n} \<and> k \<in> cm_handles (snd a) \<and> n \<in> w_live (snd b)
    | _ \<Rightarrow> False)"

text \<open>C40: The opening of connections and statements as the driver's lifecycle model has it is what the wrappers do over C
  memory: with the same live handles before, and the answer of the library to the call the wrapper makes, both give the
  same error and leave the handles alone, or both add one new live handle.  The strings and errors of C are gone.\<close>

theorem native_calls_refine_lifecycle:
  assumes "memory_ok Map.empty m" "cm_handles m = w_live w" "\<And>k. k \<in> w_live w \<Longrightarrow> k < w_next w"
  shows "same_outcome (native_prepare lib c query m)
      (connection_prepare (abstract_answer (lib \<lparr>cc_function = ''dfgo_prepare'', cc_handles = [Some c], cc_strings = [query], cc_data = None\<rparr>))
        (Some c) query w) \<and>
    same_outcome (native_connect lib shared c m)
      (database_connect (abstract_answer (lib \<lparr>cc_function =
        (if shared then ''dfgo_connection_open_shared'' else ''dfgo_connection_open_isolated''),
        cc_handles = [Some c], cc_strings = [], cc_data = None\<rparr>)) c w)"
proof -
  have m: "w_live w = dom (cm_ptr m)" "\<And>k. cm_ptr m k \<in> {None, Some k}" "\<And>k. cm_next m \<le> k \<Longrightarrow> cm_ptr m k = None"
    using assms(1,2) by (auto simp: memory_ok_def)
  then have c: "cm_ptr m c = (if c \<in> w_live w then Some c else None)" using m(2) [of c] by (auto simp: domIff)
  have fresh: "cm_next m \<notin> w_live w" "Suc (cm_next m) \<notin> w_live w" "w_next w \<notin> w_live w"
    using m(1) m(3) [of "cm_next m"] m(3) [of "Suc (cm_next m)"] assms(3) [of "w_next w"] by (auto simp: domIff)
  have "same_outcome (native_prepare lib c query m)
      (connection_prepare (abstract_answer (lib \<lparr>cc_function = ''dfgo_prepare'', cc_handles = [Some c], cc_strings = [query], cc_data = None\<rparr>))
        (Some c) query w)"
    by (cases "CHR 0x00 \<in> set query")
      (auto simp: c same_outcome_def connection_prepare_def call_defs read_whole returns_object_def on_reply_def
        abstract_answer_def native_alloc_def new_object_def free_error_def assms(2) fresh split: c_status.splits option.splits)
  moreover have "same_outcome (native_connect lib shared c m)
      (database_connect (abstract_answer (lib \<lparr>cc_function =
        (if shared then ''dfgo_connection_open_shared'' else ''dfgo_connection_open_isolated''),
        cc_handles = [Some c], cc_strings = [], cc_data = None\<rparr>)) c w)"
    by (auto simp: c same_outcome_def database_connect_def call_defs returns_object_def on_reply_def
        abstract_answer_def native_alloc_def new_object_def free_error_def assms(2) fresh split: c_status.splits option.splits)
  ultimately show ?thesis by blast
qed

definition one_connection :: c_memory where
  "one_connection = empty_memory\<lparr>cm_next := 5, cm_handles := {3}, cm_ptr := [3 \<mapsto> 3]\<rparr>"

definition one_connection_world :: world where
  "one_connection_world = \<lparr>w_next = 9, w_connectors = Map.empty, w_conns = Map.empty, w_stmts = Map.empty, w_tasks = Map.empty,
     w_live = {3}, w_parent = (\<lambda>k. 0), w_inits = (\<lambda>k. 0)\<rparr>"

definition willing_library :: native_library where
  "willing_library call = \<lparr>cr_status = StateOk, cr_nil = False\<rparr>"

theorem native_calls_refine_lifecycle_witness:
  "same_outcome (native_prepare willing_library 3 ''SELECT 1'' one_connection)
      (connection_prepare AnswerOk (Some 3) ''SELECT 1'' one_connection_world) \<and>
    same_outcome (native_connect willing_library True 4 one_connection) (database_connect AnswerOk 4 one_connection_world)"
proof -
  have "memory_ok Map.empty one_connection" by (simp add: memory_ok_def one_connection_def empty_memory_def)
  moreover have "cm_handles one_connection = w_live one_connection_world"
    "\<And>k. k \<in> w_live one_connection_world \<Longrightarrow> k < w_next one_connection_world"
    by (simp_all add: one_connection_def one_connection_world_def)
  ultimately have "same_outcome (native_prepare willing_library c ''SELECT 1'' one_connection)
      (connection_prepare AnswerOk (Some c) ''SELECT 1'' one_connection_world) \<and>
    same_outcome (native_connect willing_library True c one_connection) (database_connect AnswerOk c one_connection_world)" for c
    using native_calls_refine_lifecycle [of one_connection one_connection_world willing_library c "''SELECT 1''" True]
    by (simp add: willing_library_def abstract_answer_def)
  then show ?thesis by blast
qed

text \<open>Without cgo nothing is opened or registered.\<close>

lemma nocgo_opens_nothing: "nocgo_op op = Inr r \<Longrightarrow> r = None \<and> (\<exists>k. op = OpClose k)"
  by (cases op) auto

end
