(* ===== verification/DriverCalls.thy ===== *)
theory DriverCalls
  imports Sessions DsnOptions Extensions ExecResult
begin

text \<open>
  The calls of the driver that are built from the others: \<^verbatim>\<open>NewConnector\<close>, \<^verbatim>\<open>Connect\<close> and \<^verbatim>\<open>Driver.Open\<close>
  (\<^verbatim>\<open>datafusion.go\<close>), the direct \<^verbatim>\<open>Session\<close> (\<^verbatim>\<open>session.go\<close>) and the \<^verbatim>\<open>ExecContext\<close> and
  \<^verbatim>\<open>QueryContext\<close> of connections and statements (\<^verbatim>\<open>connection.go\<close>, \<^verbatim>\<open>statement.go\<close>), and the
  queries and registrations over a \<^verbatim>\<open>*sql.Conn\<close> (\<^verbatim>\<open>arrow.go\<close>, \<^verbatim>\<open>extensions.go\<close>), with no other goroutine in between.
\<close>

subsection \<open>Opening\<close>

text \<open>\<open>native\<close> answers \<^verbatim>\<open>OpenDatabase\<close> for a normalized DSN.\<close>

definition new_connector_with_init_context ::
  "(string \<Rightarrow> native_answer) \<Rightarrow> string \<Rightarrow> bool \<Rightarrow> connector_option option list \<Rightarrow> world \<Rightarrow> (go_error + nat) \<times> world" where
  "new_connector_with_init_context native dsn has_init options w =
     (case connector_dsn options dsn of
        Inl e \<Rightarrow> (Inl e, w)
      | Inr (normalized, shared) \<Rightarrow>
          (let failed = (\<lambda>e. (Inl (driver_error ErrorConnect ''could not open DataFusion database'' (Some e)), w)) in
           case native normalized of
             AnswerError e \<Rightarrow> failed e
           | AnswerNil \<Rightarrow> failed (Plain ''datafusion-go native open returned nil database'')
           | AnswerOk \<Rightarrow> (case new_connector shared has_init w of (c, w1) \<Rightarrow> (Inr c, w1))))"

definition new_connector_fn ::
  "(string \<Rightarrow> native_answer) \<Rightarrow> string \<Rightarrow> bool \<Rightarrow> world \<Rightarrow> (go_error + nat) \<times> world" where
  "new_connector_fn native dsn has_init w = new_connector_with_init_context native dsn has_init [] w"

text \<open>\<^verbatim>\<open>Connect\<close>, both phases: the task of the first is the object after the connection.\<close>

definition connector_connect ::
  "go_error option \<Rightarrow> native_answer \<Rightarrow> go_error option \<Rightarrow> go_error option \<Rightarrow> go_error option \<Rightarrow> nat \<Rightarrow> world \<Rightarrow> (go_error + nat) \<times> world" where
  "connector_connect ctx ans lock ctx2 init c w =
     (case connect_begin ctx ans c w of
        (Inl e, w1) \<Rightarrow> (Inl e, w1)
      | (Inr k, w1) \<Rightarrow> if connector_has_init c w1 then connect_init ctx lock ctx2 init (k + 1) k w1 else (Inr k, w1))"

definition driver_open :: "(string \<Rightarrow> native_answer) \<Rightarrow> native_answer \<Rightarrow> string \<Rightarrow> world \<Rightarrow> (go_error + nat) \<times> world" where
  "driver_open native ans dsn w =
     (case new_connector_fn native dsn False w of
        (Inl e, w1) \<Rightarrow> (Inl e, w1)
      | (Inr c, w1) \<Rightarrow> (case connector_connect None ans None None None c w1 of
            (Inl e, w2) \<Rightarrow> (Inl e, connector_close c w2)
          | (Inr k, w2) \<Rightarrow> (Inr k, w2\<lparr>w_conns := (w_conns w2)(k := map_option (\<lambda>x. x\<lparr>co_owns := True\<rparr>) (w_conns w2 k))\<rparr>)))"

subsection \<open>Sessions\<close>

record session =
  se_connector :: nat
  se_conn :: nat

definition new_session ::
  "(string \<Rightarrow> native_answer) \<Rightarrow> native_answer \<Rightarrow> string \<Rightarrow> connector_option option list \<Rightarrow> world \<Rightarrow> (go_error + session) \<times> world" where
  "new_session native ans dsn options w =
     (case new_connector_with_init_context native dsn False options w of
        (Inl e, w1) \<Rightarrow> (Inl e, w1)
      | (Inr c, w1) \<Rightarrow> (case connector_connect None ans None None None c w1 of
            (Inl e, w2) \<Rightarrow> (Inl e, connector_close c w2)
          | (Inr k, w2) \<Rightarrow> (Inr \<lparr>se_connector = c, se_conn = k\<rparr>, w2)))"

definition session_close :: "session \<Rightarrow> world \<Rightarrow> world" where
  "session_close s w = connector_close (se_connector s) (conn_close (se_conn s) w)"

definition session_deregister_table ::
  "go_error option \<Rightarrow> go_error option \<Rightarrow> string \<Rightarrow> session \<Rightarrow> world \<Rightarrow> (go_error + unit) \<times> world" where
  "session_deregister_table ctx answer name s w =
     (case ctx of Some e \<Rightarrow> (Inl e, w) | None \<Rightarrow> with_native (se_conn s) (deregister_table_native answer name) w)"

definition session_register_arrow_reader ::
  "import_env \<Rightarrow> go_error option \<Rightarrow> go_error option \<Rightarrow> 's reader_ops \<Rightarrow> nat \<Rightarrow> 's option \<Rightarrow>
   (go_error option \<times> importer option) option" where
  "session_register_arrow_reader env ctx opened ops fuel reader =
     (case ctx of Some e \<Rightarrow> Some (Some e, None) | None \<Rightarrow>
      (case Option.bind reader (op_schema ops) of
         None \<Rightarrow> Some (Some (Plain ''datafusion arrow reader or schema is nil''), None)
       | Some sch \<Rightarrow> (case opened of
             Some e \<Rightarrow> Some (Some e, None)
           | None \<Rightarrow> map_option (\<lambda>(res, im). (res, Some (import_close im)))
               (import_arrow_reader env ops fuel (the reader) \<lparr>im_open = True, im_chunks = [], im_committed = False\<rparr>))))"

subsection \<open>Executing\<close>

text \<open>
  \<open>prepare\<close> is the operation of the connection or of the statement.  \<^verbatim>\<open>execResult\<close> and \<^verbatim>\<open>queryRows\<close> read and
  close the result they are given, here the entry of the query in the table of results.
\<close>

definition exec_context ::
  "param_env \<Rightarrow> go_error option \<Rightarrow> named_value list \<Rightarrow> go_error + query_operation \<Rightarrow> go_error option \<Rightarrow> select_choice \<Rightarrow>
   (named_value list \<Rightarrow> go_error + arrow_reader) \<Rightarrow> go_error option \<Rightarrow> query_world \<Rightarrow> ((go_error + int64) \<times> query_world) option" where
  "exec_context env ctx args prepare ctx2 choice execute closed w =
     (case run_arrow_query env ctx args prepare ctx2 choice execute w of
        None \<Rightarrow> None
      | Some (Inl e, w1) \<Rightarrow> Some (Inl e, w1)
      | Some (Inr i, w1) \<Rightarrow> (case qw_results w1 i of
            None \<Rightarrow> None
          | Some r \<Rightarrow> (case exec_loop (sr_reader r) 0 None of (res, rd) \<Rightarrow>
              map_option (\<lambda>(e, w2). (res, w2))
                (result_close closed i (w1\<lparr>qw_results := (qw_results w1)(i \<mapsto> r\<lparr>sr_reader := rd\<rparr>)\<rparr>)))))"

definition query_context ::
  "arrow_env \<Rightarrow> param_env \<Rightarrow> go_error option \<Rightarrow> named_value list \<Rightarrow> go_error + query_operation \<Rightarrow> go_error option \<Rightarrow> select_choice \<Rightarrow>
   (named_value list \<Rightarrow> go_error + arrow_reader) \<Rightarrow> go_error option \<Rightarrow> query_world \<Rightarrow> ((go_error + rows) \<times> query_world) option" where
  "query_context aenv env ctx args prepare ctx2 choice execute closed w =
     (case run_arrow_query env ctx args prepare ctx2 choice execute w of
        None \<Rightarrow> None
      | Some (Inl e, w1) \<Rightarrow> Some (Inl e, w1)
      | Some (Inr i, w1) \<Rightarrow> (case qw_results w1 i of
            None \<Rightarrow> None
          | Some r \<Rightarrow> (case fst (query_rows aenv (sr_reader r)) of
                Inr rows \<Rightarrow> Some (Inr rows, w1)
              | Inl e \<Rightarrow> map_option (\<lambda>(_, w2). (Inl e, w2)) (result_close closed i w1))))"

text \<open>What \<^verbatim>\<open>prepareOperation\<close> tells a query: a connection's own temporary statement, or a prepared one.\<close>

definition operation_connector :: "nat \<Rightarrow> world \<Rightarrow> (nat \<times> bool) option" where
  "operation_connector k w = map_option (\<lambda>x. (co_connector x, connector_shared (co_connector x) w)) (w_conns w k)"

definition conn_operation :: "nat \<Rightarrow> bool \<Rightarrow> world \<Rightarrow> query_operation" where
  "conn_operation k serializes w =
     \<lparr>qo_connector = operation_connector k w, qo_connection = k, qo_serializes = serializes, qo_closes = True\<rparr>"

definition stmt_operation :: "nat \<Rightarrow> stmt \<Rightarrow> world \<Rightarrow> query_operation" where
  "stmt_operation j s w =
     \<lparr>qo_connector = operation_connector (st_conn s) w, qo_connection = st_conn s, qo_serializes = stmt_serializes j w,
      qo_closes = False\<rparr>"

text \<open>A session converts its arguments first; a statement without named arguments numbers them.\<close>

definition session_exec_context ::
  "param_env \<Rightarrow> go_error option \<Rightarrow> query_arg list \<Rightarrow> go_error + query_operation \<Rightarrow> go_error option \<Rightarrow> select_choice \<Rightarrow>
   (named_value list \<Rightarrow> go_error + arrow_reader) \<Rightarrow> go_error option \<Rightarrow> query_world \<Rightarrow> ((go_error + int64) \<times> query_world) option" where
  "session_exec_context env ctx args prepare ctx2 choice execute closed w =
     (case named_values env args of
        Inl e \<Rightarrow> Some (Inl e, w)
      | Inr named \<Rightarrow> exec_context env ctx named prepare ctx2 choice execute closed w)"

definition session_query_arrow_context ::
  "param_env \<Rightarrow> go_error option \<Rightarrow> query_arg list \<Rightarrow> go_error + query_operation \<Rightarrow> go_error option \<Rightarrow> select_choice \<Rightarrow>
   (named_value list \<Rightarrow> go_error + arrow_reader) \<Rightarrow> query_world \<Rightarrow> ((go_error + nat) \<times> query_world) option" where
  "session_query_arrow_context env ctx args prepare ctx2 choice execute w =
     (case named_values env args of
        Inl e \<Rightarrow> Some (Inl e, w)
      | Inr named \<Rightarrow> run_arrow_query env ctx named prepare ctx2 choice execute w)"

definition stmt_exec ::
  "param_env \<Rightarrow> go_value list \<Rightarrow> go_error + query_operation \<Rightarrow> select_choice \<Rightarrow>
   (named_value list \<Rightarrow> go_error + arrow_reader) \<Rightarrow> go_error option \<Rightarrow> query_world \<Rightarrow> ((go_error + int64) \<times> query_world) option" where
  "stmt_exec env args prepare choice execute closed w =
     exec_context env None (positional_named_values args) prepare None choice execute closed w"

definition stmt_query ::
  "arrow_env \<Rightarrow> param_env \<Rightarrow> go_value list \<Rightarrow> go_error + query_operation \<Rightarrow> select_choice \<Rightarrow>
   (named_value list \<Rightarrow> go_error + arrow_reader) \<Rightarrow> go_error option \<Rightarrow> query_world \<Rightarrow> ((go_error + rows) \<times> query_world) option" where
  "stmt_query aenv env args prepare choice execute closed w =
     query_context aenv env None (positional_named_values args) prepare None choice execute closed w"

text \<open>The methods of a connection with a background context, and the queries of a connection.\<close>

definition conn_prepare :: "native_answer \<Rightarrow> int \<Rightarrow> bool \<Rightarrow> nat \<Rightarrow> string \<Rightarrow> world \<Rightarrow> (go_error + nat) \<times> world" where
  "conn_prepare ans num_input serializes k query w = prepare_context None ans num_input serializes k query w"

definition conn_begin :: "nat \<Rightarrow> world \<Rightarrow> go_error" where
  "conn_begin k w = conn_begin_tx None k w"

definition conn_check_named_value :: "param_env \<Rightarrow> named_value \<Rightarrow> go_error + named_value" where
  "conn_check_named_value env nv = check_named_value env nv"

definition conn_query_arrow_context ::
  "param_env \<Rightarrow> go_error option \<Rightarrow> named_value list \<Rightarrow> go_error + query_operation \<Rightarrow> go_error option \<Rightarrow> select_choice \<Rightarrow>
   (named_value list \<Rightarrow> go_error + arrow_reader) \<Rightarrow> query_world \<Rightarrow> ((go_error + nat) \<times> query_world) option" where
  "conn_query_arrow_context env ctx args prepare ctx2 choice execute w = run_arrow_query env ctx args prepare ctx2 choice execute w"

definition conn_query_context ::
  "arrow_env \<Rightarrow> param_env \<Rightarrow> go_error option \<Rightarrow> named_value list \<Rightarrow> go_error + query_operation \<Rightarrow> go_error option \<Rightarrow> select_choice \<Rightarrow>
   (named_value list \<Rightarrow> go_error + arrow_reader) \<Rightarrow> go_error option \<Rightarrow> query_world \<Rightarrow> ((go_error + rows) \<times> query_world) option" where
  "conn_query_context aenv env ctx args prepare ctx2 choice execute closed w =
     query_context aenv env ctx args prepare ctx2 choice execute closed w"

text \<open>
  The package's functions over a \<^verbatim>\<open>*sql.Conn\<close>, which hands out its driver connection or fails.  A reader registered
  without a copy is exported by the native call, which answers \<open>answer\<close>.
\<close>

definition query_arrow_context ::
  "param_env \<Rightarrow> go_error option \<Rightarrow> raw_conn \<Rightarrow> query_arg list \<Rightarrow> go_error + query_operation \<Rightarrow> go_error option \<Rightarrow> select_choice \<Rightarrow>
   (named_value list \<Rightarrow> go_error + arrow_reader) \<Rightarrow> query_world \<Rightarrow> ((go_error + nat) \<times> query_world) option" where
  "query_arrow_context env ctx raw args prepare ctx2 choice execute w =
     (case named_values env args of
        Inl e \<Rightarrow> Some (Inl e, w)
      | Inr named \<Rightarrow> (case raw of
            RawError e \<Rightarrow> Some (Inl e, w)
          | RawOther t \<Rightarrow> Some (Inl (Plain (''not a datafusion driver connection: '' @ t)), w)
          | RawConn k \<Rightarrow> conn_query_arrow_context env ctx named prepare ctx2 choice execute w))"

definition register_stream_native :: "go_error option \<Rightarrow> string \<Rightarrow> nat \<Rightarrow> world \<Rightarrow> (go_error + unit) \<times> world" where
  "register_stream_native answer name n w =
     ((if n \<notin> w_live w then Inl native_connection_closed
       else (case check_no_nul_byte name ''table name'' of
           Some e \<Rightarrow> Inl e
         | None \<Rightarrow> (case answer of Some e \<Rightarrow> Inl e | None \<Rightarrow> Inr ()))), w)"

definition register_arrow_reader_zero_copy ::
  "go_error option \<Rightarrow> go_error option \<Rightarrow> go_error option \<Rightarrow> raw_conn option \<Rightarrow> string \<Rightarrow> 's reader_ops \<Rightarrow> 's option \<Rightarrow> world \<Rightarrow>
   (go_error + unit) \<times> world" where
  "register_arrow_reader_zero_copy ctx ctx2 answer raw name ops reader w =
     (case validate_arrow_registration ctx (raw \<noteq> None) name ops reader of
        Some e \<Rightarrow> (Inl e, w)
      | None \<Rightarrow> with_datafusion_conn (the raw) (\<lambda>k w.
            case ctx2 of Some e \<Rightarrow> (Inl e, w) | None \<Rightarrow> with_native k (register_stream_native answer name) w) w)"

text \<open>A registration without a copy succeeds only with a reader that has a schema, a usable name and an open connection.\<close>

lemma zero_copy_guarded:
  assumes "register_arrow_reader_zero_copy ctx ctx2 answer raw name ops reader w = (Inr u, v)"
  shows "v = w \<and> ctx = None \<and> ctx2 = None \<and> answer = None \<and> name \<noteq> [] \<and> CHR 0x00 \<notin> set name \<and>
    (\<exists>s. reader = Some s \<and> op_schema ops s \<noteq> None) \<and>
    (\<exists>k x n. raw = Some (RawConn k) \<and> w_conns w k = Some x \<and> \<not> co_closed x \<and> co_native x = Some n \<and> n \<in> w_live w)"
  using assms
  by (auto simp: register_arrow_reader_zero_copy_def validate_arrow_registration_def with_datafusion_conn_def with_native_def
      register_stream_native_def check_no_nul_byte_def split: option.splits if_splits raw_conn.splits)

text \<open>
  The registrations of \<^verbatim>\<open>extensions.go\<close> over a \<^verbatim>\<open>*sql.Conn\<close>, nil or not, and over a session.  The table comes with
  the call that registered it; only the handle is the caller's.
\<close>

definition register_raw ::
  "raw_conn option \<Rightarrow> (nat \<Rightarrow> locks \<Rightarrow> world \<Rightarrow> ((go_error + 'a) \<times> locks \<times> world) option) \<Rightarrow> locks \<Rightarrow> world \<Rightarrow>
   ((go_error + 'a) \<times> locks \<times> world) option" where
  "register_raw raw f held w =
     (case raw of
        None \<Rightarrow> Some (Inl (Plain ''datafusion sql connection is nil''), held, w)
      | Some (RawError e) \<Rightarrow> Some (Inl e, held, w)
      | Some (RawOther t) \<Rightarrow> Some (Inl (Plain (''not a datafusion driver connection: '' @ t)), held, w)
      | Some (RawConn k) \<Rightarrow> f k held w)"

definition register_table_provider_raw ::
  "registration_context \<Rightarrow> go_error option \<Rightarrow> raw_conn option \<Rightarrow> string \<Rightarrow> provider_value \<Rightarrow> locks \<Rightarrow> world \<Rightarrow>
   ((go_error + (registered_table \<times> extension_call)) \<times> locks \<times> world) option" where
  "register_table_provider_raw rc answer raw name p held w =
     map_option (\<lambda>(res, rest). (map_sum id (Pair \<lparr>rt_name = name, rt_done = False\<rparr>) res, rest))
       (register_raw raw (\<lambda>k. register_provider rc answer k name p) held w)"

definition register_scalar_function_raw ::
  "registration_context \<Rightarrow> go_error option \<Rightarrow> raw_conn option \<Rightarrow> scalar_function \<Rightarrow> locks \<Rightarrow> world \<Rightarrow>
   ((go_error + extension_call) \<times> locks \<times> world) option" where
  "register_scalar_function_raw rc answer raw f = register_raw raw (\<lambda>k. register_scalar_function rc answer k f)"

definition register_catalog_raw ::
  "registration_context \<Rightarrow> go_error option \<Rightarrow> raw_conn option \<Rightarrow> string \<Rightarrow> bool option \<Rightarrow> locks \<Rightarrow> world \<Rightarrow>
   ((go_error + extension_call) \<times> locks \<times> world) option" where
  "register_catalog_raw rc answer raw name c = register_raw raw (\<lambda>k. register_catalog rc answer k name c)"

definition session_register_table_provider ::
  "registration_context \<Rightarrow> go_error option \<Rightarrow> session \<Rightarrow> string \<Rightarrow> provider_value \<Rightarrow> locks \<Rightarrow> world \<Rightarrow>
   ((go_error + extension_call) \<times> locks \<times> world) option" where
  "session_register_table_provider rc answer s = register_provider rc answer (se_conn s)"

definition session_register_scalar_function ::
  "registration_context \<Rightarrow> go_error option \<Rightarrow> session \<Rightarrow> scalar_function \<Rightarrow> locks \<Rightarrow> world \<Rightarrow>
   ((go_error + extension_call) \<times> locks \<times> world) option" where
  "session_register_scalar_function rc answer s = register_scalar_function rc answer (se_conn s)"

definition session_register_catalog ::
  "registration_context \<Rightarrow> go_error option \<Rightarrow> session \<Rightarrow> string \<Rightarrow> bool option \<Rightarrow> locks \<Rightarrow> world \<Rightarrow>
   ((go_error + extension_call) \<times> locks \<times> world) option" where
  "session_register_catalog rc answer s = register_catalog rc answer (se_conn s)"

definition registered_table_name :: "registered_table \<Rightarrow> string" where
  "registered_table_name t = rt_name t"

lemma map_sum_Inr: "map_sum f g x = Inr y \<longleftrightarrow> (\<exists>z. x = Inr z \<and> y = g z)"
  by (cases x) auto

text \<open>A table registered over a \<^verbatim>\<open>*sql.Conn\<close> reached the native library under the name of its handle, which its first
  \<^verbatim>\<open>Deregister\<close> then removes from a connection that is still open.\<close>

lemma register_provider_call:
  assumes "register_provider rc answer k name p held w = Some (Inr call, h, v)"
  shows "v = w \<and> h = held \<and> reaches_native k w (ec_native call) \<and> ec_name call = name \<and> CHR 0x00 \<notin> set name"
  using assms with_extension_call
  by (fastforce simp: register_provider_def split: option.splits provider_value.splits)

lemma registered_table_deregisters:
  assumes "register_table_provider_raw rc answer raw name p held w = Some (Inr (t, call), h, v)"
  shows "v = w \<and> h = held \<and> registered_table_name t = name \<and> ec_name call = name \<and>
    (\<exists>k. raw = Some (RawConn k) \<and> reaches_native k w (ec_native call) \<and>
       deregister None None (RawConn k) t v = (None, True, t\<lparr>rt_done := True\<rparr>, v))"
proof -
  obtain k where k: "raw = Some (RawConn k)" "register_provider rc answer k name p held w = Some (Inr call, h, v)"
    and t: "t = \<lparr>rt_name = name, rt_done = False\<rparr>"
    using assms by (auto simp: register_table_provider_raw_def register_raw_def map_sum_Inr
        split: option.splits raw_conn.splits)
  from register_provider_call [OF k(2)] k(1) t show ?thesis
    by (auto simp: registered_table_name_def reaches_native_def deregister_def with_datafusion_conn_def with_native_def
        deregister_table_native_def check_no_nul_byte_def conn_is_valid_def split: option.splits)
qed

text \<open>A query over a \<^verbatim>\<open>*sql.Conn\<close> that fails leaves the locks, statements and results as they were.\<close>

lemma query_arrow_context_fails:
  assumes "query_reachable w" "query_arrow_context env ctx raw args prepare ctx2 choice execute w = Some (Inl e, v)"
  shows "qw_held v = qw_held w \<and> qw_temps v = qw_temps w \<and> qw_queries v = qw_queries w \<and> qw_results v = qw_results w"
proof (cases "v = w")
  case False
  then obtain named where "run_arrow_query env ctx named prepare ctx2 choice execute w = Some (Inl e, v)"
    using assms(2) by (auto simp: query_arrow_context_def conn_query_arrow_context_def split: sum.splits raw_conn.splits)
  from run_arrow_query_cases [OF query_inv_reachable [OF assms(1)] this] show ?thesis by auto
qed simp

subsection \<open>A failed opening leaves nothing, a closed session leaves nothing\<close>

lemma connect_without_init:
  assumes "w_connectors w c = Some \<lparr>cn_db = db, cn_has_init = False, cn_shared = sh, cn_closed = False, cn_initialized = i\<rparr>"
    and "db \<in> w_live w" "connector_connect None ans lock ctx2 init c w = (res, v)"
  shows "(\<exists>e. res = Inl e \<and> v = w) \<or>
    (res = Inr (w_next w + 1) \<and> w_live v = insert (w_next w) (w_live w) \<and> w_connectors v = w_connectors w \<and>
     w_conns v = (w_conns w)(w_next w + 1 \<mapsto>
       \<lparr>co_native = Some (w_next w), co_connector = c, co_owns = False, co_closed = False, co_stmts = []\<rparr>))"
  using assms
  by (cases ans) (auto simp: connector_connect_def connect_begin_def connect_native_def database_connect_def native_alloc_def
      new_conn_def connector_has_init_def)


lemma new_connector_opened:
  assumes "new_connector_with_init_context native dsn False options w = (res, v)"
  shows "(\<exists>e. res = Inl e \<and> v = w) \<or>
    (\<exists>sh. res = Inr (w_next w + 1) \<and> w_next v = w_next w + 2 \<and> w_live v = insert (w_next w) (w_live w) \<and> w_conns v = w_conns w \<and>
      w_stmts v = w_stmts w \<and> w_connectors v = (w_connectors w)(w_next w + 1 \<mapsto>
        \<lparr>cn_db = w_next w, cn_has_init = False, cn_shared = sh, cn_closed = False, cn_initialized = False\<rparr>))"
  using assms
  by (auto simp: new_connector_with_init_context_def new_connector_def native_alloc_def Let_def
      split: sum.splits prod.splits native_answer.splits)

text \<open>Both openings, of a session and of a connection that owns its connector.\<close>

lemma opened_cases:
  assumes w: "reachable w" and c: "new_connector_with_init_context native dsn False options w = (Inr c, w1)"
    and k: "connector_connect None ans None None None c w1 = (res, w2)"
  shows "case res of
      Inl e \<Rightarrow> w_live (connector_close c w2) = w_live w
    | Inr k \<Rightarrow> \<exists>x. w_conns w2 k = Some x \<and> co_connector x = c \<and>
        w_live (connector_close c (conn_close k w2)) = w_live w \<and>
        w_live (conn_close k (w2\<lparr>w_conns := (w_conns w2)(k \<mapsto> x\<lparr>co_owns := True\<rparr>)\<rparr>)) = w_live w"
proof -
  let ?n = "w_next w"
  have "owned w" using reachable_owned [OF w] .
  then have "m < ?n" if "m \<in> w_live w" for m using that unfolding owned_def ledger_def by blast
  then have fresh: "?n \<notin> w_live w" "?n + 2 \<notin> w_live w" by fastforce+
  obtain sh where v: "c = ?n + 1" "w_next w1 = ?n + 2" "w_live w1 = insert ?n (w_live w)" "w_conns w1 = w_conns w"
    "w_connectors w1 = (w_connectors w)(?n + 1 \<mapsto>
        \<lparr>cn_db = ?n, cn_has_init = False, cn_shared = sh, cn_closed = False, cn_initialized = False\<rparr>)"
    using new_connector_opened [OF c] by auto
  have "w_connectors w1 c = Some \<lparr>cn_db = ?n, cn_has_init = False, cn_shared = sh, cn_closed = False, cn_initialized = False\<rparr>"
    "?n \<in> w_live w1" by (simp_all add: v)
  from connect_without_init [OF this k] show ?thesis
  proof (elim disjE exE conjE)
    fix e assume "res = Inl e" "w2 = w1"
    then show ?thesis using v fresh by (simp add: connector_close_def native_close_def)
  next
    assume r: "res = Inr (w_next w1 + 1)" and l: "w_live w2 = insert (w_next w1) (w_live w1)" "w_connectors w2 = w_connectors w1"
      "w_conns w2 = (w_conns w1)(w_next w1 + 1 \<mapsto>
       \<lparr>co_native = Some (w_next w1), co_connector = c, co_owns = False, co_closed = False, co_stmts = []\<rparr>)"
    then show ?thesis using v fresh
      by (auto simp: connector_close_def native_close_def conn_close_def invalidate_statements_def Let_def)
  qed
qed

text \<open>C17: Opening a session or a connection, in whatever state the program is, either fails and leaves the set of live
  native handles as it was, or closing what was opened takes that set back: the database of a connector whose connection
  failed is closed, and a closed session or a connection that owns its connector keeps neither handle.\<close>

theorem opening_leaves_no_handle:
  assumes "reachable w"
  shows "(case new_session native ans dsn options w of
        (Inl e, v) \<Rightarrow> w_live v = w_live w
      | (Inr s, v) \<Rightarrow> w_live (session_close s v) = w_live w) \<and>
    (case driver_open native ans dsn w of
        (Inl e, v) \<Rightarrow> w_live v = w_live w
      | (Inr k, v) \<Rightarrow> w_live (conn_close k v) = w_live w)"
proof -
  have *: "case new_session native ans dsn options w of
        (Inl e, v) \<Rightarrow> w_live v = w_live w
      | (Inr s, v) \<Rightarrow> w_live (session_close s v) = w_live w" for options
  proof -
    obtain c w1 where c: "new_connector_with_init_context native dsn False options w = (c, w1)" by fastforce
    show ?thesis
    proof (cases c)
      case (Inl e)
      with c new_connector_opened [OF c] show ?thesis by (auto simp: new_session_def)
    next
      case (Inr m)
      obtain res w2 where k: "connector_connect None ans None None None m w1 = (res, w2)" by fastforce
      from opened_cases [OF assms c [unfolded Inr] k] c Inr k show ?thesis
        by (auto simp: new_session_def session_close_def split: sum.splits)
    qed
  qed
  have "case driver_open native ans dsn w of
        (Inl e, v) \<Rightarrow> w_live v = w_live w
      | (Inr k, v) \<Rightarrow> w_live (conn_close k v) = w_live w"
  proof -
    obtain c w1 where c: "new_connector_with_init_context native dsn False [] w = (c, w1)" by fastforce
    show ?thesis
    proof (cases c)
      case (Inl e)
      with c new_connector_opened [OF c] show ?thesis by (auto simp: driver_open_def new_connector_fn_def)
    next
      case (Inr m)
      obtain res w2 where k: "connector_connect None ans None None None m w1 = (res, w2)" by fastforce
      from opened_cases [OF assms c [unfolded Inr] k] c Inr k show ?thesis
        by (auto simp: driver_open_def new_connector_fn_def split: sum.splits)
    qed
  qed
  with * [of options] show ?thesis by simp
qed

subsection \<open>An executed statement leaves nothing\<close>

text \<open>C8: \<^verbatim>\<open>ExecContext\<close> of a connection or a statement blocks only where its query does, and otherwise leaves locks,
  temporary statements and queries in progress as it found them, on every path.  When the native execution succeeds, its
  answer is the affected-rows result of that execution's reader, which has been read and closed once.\<close>

theorem exec_context_leaves_no_trace:
  assumes "query_reachable w"
  shows "case exec_context env ctx args prepare ctx2 choice execute closed w of
      None \<Rightarrow> run_arrow_query env ctx args prepare ctx2 choice execute w = None
    | Some (res, v) \<Rightarrow>
        qw_held v = qw_held w \<and> qw_temps v = qw_temps w \<and> qw_queries v = qw_queries w \<and>
        (qw_results v = qw_results w \<and> isl res \<or>
         (\<exists>named r q. normalize_named_value_slice env args = Inr named \<and> execute named = Inr r \<and> res = fst (exec_result r) \<and>
            qw_results v = (qw_results w)(qw_next w \<mapsto> q) \<and> sr_reader q = snd (exec_result r) \<and>
            rd_closes (sr_reader q) = rd_closes r + 1))"
proof -
  have w: "query_inv w" by (rule query_inv_reachable [OF assms])
  show ?thesis
  proof (cases "run_arrow_query env ctx args prepare ctx2 choice execute w")
    case None
    then show ?thesis by (simp add: exec_context_def)
  next
    case (Some a)
    obtain res v where a: "a = (res, v)" by fastforce
    from run_arrow_query_cases [OF w Some [unfolded a]] show ?thesis
    proof (elim disjE exE conjE)
      fix e assume "res = Inl e" "qw_held v = qw_held w" "qw_temps v = qw_temps w" "qw_queries v = qw_queries w" "qw_results v = qw_results w"
      with Some a show ?thesis by (simp add: exec_context_def)
    next
      fix op named r held
      assume r: "normalize_named_value_slice env args = Inr named" "execute named = Inr r" "res = Inr (qw_next w)"
        and v: "qw_temps v = qw_temps w" "qw_queries v = qw_queries w" "qw_held v = held"
          "qw_results v = (qw_results w)(qw_next w \<mapsto> new_serialized_reader r (operation_lock op))"
        and h: "case operation_lock op of None \<Rightarrow> held = qw_held w | Some l \<Rightarrow> \<not> qw_held w l \<and> held = (qw_held w)(l := True)"
      obtain m rd where l: "exec_loop r 0 None = (m, rd)" by fastforce
      have run: "run_arrow_query env ctx args prepare ctx2 choice execute w = Some (Inr (qw_next w), v)" using Some a r(3) by simp
      have "\<exists>v2 q. exec_context env ctx args prepare ctx2 choice execute closed w = Some (m, v2) \<and>
          qw_held v2 = qw_held w \<and> qw_temps v2 = qw_temps w \<and> qw_queries v2 = qw_queries w \<and>
          qw_results v2 = (qw_results w)(qw_next w \<mapsto> q) \<and> sr_reader q = close_reader rd"
      proof (cases "operation_lock op")
        case None
        with run v h l show ?thesis
          by (auto simp: exec_context_def new_serialized_reader_def result_close_def serialized_close_def)
      next
        case (Some lk)
        with run v h l show ?thesis
          by (auto simp: exec_context_def new_serialized_reader_def result_close_def serialized_close_def
              release_lock_def mutex_unlock_def fun_upd_idem)
      qed
      then show ?thesis using r(1,2) l exec_result_ownership [of r] by (auto simp: exec_result_def)
    qed
  qed
qed

text \<open>Serializing operations exclude each other per session: through one lock of the connector when its connections
  share a session, through one lock of each connection otherwise.  A registration takes the same lock.\<close>

lemma operation_lock_session:
  assumes "w_conns w k = Some x"
  shows "operation_lock (conn_operation k serializes w) = (if serializes then Some (extension_lock k w) else None)"
  using assms
  by (simp add: operation_lock_def conn_operation_def operation_connector_def isolated_connector_def extension_lock_def)

lemma stmt_operation_lock:
  assumes "w_conns w (st_conn s) = Some x"
  shows "operation_lock (stmt_operation j s w) = (if stmt_serializes j w then Some (extension_lock (st_conn s) w) else None)"
  using assms
  by (simp add: operation_lock_def stmt_operation_def operation_connector_def isolated_connector_def extension_lock_def)

subsection \<open>Samples\<close>

lemma sample_dsn: "\<exists>sh. connector_dsn [] [] = Inr ([], sh)"
  by code_simp

theorem opening_leaves_no_handle_witness:
  "case new_session (\<lambda>d. AnswerOk) AnswerOk [] [] init_world of
     (Inl e, v) \<Rightarrow> False
   | (Inr s, v) \<Rightarrow> w_live v = {0, 2} \<and> w_live (session_close s v) = {}"
proof -
  obtain sh where "connector_dsn [] [] = Inr ([], sh)" using sample_dsn by blast
  then have "\<exists>s v. new_session (\<lambda>d. AnswerOk) AnswerOk [] [] init_world = (Inr s, v) \<and> w_live v = {0, 2}"
    by (auto simp: new_session_def new_connector_with_init_context_def new_connector_def native_alloc_def connector_connect_def
        connect_begin_def connect_native_def database_connect_def new_conn_def connector_has_init_def init_world_def)
  then obtain s v where n: "new_session (\<lambda>d. AnswerOk) AnswerOk [] [] init_world = (Inr s, v)" "w_live v = {0, 2}" by blast
  from opening_leaves_no_handle [OF reachable.start, of "\<lambda>d. AnswerOk" AnswerOk "[]" "[]"] n
  show ?thesis by (simp add: init_world_def)
qed

theorem exec_context_leaves_no_trace_witness:
  "\<exists>v. exec_context sample_param_env None [] (Inr sample_operation) None (SelectSend None) (\<lambda>named. Inr sample_reader) None query_start =
      Some (fst (exec_result sample_reader), v) \<and> qw_held v = qw_held query_start"
proof -
  obtain m rd where l: "exec_loop sample_reader 0 None = (m, rd)" by fastforce
  have "\<exists>res v. exec_context sample_param_env None [] (Inr sample_operation) None (SelectSend None) (\<lambda>named. Inr sample_reader) None query_start =
      Some (res, v) \<and> qw_results v \<noteq> qw_results query_start"
    by (simp add: exec_context_def run_arrow_query_def query_begin_def normalize_empty query_lock_def acquire_lock_def
        isolated_connector_def lock_serialized_statement_def lock_at_def mutex_lock_def sample_operation_def query_start_def
        query_execute_def execute_native_statement_def new_serialized_reader_def l result_close_def serialized_close_def
        release_lock_def mutex_unlock_def query_end_def fun_eq_iff)
  then obtain res v where e: "exec_context sample_param_env None [] (Inr sample_operation) None (SelectSend None) (\<lambda>named. Inr sample_reader) None
      query_start = Some (res, v)" "qw_results v \<noteq> qw_results query_start" by blast
  from exec_context_leaves_no_trace [OF query_reachable.start, of sample_param_env None "[]" "Inr sample_operation" None "SelectSend None"
    "\<lambda>named. Inr sample_reader" None] e show ?thesis by auto
qed

end
