(* ===== verification/Conformance.thy ===== *)
theory Conformance
  imports GoJson GoText
begin

text \<open>
  The corpus of query fixtures the test runners share (\<^verbatim>\<open>internal/conformance/corpus.go\<close>).  The file system is
  an argument: what \<^verbatim>\<open>fs.Glob\<close> and \<^verbatim>\<open>Open\<close> answer and, of a file, the JSON values its decoder finds, how the
  text ends after them (\<open>None\<close> for the end of the file, else the error of reading or of syntax) and what \<^verbatim>\<open>Close\<close>
  answers.  The decoder disallows unknown fields.  Opening and closing are logged.
\<close>

subsection \<open>Cases\<close>

record fixture_parameter =
  fp_name :: string
  fp_type :: string
  fp_value :: string

record fixture_column =
  fc_name :: string
  fc_type :: string
  fc_nullable :: bool
  fc_sql_type :: string
  fc_precision :: int
  fc_scale :: int

record fixture_case =
  fx_name :: string
  fx_sql :: string
  fx_native_sql :: string
  fx_setup :: "string list"
  fx_parameters :: "fixture_parameter list"
  fx_columns :: "fixture_column list"
  fx_rows :: "string option list list"
  fx_error :: string
  fx_sqlite :: bool

definition zero_parameter :: fixture_parameter where
  "zero_parameter = \<lparr>fp_name = [], fp_type = [], fp_value = []\<rparr>"

definition zero_fixture_column :: fixture_column where
  "zero_fixture_column = \<lparr>fc_name = [], fc_type = [], fc_nullable = False, fc_sql_type = [], fc_precision = 0, fc_scale = 0\<rparr>"

definition zero_case :: fixture_case where
  "zero_case = \<lparr>fx_name = [], fx_sql = [], fx_native_sql = [], fx_setup = [], fx_parameters = [], fx_columns = [],
     fx_rows = [], fx_error = [], fx_sqlite = False\<rparr>"

subsection \<open>Decoding\<close>

text \<open>\<^verbatim>\<open>DisallowUnknownFields\<close>: a member without a field is an error at every level.\<close>

definition unknown_field :: "string \<Rightarrow> go_error" where
  "unknown_field k = Plain (''json: unknown field '' @ go_quote k)"

fun strict_members :: "'a json_fields \<Rightarrow> (string \<times> json) list \<Rightarrow> 'a \<Rightarrow> go_error + 'a" where
  "strict_members flds [] a = Inr a"
| "strict_members flds ((k, v) # ms) a =
     (case find_field flds k of
        None \<Rightarrow> Inl (unknown_field k)
      | Some d \<Rightarrow> rbind (d v a) (strict_members flds ms))"

definition strict_struct :: "'a json_fields \<Rightarrow> json \<Rightarrow> 'a \<Rightarrow> go_error + 'a" where
  "strict_struct flds j a =
     (case j of JObj ms \<Rightarrow> strict_members flds ms a | JNull \<Rightarrow> Inr a | _ \<Rightarrow> Inl type_mismatch)"

text \<open>Into a \<^verbatim>\<open>*string\<close>: null is the nil pointer.\<close>

definition json_string_ptr :: "json \<Rightarrow> string option \<Rightarrow> go_error + string option" where
  "json_string_ptr j old =
     (case j of JNull \<Rightarrow> Inr None
      | _ \<Rightarrow> rbind (json_string j (case old of None \<Rightarrow> [] | Some s \<Rightarrow> s)) (\<lambda>s. Inr (Some s)))"

definition fixture_parameter_fields :: "fixture_parameter json_fields" where
  "fixture_parameter_fields =
     [(''name'', \<lambda>j p. rbind (json_string j (fp_name p)) (\<lambda>s. Inr (p\<lparr>fp_name := s\<rparr>))),
      (''type'', \<lambda>j p. rbind (json_string j (fp_type p)) (\<lambda>s. Inr (p\<lparr>fp_type := s\<rparr>))),
      (''value'', \<lambda>j p. rbind (json_string j (fp_value p)) (\<lambda>s. Inr (p\<lparr>fp_value := s\<rparr>)))]"

definition fixture_column_fields :: "fixture_column json_fields" where
  "fixture_column_fields =
     [(''name'', \<lambda>j c. rbind (json_string j (fc_name c)) (\<lambda>s. Inr (c\<lparr>fc_name := s\<rparr>))),
      (''type'', \<lambda>j c. rbind (json_string j (fc_type c)) (\<lambda>s. Inr (c\<lparr>fc_type := s\<rparr>))),
      (''nullable'', \<lambda>j c. rbind (json_bool j (fc_nullable c)) (\<lambda>b. Inr (c\<lparr>fc_nullable := b\<rparr>))),
      (''sql_type'', \<lambda>j c. rbind (json_string j (fc_sql_type c)) (\<lambda>s. Inr (c\<lparr>fc_sql_type := s\<rparr>))),
      (''precision'', \<lambda>j c. rbind (json_int 64 j (fc_precision c)) (\<lambda>i. Inr (c\<lparr>fc_precision := i\<rparr>))),
      (''scale'', \<lambda>j c. rbind (json_int 64 j (fc_scale c)) (\<lambda>i. Inr (c\<lparr>fc_scale := i\<rparr>)))]"

definition fixture_case_fields :: "fixture_case json_fields" where
  "fixture_case_fields =
     [(''name'', \<lambda>j c. rbind (json_string j (fx_name c)) (\<lambda>s. Inr (c\<lparr>fx_name := s\<rparr>))),
      (''sql'', \<lambda>j c. rbind (json_string j (fx_sql c)) (\<lambda>s. Inr (c\<lparr>fx_sql := s\<rparr>))),
      (''native_sql'', \<lambda>j c. rbind (json_string j (fx_native_sql c)) (\<lambda>s. Inr (c\<lparr>fx_native_sql := s\<rparr>))),
      (''setup'', \<lambda>j c. rbind (json_slice json_string [] j (fx_setup c)) (\<lambda>xs. Inr (c\<lparr>fx_setup := xs\<rparr>))),
      (''parameters'', \<lambda>j c. rbind (json_slice (strict_struct fixture_parameter_fields) zero_parameter j (fx_parameters c))
         (\<lambda>xs. Inr (c\<lparr>fx_parameters := xs\<rparr>))),
      (''columns'', \<lambda>j c. rbind (json_slice (strict_struct fixture_column_fields) zero_fixture_column j (fx_columns c))
         (\<lambda>xs. Inr (c\<lparr>fx_columns := xs\<rparr>))),
      (''rows'', \<lambda>j c. rbind (json_slice (json_slice json_string_ptr None) [] j (fx_rows c))
         (\<lambda>xs. Inr (c\<lparr>fx_rows := xs\<rparr>))),
      (''error'', \<lambda>j c. rbind (json_string j (fx_error c)) (\<lambda>s. Inr (c\<lparr>fx_error := s\<rparr>))),
      (''sqlite'', \<lambda>j c. rbind (json_bool j (fx_sqlite c)) (\<lambda>b. Inr (c\<lparr>fx_sqlite := b\<rparr>)))]"

subsection \<open>Loading\<close>

record corpus_file =
  cf_values :: "json list"
  cf_end :: "go_error option"
  cf_close :: "go_error option"

record corpus_fs =
  cs_glob :: "go_error + string list"
  cs_open :: "string \<Rightarrow> go_error + corpus_file"

definition extra_error :: "string \<Rightarrow> go_error" where
  "extra_error got = Plain (''expected end of file after case array, got '' @ got)"

text \<open>The array of cases and nothing after it.\<close>

definition decode_batch :: "corpus_file \<Rightarrow> go_error + fixture_case list" where
  "decode_batch f =
     (case cf_values f of
        [] \<Rightarrow> Inl (case cf_end f of None \<Rightarrow> Sentinel IoEOF | Some e \<Rightarrow> e)
      | j # others \<Rightarrow>
          rbind (json_slice (strict_struct fixture_case_fields) zero_case j []) (\<lambda>batch.
            if others \<noteq> [] then Inl (extra_error ''<nil>'')
            else case cf_end f of None \<Rightarrow> Inr batch | Some e \<Rightarrow> Inl (extra_error (error_text e))))"

fun check_rows :: "string \<Rightarrow> fixture_case \<Rightarrow> string option list list \<Rightarrow> go_error option" where
  "check_rows path c [] = None"
| "check_rows path c (row # rows) =
     (if length row \<noteq> length (fx_columns c)
      then Some (Plain (path @ '': '' @ fx_name c @ '': row has '' @ show_nat (length row) @ '' values for '' @
        show_nat (length (fx_columns c)) @ '' columns''))
      else check_rows path c rows)"

fun check_cases :: "string \<Rightarrow> fixture_case list \<Rightarrow> string set \<Rightarrow> go_error + string set" where
  "check_cases path [] names = Inr names"
| "check_cases path (c # cs) names =
     (if fx_name c = [] \<or> fx_sql c = [] \<or> fx_name c \<in> names
      then Inl (Plain (path @ '': empty or duplicate case name, or empty SQL: '' @ go_quote (fx_name c)))
      else case check_rows path c (fx_rows c) of
        Some e \<Rightarrow> Inl e
      | None \<Rightarrow> check_cases path cs (insert (fx_name c) names))"

datatype file_event = FileOpened string | FileClosed string

fun load_files ::
  "corpus_fs \<Rightarrow> string list \<Rightarrow> fixture_case list \<Rightarrow> string set \<Rightarrow> file_event list \<Rightarrow>
   (go_error + fixture_case list) \<times> file_event list" where
  "load_files fs [] cases names log =
     ((if cases = [] then Inl (Plain ''query corpus is empty'') else Inr cases), log)"
| "load_files fs (path # paths) cases names log =
     (case cs_open fs path of
        Inl e \<Rightarrow> (Inl e, log)
      | Inr f \<Rightarrow>
          let log1 = log @ [FileOpened path, FileClosed path] in
          (case decode_batch f of
             Inl e \<Rightarrow> (Inl (Wrapped path e), log1)
           | Inr batch \<Rightarrow>
               (case cf_close f of
                  Some e \<Rightarrow> (Inl e, log1)
                | None \<Rightarrow>
                    (case check_cases path batch names of
                       Inl e \<Rightarrow> (Inl e, log1)
                     | Inr names1 \<Rightarrow> load_files fs paths (cases @ batch) names1 log1))))"

definition load_corpus :: "corpus_fs \<Rightarrow> (go_error + fixture_case list) \<times> file_event list" where
  "load_corpus fs =
     (case cs_glob fs of Inl e \<Rightarrow> (Inl e, []) | Inr paths \<Rightarrow> load_files fs paths [] {} [])"

subsection \<open>What a loaded corpus is\<close>

definition good_case :: "fixture_case \<Rightarrow> bool" where
  "good_case c \<longleftrightarrow> fx_name c \<noteq> [] \<and> fx_sql c \<noteq> [] \<and> list_all (\<lambda>row. length row = length (fx_columns c)) (fx_rows c)"

definition good_corpus :: "fixture_case list \<Rightarrow> bool" where
  "good_corpus cs \<longleftrightarrow> cs \<noteq> [] \<and> distinct (map fx_name cs) \<and> list_all good_case cs"

definition file_holds :: "corpus_fs \<Rightarrow> string \<Rightarrow> fixture_case list \<Rightarrow> bool" where
  "file_holds fs path batch \<longleftrightarrow>
     (case cs_open fs path of Inl e \<Rightarrow> False | Inr f \<Rightarrow> decode_batch f = Inr batch \<and> cf_close f = None)"

lemma check_rows_None: "check_rows path c rows = None \<longleftrightarrow> list_all (\<lambda>row. length row = length (fx_columns c)) rows"
  by (induction rows) auto

lemma check_cases_Inr:
  "check_cases path cs names = Inr names1 \<longleftrightarrow>
     names1 = names \<union> set (map fx_name cs) \<and> list_all good_case cs \<and> distinct (map fx_name cs) \<and>
     set (map fx_name cs) \<inter> names = {}"
proof (induction cs arbitrary: names)
  case (Cons c cs)
  show ?case
  proof (cases "fx_name c = [] \<or> fx_sql c = [] \<or> fx_name c \<in> names \<or> check_rows path c (fx_rows c) \<noteq> None")
    case True
    then show ?thesis by (auto simp: good_case_def check_rows_None split: option.split)
  next
    case False
    then have "check_cases path (c # cs) names = check_cases path cs (insert (fx_name c) names)" by simp
    with False show ?thesis unfolding Cons.IH by (auto simp: good_case_def check_rows_None Cons.IH)
  qed
qed auto

lemma load_files_Inr:
  "fst (load_files fs paths cases names log) = Inr cs \<longleftrightarrow>
     (\<exists>batches. list_all2 (file_holds fs) paths batches \<and> cs = cases @ concat batches \<and> cs \<noteq> [] \<and>
        list_all good_case (concat batches) \<and> distinct (map fx_name (concat batches)) \<and>
        set (map fx_name (concat batches)) \<inter> names = {})"
proof (induction paths arbitrary: cases names log)
  case Nil
  then show ?case by auto
next
  case (Cons path paths)
  show ?case
  proof (cases "\<exists>batch. file_holds fs path batch")
    case False
    then have "\<not> list_all2 (file_holds fs) (path # paths) batches" for batches by (cases batches) auto
    moreover have "fst (load_files fs (path # paths) cases names log) \<noteq> Inr cs"
      using False by (auto simp: file_holds_def Let_def split: sum.splits option.splits)
    ultimately show ?thesis by blast
  next
    case True
    then obtain batch where "file_holds fs path batch" by blast
    then obtain f where f: "cs_open fs path = Inr f" "decode_batch f = Inr batch" "cf_close f = None"
      by (cases "cs_open fs path") (auto simp: file_holds_def)
    then have holds: "file_holds fs path b \<longleftrightarrow> b = batch" for b by (auto simp: file_holds_def)
    have split_ex: "(\<exists>batches. list_all2 (file_holds fs) (path # paths) batches \<and> Q batches) \<longleftrightarrow>
        (\<exists>rest. list_all2 (file_holds fs) paths rest \<and> Q (batch # rest))" for Q
      by (auto simp: list_all2_Cons1 holds)
    show ?thesis
    proof (cases "check_cases path batch names")
      case (Inl e)
      then have "\<not> (list_all good_case batch \<and> distinct (map fx_name batch) \<and> set (map fx_name batch) \<inter> names = {})"
        using check_cases_Inr [of path batch names] by (metis Inl_Inr_False)
      with f Inl show ?thesis unfolding split_ex by auto
    next
      case (Inr names1)
      have "fst (load_files fs (path # paths) cases names log) = Inr cs \<longleftrightarrow>
          (\<exists>rest. list_all2 (file_holds fs) paths rest \<and> cs = (cases @ batch) @ concat rest \<and> cs \<noteq> [] \<and>
            list_all good_case (concat rest) \<and> distinct (map fx_name (concat rest)) \<and>
            set (map fx_name (concat rest)) \<inter> names1 = {})"
        using f Inr Cons.IH by simp
      also have "\<dots> \<longleftrightarrow> (\<exists>rest. list_all2 (file_holds fs) paths rest \<and> cs = cases @ concat (batch # rest) \<and> cs \<noteq> [] \<and>
            list_all good_case (concat (batch # rest)) \<and> distinct (map fx_name (concat (batch # rest))) \<and>
            set (map fx_name (concat (batch # rest))) \<inter> names = {})"
        by (rule ex_cong1) (use Inr [unfolded check_cases_Inr] in \<open>auto simp: Int_Un_distrib Int_Un_distrib2 Int_commute\<close>)
      finally show ?thesis unfolding split_ex .
    qed
  qed
qed

lemma load_files_log:
  "\<exists>n. snd (load_files fs paths cases names log) =
     log @ concat (map (\<lambda>p. [FileOpened p, FileClosed p]) (take n paths))"
proof (induction paths arbitrary: cases names log)
  case (Cons path paths)
  let ?ev = "\<lambda>ps. concat (map (\<lambda>p. [FileOpened p, FileClosed p]) ps)"
  have stop: "\<exists>n. log = log @ ?ev (take n (path # paths))" by (rule exI [of _ 0]) simp
  have one: "\<exists>n. log @ [FileOpened path, FileClosed path] = log @ ?ev (take n (path # paths))"
    by (rule exI [of _ 1]) simp
  have more: "\<exists>n. snd (load_files fs paths cs ns (log @ [FileOpened path, FileClosed path])) = log @ ?ev (take n (path # paths))"
    for cs ns
  proof -
    obtain n where "snd (load_files fs paths cs ns (log @ [FileOpened path, FileClosed path])) =
        (log @ [FileOpened path, FileClosed path]) @ ?ev (take n paths)" using Cons.IH by blast
    then show ?thesis by (intro exI [of _ "Suc n"]) simp
  qed
  show ?case
    using stop one more by (simp add: Let_def split: sum.split option.split)
qed simp


text \<open>A sample corpus of one file.\<close>

definition sample_corpus :: corpus_fs where
  "sample_corpus = \<lparr>cs_glob = Inr [''a.json''], cs_open = (\<lambda>p. Inr \<lparr>cf_values = [JArr [JObj
     [(''name'', JStr ''n''), (''sql'', JStr ''s''),
      (''columns'', JArr [JObj [(''name'', JStr ''c''), (''type'', JStr ''t''), (''nullable'', JBool True)]]),
      (''rows'', JArr [JArr [JNull], JArr [JStr ''v'']])]]], cf_end = None, cf_close = None\<rparr>)\<rparr>"

lemma sample_corpus_loads:
  "load_corpus sample_corpus = (Inr [zero_case\<lparr>fx_name := ''n'', fx_sql := ''s'',
     fx_columns := [zero_fixture_column\<lparr>fc_name := ''c'', fc_type := ''t'', fc_nullable := True\<rparr>],
     fx_rows := [[None], [Some ''v'']]\<rparr>], [FileOpened ''a.json'', FileClosed ''a.json''])"
  by code_simp

end
