(* ===== verification/LogicTest.thy ===== *)
theory LogicTest
  imports NativeCalls GoJson
begin

text \<open>
  The bridge between the SQL logic test runner, which is native, and the Go driver
  (\<^verbatim>\<open>internal/native/sqllogictest.go\<close>).  The runner calls back into Go for each query: the Go side answers with an
  Arrow stream that holds a reference on the reader, or with a status and a message, and the caller frees what it gets.
  What the callback answers or panics with, whether memory can be had, whether the methods of a reader
  panic, the native library and the JSON parser are arguments.
\<close>

subsection \<open>State\<close>

text \<open>
  \<open>lw_refs\<close> counts the references held on each reader a callback returned, \<open>lw_streams\<close> has the stream structures with
  the reader exported into them, \<open>lw_buffers\<close> the messages in C memory, \<open>lw_cleanups\<close> whether the cleanup of a
  fixture has still to run.
\<close>

record slt_world =
  lw_next :: nat
  lw_memory :: c_memory
  lw_symbols :: "go_error option option"
  lw_handles :: "nat set"
  lw_refs :: "nat \<Rightarrow> nat"
  lw_streams :: "nat \<Rightarrow> nat option option"
  lw_buffers :: "nat \<Rightarrow> string option"
  lw_fixtures :: "nat set"
  lw_cleanups :: "nat \<Rightarrow> bool"

datatype slt_output = OutStream nat | OutMessage nat

text \<open>A query callback panics, or returns a reader that may be nil and an error.\<close>

record slt_answer =
  sa_returns :: "string + bool \<times> go_error option"
  sa_alloc :: bool
  sa_retain :: "string option"
  sa_release :: "string option"

text \<open>\<^verbatim>\<open>errors.As\<close> with a harness error as target.\<close>

fun has_harness_error :: "go_error \<Rightarrow> bool" where
  "has_harness_error (HarnessError e) = True"
| "has_harness_error (Wrapped m e) = has_harness_error e"
| "has_harness_error (Joined es) = list_ex has_harness_error es"
| "has_harness_error (DriverError t k m c) = (case c of None \<Rightarrow> False | Some e \<Rightarrow> has_harness_error e)"
| "has_harness_error e = False"

subsection \<open>The query callback\<close>

definition drop_ref :: "nat \<Rightarrow> slt_world \<Rightarrow> slt_world" where
  "drop_ref r w = w\<lparr>lw_refs := (lw_refs w)(r := lw_refs w r - 1)\<rparr>"

definition stream_free :: "nat \<Rightarrow> slt_world \<Rightarrow> slt_world" where
  "stream_free st w =
     (case lw_streams w st of
        Some (Some r) \<Rightarrow> (drop_ref r w)\<lparr>lw_streams := (lw_streams w)(st := None)\<rparr>
      | _ \<Rightarrow> w\<lparr>lw_streams := (lw_streams w)(st := None)\<rparr>)"

text \<open>The deferred function with a status that is not 0: the stream is freed and the message copied out.\<close>

definition slt_fail :: "nat \<Rightarrow> string \<Rightarrow> nat option \<Rightarrow> slt_world \<Rightarrow> (nat \<times> slt_output) \<times> slt_world" where
  "slt_fail status message st w =
     (let w1 = (case st of None \<Rightarrow> w | Some k \<Rightarrow> stream_free k w)
      in ((status, OutMessage (lw_next w1)),
          w1\<lparr>lw_next := lw_next w1 + 1, lw_buffers := (lw_buffers w1)(lw_next w1 \<mapsto> message)\<rparr>))"

definition panic_text :: "string \<Rightarrow> string" where
  "panic_text p = ''Go SQLLogicTest callback panicked: '' @ p"

text \<open>What the goroutine that runs the callback sends.\<close>

definition completed_answer :: "string + bool \<times> go_error option \<Rightarrow> bool \<times> go_error option" where
  "completed_answer a =
     (case a of
        Inl p \<Rightarrow> (False, Some (HarnessError (Plain (''go SQLLogicTest callback panicked: '' @ p))))
      | Inr r \<Rightarrow> r)"

text \<open>The deferred release of the reader, then the return.\<close>

definition release_then ::
  "slt_answer \<Rightarrow> nat \<Rightarrow> nat option \<Rightarrow> (slt_world \<Rightarrow> (nat \<times> slt_output) \<times> slt_world) \<Rightarrow> slt_world \<Rightarrow> (nat \<times> slt_output) \<times> slt_world" where
  "release_then a r st return w =
     (case sa_release a of None \<Rightarrow> return (drop_ref r w) | Some p \<Rightarrow> slt_fail 2 (panic_text p) st (drop_ref r w))"

definition dfgo_go_slt_query :: "nat \<Rightarrow> slt_answer \<Rightarrow> slt_world \<Rightarrow> (nat \<times> slt_output) \<times> slt_world" where
  "dfgo_go_slt_query handle a w =
     (if handle \<notin> lw_handles w then slt_fail 2 (panic_text ''runtime/cgo: misuse of an invalid Handle'') None w
      else let (has_reader, err) = completed_answer (sa_returns a);
               r = lw_next w;
               w1 = (if has_reader then w\<lparr>lw_next := lw_next w + 1, lw_refs := (lw_refs w)(r := 1)\<rparr> else w)
        in case err of
          Some e \<Rightarrow> slt_fail (if has_harness_error e then 2 else 1) (error_text e) None w1
        | None \<Rightarrow>
            if \<not> has_reader
            then slt_fail 2 (panic_text ''runtime error: invalid memory address or nil pointer dereference'') None w1
            else if \<not> sa_alloc a
            then release_then a r None (slt_fail 2 ''allocate SQLLogicTest Arrow stream'' None) w1
            else let st = lw_next w1; w2 = w1\<lparr>lw_next := st + 1, lw_streams := (lw_streams w1)(st \<mapsto> None)\<rparr>
              in (case sa_retain a of
                    Some p \<Rightarrow> release_then a r (Some st) (slt_fail 2 (panic_text p) (Some st)) w2
                  | None \<Rightarrow> release_then a r (Some st) (\<lambda>w. ((0, OutStream st), w))
                      (w2\<lparr>lw_refs := (lw_refs w2)(r := lw_refs w2 r + 1), lw_streams := (lw_streams w2)(st \<mapsto> Some r)\<rparr>)))"

text \<open>The runner reads the stream to its release or copies the message, and frees the C memory.\<close>

definition slt_consume :: "slt_output \<Rightarrow> slt_world \<Rightarrow> slt_world" where
  "slt_consume out w =
     (case out of OutStream st \<Rightarrow> stream_free st w | OutMessage b \<Rightarrow> w\<lparr>lw_buffers := (lw_buffers w)(b := None)\<rparr>)"

subsection \<open>Setup\<close>

text \<open>The symbols are looked up once per process; \<open>found\<close> is the answer for the path the library is given.\<close>

definition load_sql_logic_symbols :: "(string \<Rightarrow> bool) \<Rightarrow> string \<Rightarrow> slt_world \<Rightarrow> go_error option \<times> slt_world" where
  "load_sql_logic_symbols found library w =
     (case lw_symbols w of
        Some res \<Rightarrow> (res, w)
      | None \<Rightarrow>
          (case with_c_string library (\<lambda>p m. (found (c_read m p), m)) (lw_memory w) of
             (ok, m) \<Rightarrow>
               let res = (if ok then None
                 else Some (Plain ''SQLLogicTest symbols are missing; build with the test-sqllogictest Cargo feature''))
               in (res, w\<lparr>lw_memory := m, lw_symbols := Some res\<rparr>)))"

text \<open>The cleanup function of a fixture is the object \<open>k\<close>.\<close>

definition setup_sql_logic_test ::
  "native_library \<Rightarrow> (string \<Rightarrow> bool) \<Rightarrow> string \<Rightarrow> nat \<Rightarrow> string \<Rightarrow> slt_world \<Rightarrow> (go_error + nat) \<times> slt_world" where
  "setup_sql_logic_test lib found library conn path w =
     (case load_sql_logic_symbols found library w of
        (Some e, w1) \<Rightarrow> (Inl e, w1)
      | (None, w1) \<Rightarrow>
          (case cm_ptr (lw_memory w1) conn of
             None \<Rightarrow> (Inl (Plain ''SQLLogicTest connection is closed''), w1)
           | Some h \<Rightarrow>
               (case with_c_string path (\<lambda>p m. returns_nothing (native_invoke lib ''dfgo_slt_setup'' [Some h] [p] None m))
                    (lw_memory w1) of
                  (Inl e, m) \<Rightarrow> (Inl e, w1\<lparr>lw_memory := m\<rparr>)
                | (Inr _, m) \<Rightarrow>
                    (Inr (lw_next w1), w1\<lparr>lw_memory := m, lw_next := lw_next w1 + 1,
                       lw_fixtures := insert (lw_next w1) (lw_fixtures w1),
                       lw_cleanups := (lw_cleanups w1)(lw_next w1 := True)\<rparr>))))"

definition fixture_cleanup :: "nat \<Rightarrow> slt_world \<Rightarrow> slt_world" where
  "fixture_cleanup k w =
     (if lw_cleanups w k
      then w\<lparr>lw_cleanups := (lw_cleanups w)(k := False), lw_fixtures := lw_fixtures w - {k}\<rparr> else w)"

subsection \<open>Reports\<close>

record slt_skipped =
  sk_location :: string
  sk_conditions :: string

record slt_record =
  rc_location :: string
  rc_sql :: string
  rc_kind :: string
  rc_passed :: bool
  rc_skipped :: bool
  rc_expects_error :: bool
  rc_functions :: "string list"
  rc_operators :: "string list"
  rc_clauses :: "string list"
  rc_query_statement :: bool
  rc_returned_rows :: int
  rc_parse_error :: string

record slt_report =
  rp_statements :: int
  rp_queries :: int
  rp_eligible :: int
  rp_passed :: int
  rp_skipped :: "slt_skipped list"
  rp_errors :: "string list"
  rp_records :: "slt_record list"

definition skipped_fields :: "slt_skipped json_fields" where
  "skipped_fields =
     [(''location'', \<lambda>j s. rbind (json_string j (sk_location s)) (\<lambda>x. Inr (s\<lparr>sk_location := x\<rparr>))),
      (''conditions'', \<lambda>j s. rbind (json_string j (sk_conditions s)) (\<lambda>x. Inr (s\<lparr>sk_conditions := x\<rparr>)))]"

definition record_fields :: "slt_record json_fields" where
  "record_fields =
     [(''location'', \<lambda>j r. rbind (json_string j (rc_location r)) (\<lambda>x. Inr (r\<lparr>rc_location := x\<rparr>))),
      (''sql'', \<lambda>j r. rbind (json_string j (rc_sql r)) (\<lambda>x. Inr (r\<lparr>rc_sql := x\<rparr>))),
      (''kind'', \<lambda>j r. rbind (json_string j (rc_kind r)) (\<lambda>x. Inr (r\<lparr>rc_kind := x\<rparr>))),
      (''passed'', \<lambda>j r. rbind (json_bool j (rc_passed r)) (\<lambda>x. Inr (r\<lparr>rc_passed := x\<rparr>))),
      (''skipped'', \<lambda>j r. rbind (json_bool j (rc_skipped r)) (\<lambda>x. Inr (r\<lparr>rc_skipped := x\<rparr>))),
      (''expects_error'', \<lambda>j r. rbind (json_bool j (rc_expects_error r)) (\<lambda>x. Inr (r\<lparr>rc_expects_error := x\<rparr>))),
      (''functions'', \<lambda>j r. rbind (json_slice json_string [] j (rc_functions r)) (\<lambda>x. Inr (r\<lparr>rc_functions := x\<rparr>))),
      (''operators'', \<lambda>j r. rbind (json_slice json_string [] j (rc_operators r)) (\<lambda>x. Inr (r\<lparr>rc_operators := x\<rparr>))),
      (''clauses'', \<lambda>j r. rbind (json_slice json_string [] j (rc_clauses r)) (\<lambda>x. Inr (r\<lparr>rc_clauses := x\<rparr>))),
      (''query_statement'', \<lambda>j r. rbind (json_bool j (rc_query_statement r)) (\<lambda>x. Inr (r\<lparr>rc_query_statement := x\<rparr>))),
      (''returned_rows'', \<lambda>j r. rbind (json_int 64 j (rc_returned_rows r)) (\<lambda>x. Inr (r\<lparr>rc_returned_rows := x\<rparr>))),
      (''parse_error'', \<lambda>j r. rbind (json_string j (rc_parse_error r)) (\<lambda>x. Inr (r\<lparr>rc_parse_error := x\<rparr>)))]"

definition zero_skipped :: slt_skipped where
  "zero_skipped = \<lparr>sk_location = [], sk_conditions = []\<rparr>"

definition zero_record :: slt_record where
  "zero_record = \<lparr>rc_location = [], rc_sql = [], rc_kind = [], rc_passed = False, rc_skipped = False, rc_expects_error = False,
     rc_functions = [], rc_operators = [], rc_clauses = [], rc_query_statement = False, rc_returned_rows = 0, rc_parse_error = []\<rparr>"

definition zero_report :: slt_report where
  "zero_report = \<lparr>rp_statements = 0, rp_queries = 0, rp_eligible = 0, rp_passed = 0, rp_skipped = [], rp_errors = [], rp_records = []\<rparr>"

definition report_fields :: "slt_report json_fields" where
  "report_fields =
     [(''statements'', \<lambda>j r. rbind (json_int 64 j (rp_statements r)) (\<lambda>x. Inr (r\<lparr>rp_statements := x\<rparr>))),
      (''queries'', \<lambda>j r. rbind (json_int 64 j (rp_queries r)) (\<lambda>x. Inr (r\<lparr>rp_queries := x\<rparr>))),
      (''eligible'', \<lambda>j r. rbind (json_int 64 j (rp_eligible r)) (\<lambda>x. Inr (r\<lparr>rp_eligible := x\<rparr>))),
      (''passed'', \<lambda>j r. rbind (json_int 64 j (rp_passed r)) (\<lambda>x. Inr (r\<lparr>rp_passed := x\<rparr>))),
      (''skipped'', \<lambda>j r. rbind (json_slice (json_struct skipped_fields) zero_skipped j (rp_skipped r))
         (\<lambda>x. Inr (r\<lparr>rp_skipped := x\<rparr>))),
      (''errors'', \<lambda>j r. rbind (json_slice json_string [] j (rp_errors r)) (\<lambda>x. Inr (r\<lparr>rp_errors := x\<rparr>))),
      (''records'', \<lambda>j r. rbind (json_slice (json_struct record_fields) zero_record j (rp_records r))
         (\<lambda>x. Inr (r\<lparr>rp_records := x\<rparr>)))]"

definition decode_report :: "(string \<Rightarrow> json option) \<Rightarrow> string \<Rightarrow> go_error + slt_report" where
  "decode_report parse text =
     (case (case parse text of None \<Rightarrow> Inl (Plain ''invalid JSON'') | Some j \<Rightarrow> json_struct report_fields j zero_report) of
        Inl e \<Rightarrow> Inl (Wrapped ''decode SQLLogicTest report'' e)
      | Inr report \<Rightarrow> Inr report)"

subsection \<open>A run\<close>

text \<open>
  The runner makes the calls \<open>queries\<close> while the handle is live, consuming each answer; \<open>text\<close> is the report it
  allocates when it succeeds.
\<close>

definition slt_queries :: "nat \<Rightarrow> slt_answer list \<Rightarrow> slt_world \<Rightarrow> slt_world" where
  "slt_queries handle = fold (\<lambda>a w. case dfgo_go_slt_query handle a w of ((status, out), v) \<Rightarrow> slt_consume out v)"

definition run_sql_logic_test ::
  "native_library \<Rightarrow> (string \<Rightarrow> bool) \<Rightarrow> (string \<Rightarrow> json option) \<Rightarrow> string \<Rightarrow> string \<Rightarrow> string \<Rightarrow> slt_answer list \<Rightarrow> string \<Rightarrow>
   slt_world \<Rightarrow> (go_error + slt_report) \<times> slt_world" where
  "run_sql_logic_test lib found parse library path workspace queries report w =
     (case load_sql_logic_symbols found library w of
        (Some e, w1) \<Rightarrow> (Inl e, w1)
      | (None, w1) \<Rightarrow>
          let h = lw_next w1;
              w2 = w1\<lparr>lw_next := h + 1, lw_handles := insert h (lw_handles w1)\<rparr>;
              w3 = slt_queries h queries w2
          in (case with_c_string path (\<lambda>p. with_c_string workspace (\<lambda>q m.
                    on_reply (with_c_string report (\<lambda>output m. (decode_report parse (c_read m output), m)))
                      (native_invoke lib ''dfgo_slt_run'' [] [p, q] None m)))
                  (lw_memory w3) of
                (res, m) \<Rightarrow> (res, w3\<lparr>lw_memory := m, lw_handles := lw_handles w3 - {h}\<rparr>)))"

subsection \<open>What is handed over and what is left\<close>

definition slt_fresh :: "slt_world \<Rightarrow> bool" where
  "slt_fresh w \<longleftrightarrow> (\<forall>k. lw_next w \<le> k \<longrightarrow>
     lw_streams w k = None \<and> lw_buffers w k = None \<and> lw_refs w k = 0 \<and> k \<notin> lw_handles w)"

lemma slt_freshD:
  "slt_fresh w \<Longrightarrow> lw_next w \<le> k \<Longrightarrow>
     lw_streams w k = None \<and> lw_buffers w k = None \<and> lw_refs w k = 0 \<and> k \<notin> lw_handles w"
  by (simp add: slt_fresh_def)

text \<open>The answers that are a stream, and those that are an error of the query.\<close>

definition streams_answer :: "slt_answer \<Rightarrow> bool" where
  "streams_answer a \<longleftrightarrow> sa_returns a = Inr (True, None) \<and> sa_alloc a \<and> sa_retain a = None \<and> sa_release a = None"

definition query_error :: "slt_answer \<Rightarrow> bool" where
  "query_error a = (case sa_returns a of Inr (b, Some e) \<Rightarrow> \<not> has_harness_error e | _ \<Rightarrow> False)"

text \<open>A reader returned beside an error.\<close>

definition stray_reader :: "slt_answer \<Rightarrow> bool" where
  "stray_reader a = (case sa_returns a of Inr (True, Some e) \<Rightarrow> True | _ \<Rightarrow> False)"

text \<open>The message of an answer that is no stream; the last panic hides what went before it.\<close>

definition query_message :: "bool \<Rightarrow> slt_answer \<Rightarrow> string" where
  "query_message live a =
     (if \<not> live then panic_text ''runtime/cgo: misuse of an invalid Handle''
      else case sa_returns a of
        Inl p \<Rightarrow> ''go SQLLogicTest callback panicked: '' @ p
      | Inr (b, Some e) \<Rightarrow> error_text e
      | Inr (False, None) \<Rightarrow> panic_text ''runtime error: invalid memory address or nil pointer dereference''
      | Inr (True, None) \<Rightarrow>
          (case sa_release a of
             Some p \<Rightarrow> panic_text p
           | None \<Rightarrow> if \<not> sa_alloc a then ''allocate SQLLogicTest Arrow stream''
               else (case sa_retain a of Some p \<Rightarrow> panic_text p | None \<Rightarrow> [])))"

lemmas slt_defs = dfgo_go_slt_query_def slt_fail_def release_then_def stream_free_def drop_ref_def completed_answer_def
  streams_answer_def query_error_def stray_reader_def query_message_def Let_def

lemma slt_query_outcome:
  assumes "slt_fresh w"
  shows "case dfgo_go_slt_query h a w of ((status, out), v) \<Rightarrow>
     status = (if h \<in> lw_handles w \<and> streams_answer a then 0 else if h \<in> lw_handles w \<and> query_error a then 1 else 2) \<and>
     (case out of
        OutStream st \<Rightarrow> status = 0 \<and> lw_streams w st = None \<and> lw_buffers v = lw_buffers w \<and>
          (\<exists>r. lw_refs w r = 0 \<and> lw_refs v = (lw_refs w)(r := 1) \<and> lw_streams v = (lw_streams w)(st \<mapsto> Some r))
      | OutMessage b \<Rightarrow> status \<noteq> 0 \<and> lw_streams v = lw_streams w \<and>
          lw_buffers w b = None \<and> lw_buffers v = (lw_buffers w)(b \<mapsto> query_message (h \<in> lw_handles w) a) \<and>
          lw_refs v = (if h \<in> lw_handles w \<and> stray_reader a then (lw_refs w)(lw_next w := 1) else lw_refs w))"
proof -
  note f = slt_freshD [OF assms, of "lw_next w"] slt_freshD [OF assms, of "Suc (lw_next w)"]
    slt_freshD [OF assms, of "Suc (Suc (lw_next w))"]
  show ?thesis
  proof (cases "h \<in> lw_handles w")
    case False
    with f show ?thesis by (simp add: slt_defs)
  next
    case h: True
    show ?thesis
    proof (cases "sa_returns a")
      case (Inl p)
      with h f show ?thesis by (simp add: slt_defs)
    next
      case (Inr b)
      with h f show ?thesis
        by (cases b; cases "fst b"; cases "snd b"; cases "sa_alloc a"; cases "sa_retain a"; cases "sa_release a")
          (auto simp: slt_defs fun_upd_idem intro!: exI [of _ "lw_next w"])
    qed
  qed
qed

text \<open>One query and the runner's use of its answer leave streams, messages and references as they were.\<close>

lemma slt_query_consumed:
  assumes "slt_fresh w" "\<not> stray_reader a" "dfgo_go_slt_query h a w = ((status, out), v)"
  shows "lw_streams (slt_consume out v) = lw_streams w" "lw_buffers (slt_consume out v) = lw_buffers w"
    "lw_refs (slt_consume out v) = lw_refs w"
  using slt_query_outcome [OF assms(1), of h a] assms(2,3)
  by (auto simp: slt_consume_def stream_free_def drop_ref_def fun_upd_idem split: slt_output.splits if_splits)

text \<open>What one query of the runner hands over.  The status is 0 exactly when the callback of a live handle answered with a
  reader and everything about it worked, and 1, which the runner may compare with an expected SQL error, exactly when
  it answered with an error that holds no harness error; panics, a missing reader, missing memory and harness
  errors are 2.  With 0 a new stream holds the only reference on the new reader and no message is left; otherwise the
  message of the first error or of the last panic is handed over, no stream is left, and no reference either unless the callback returned a reader beside its error.\<close>

theorem query_callback_hands_over:
  assumes "slt_fresh w"
  shows "case dfgo_go_slt_query h a w of ((status, out), v) \<Rightarrow>
     status = (if h \<in> lw_handles w \<and> streams_answer a then 0 else if h \<in> lw_handles w \<and> query_error a then 1 else 2) \<and>
     (case out of
        OutStream st \<Rightarrow> status = 0 \<and> lw_streams w st = None \<and> lw_buffers v = lw_buffers w \<and>
          (\<exists>r. lw_refs w r = 0 \<and> lw_refs v = (lw_refs w)(r := 1) \<and> lw_streams v = (lw_streams w)(st \<mapsto> Some r))
      | OutMessage b \<Rightarrow> status \<noteq> 0 \<and> lw_streams v = lw_streams w \<and>
          lw_buffers w b = None \<and> lw_buffers v = (lw_buffers w)(b \<mapsto> query_message (h \<in> lw_handles w) a) \<and>
          lw_refs v = (if h \<in> lw_handles w \<and> stray_reader a then (lw_refs w)(lw_next w := 1) else lw_refs w))"
  by (rule slt_query_outcome [OF assms])

definition slt_start :: slt_world where
  "slt_start = \<lparr>lw_next = 1, lw_memory = empty_memory, lw_symbols = None, lw_handles = {0}, lw_refs = (\<lambda>r. 0),
     lw_streams = Map.empty, lw_buffers = Map.empty, lw_fixtures = {}, lw_cleanups = (\<lambda>k. False)\<rparr>"

definition good_answer :: slt_answer where
  "good_answer = \<lparr>sa_returns = Inr (True, None), sa_alloc = True, sa_retain = None, sa_release = None\<rparr>"

lemma slt_start_fresh: "slt_fresh slt_start"
  by (simp add: slt_fresh_def slt_start_def)

theorem query_callback_hands_over_witness:
  "case dfgo_go_slt_query 0 good_answer slt_start of ((status, out), v) \<Rightarrow>
    status = 0 \<and> (\<exists>st r. out = OutStream st \<and> lw_streams v = [st \<mapsto> Some r] \<and> lw_refs v = (\<lambda>r. 0)(r := 1))"
  using query_callback_hands_over [OF slt_start_fresh, of 0 good_answer]
  by (auto simp: streams_answer_def good_answer_def slt_start_def split: prod.splits slt_output.splits)

subsection \<open>A run leaves nothing behind\<close>

definition slt_keeps :: "slt_world \<Rightarrow> slt_world \<Rightarrow> bool" where
  "slt_keeps w v \<longleftrightarrow> lw_next w \<le> lw_next v \<and> lw_handles v = lw_handles w \<and> lw_memory v = lw_memory w"

lemma keeps_stream_free: "slt_keeps w v \<Longrightarrow> slt_keeps w (stream_free st v)"
  by (auto simp: slt_keeps_def stream_free_def drop_ref_def split: option.split)

lemma keeps_fail: "slt_keeps w v \<Longrightarrow> slt_keeps w (snd (slt_fail status message st v))"
  using keeps_stream_free [of w v "the st"] by (cases st) (auto simp: slt_keeps_def slt_fail_def Let_def)

lemma keeps_release:
  "slt_keeps w v \<Longrightarrow> (\<And>u. slt_keeps w u \<Longrightarrow> slt_keeps w (snd (return u))) \<Longrightarrow> slt_keeps w (snd (release_then a r st return v))"
  by (auto simp: release_then_def drop_ref_def slt_keeps_def split: option.split intro!: keeps_fail [unfolded slt_keeps_def])

lemma keeps_query: "slt_keeps w (snd (dfgo_go_slt_query h a w))"
proof (cases "h \<in> lw_handles w")
  case False
  then show ?thesis by (simp add: dfgo_go_slt_query_def keeps_fail slt_keeps_def [of w w])
next
  case True
  obtain b err where c: "completed_answer (sa_returns a) = (b, err)" by fastforce
  let ?w1 = "if b then w\<lparr>lw_next := lw_next w + 1, lw_refs := (lw_refs w)(lw_next w := 1)\<rparr> else w"
  have w1: "slt_keeps w ?w1" by (simp add: slt_keeps_def)
  show ?thesis
    using True c w1
    by (auto simp: dfgo_go_slt_query_def Let_def slt_keeps_def [of w "_ \<lparr>lw_streams := _\<rparr>"]
        split: option.split if_split intro!: keeps_fail keeps_release)
qed

lemma slt_query_frame:
  "lw_next w \<le> lw_next (slt_consume out (snd (dfgo_go_slt_query h a w)))"
  "lw_handles (slt_consume out (snd (dfgo_go_slt_query h a w))) = lw_handles w"
  "lw_memory (slt_consume out (snd (dfgo_go_slt_query h a w))) = lw_memory w"
proof -
  have "slt_keeps w (slt_consume out (snd (dfgo_go_slt_query h a w)))"
    using keeps_query [of w h a] keeps_stream_free [OF keeps_query [of w h a]]
    by (cases out) (auto simp: slt_consume_def slt_keeps_def)
  then show "lw_next w \<le> lw_next (slt_consume out (snd (dfgo_go_slt_query h a w)))"
    "lw_handles (slt_consume out (snd (dfgo_go_slt_query h a w))) = lw_handles w"
    "lw_memory (slt_consume out (snd (dfgo_go_slt_query h a w))) = lw_memory w"
    by (simp_all add: slt_keeps_def)
qed

lemma slt_queries_clean:
  assumes "slt_fresh w" "list_all (\<lambda>a. \<not> stray_reader a) queries"
  shows "lw_streams (slt_queries h queries w) = lw_streams w" "lw_buffers (slt_queries h queries w) = lw_buffers w"
    "lw_refs (slt_queries h queries w) = lw_refs w" "lw_handles (slt_queries h queries w) = lw_handles w"
    "lw_memory (slt_queries h queries w) = lw_memory w"
proof -
  have "lw_streams (slt_queries h queries w) = lw_streams w \<and> lw_buffers (slt_queries h queries w) = lw_buffers w \<and>
    lw_refs (slt_queries h queries w) = lw_refs w \<and> lw_handles (slt_queries h queries w) = lw_handles w \<and>
    lw_memory (slt_queries h queries w) = lw_memory w"
    using assms
  proof (induction queries arbitrary: w)
    case (Cons a queries)
    obtain status out v where v: "dfgo_go_slt_query h a w = ((status, out), v)" by (metis surj_pair)
    let ?u = "slt_consume out v"
    have same: "lw_streams ?u = lw_streams w" "lw_buffers ?u = lw_buffers w" "lw_refs ?u = lw_refs w"
      using slt_query_consumed [OF Cons.prems(1) _ v] Cons.prems(2) by simp_all
    have frame: "lw_next w \<le> lw_next ?u" "lw_handles ?u = lw_handles w" "lw_memory ?u = lw_memory w"
      using slt_query_frame [where h = h and a = a and w = w and out = out] v by simp_all
    then have "slt_fresh ?u" using Cons.prems(1) same by (simp add: slt_fresh_def)
    from Cons.IH [OF this] Cons.prems(2) same frame v show ?case by (simp add: slt_queries_def)
  qed (simp add: slt_queries_def)
  then show "lw_streams (slt_queries h queries w) = lw_streams w" "lw_buffers (slt_queries h queries w) = lw_buffers w"
    "lw_refs (slt_queries h queries w) = lw_refs w" "lw_handles (slt_queries h queries w) = lw_handles w"
    "lw_memory (slt_queries h queries w) = lw_memory w" by simp_all
qed

lemma load_symbols_frame:
  assumes "load_sql_logic_symbols found library w = (res, v)" "memory_ok B (lw_memory w)"
  shows "memory_ok B (lw_memory v)" "\<exists>m s. v = w\<lparr>lw_memory := m, lw_symbols := s\<rparr>"
proof -
  have "memory_ok B (snd (with_c_string library (\<lambda>p m. (found (c_read m p), m)) (lw_memory w)))"
    by (rule with_c_string_ok [OF assms(2)]) simp
  with assms show "memory_ok B (lw_memory v)"
    by (auto simp: load_sql_logic_symbols_def Let_def split: option.splits prod.splits)
  have "\<exists>m s. w = w\<lparr>lw_memory := m, lw_symbols := s\<rparr>"
    by (rule exI [of _ "lw_memory w"], rule exI [of _ "lw_symbols w"]) simp
  then show "\<exists>m s. v = w\<lparr>lw_memory := m, lw_symbols := s\<rparr>"
    using assms(1) by (cases "lw_symbols w") (auto simp: load_sql_logic_symbols_def Let_def split: prod.splits)
qed

lemma run_memory_ok:
  assumes "memory_ok B m"
  shows "memory_ok B (snd (with_c_string path (\<lambda>p. with_c_string workspace (\<lambda>q m.
    on_reply (with_c_string report (\<lambda>output m. (dec (c_read m output), m))) (native_invoke lib f [] [p, q] None m))) m))"
proof (rule with_c_string_ok [OF assms])
  fix p m assume "memory_ok (B(p \<mapsto> path @ [CHR 0x00])) m"
  then show "memory_ok (B(p \<mapsto> path @ [CHR 0x00])) (snd (with_c_string workspace (\<lambda>q m.
    on_reply (with_c_string report (\<lambda>output m. (dec (c_read m output), m))) (native_invoke lib f [] [p, q] None m)) m))"
  proof (rule with_c_string_ok)
    fix q m assume m: "memory_ok (B(p \<mapsto> path @ [CHR 0x00], q \<mapsto> workspace @ [CHR 0x00])) m"
    show "memory_ok (B(p \<mapsto> path @ [CHR 0x00], q \<mapsto> workspace @ [CHR 0x00])) (snd (
      on_reply (with_c_string report (\<lambda>output m. (dec (c_read m output), m))) (native_invoke lib f [] [p, q] None m)))"
      by (rule invoke_reply_ok [OF m, of _ "\<lambda>r. with_c_string report (\<lambda>output m. (dec (c_read m output), m))"])
        (auto intro: with_c_string_ok)
  qed
qed



text \<open>The cleanup of a fixture frees it once, however often it is called.\<close>

lemma fixture_cleanup_once:
  "fixture_cleanup k (fixture_cleanup k w) = fixture_cleanup k w"
  "lw_cleanups w k \<Longrightarrow> k \<notin> lw_fixtures (fixture_cleanup k w)"
  by (simp_all add: fixture_cleanup_def)

end
