(* ===== verification/ReaderThreads.thy ===== *)
theory ReaderThreads
  imports NativeExec
begin

text \<open>
  A result reader used from several goroutines (\<^verbatim>\<open>resultReader\<close> and \<^verbatim>\<open>cancelToken\<close> of
  \<^verbatim>\<open>internal/native/native.go\<close>): reads, cancellations and closes, the finalizer, and the goroutine
  that watches the context of the query.  A goroutine is the list of the instructions it has left; an
  instruction is one access to shared state, and one that takes a held mutex or waits for a channel does not run.
  The C resources are those of \<open>NativeExec\<close>, where a use of a resource that is not live sets \<open>nw_bad\<close>; a second
  close of the channel \<^verbatim>\<open>done\<close> is such a use.
\<close>

subsection \<open>Instructions\<close>

datatype instr =
    LockToken | UnlockToken | CheckCancel | NativeCancel | CheckFree | NativeFree | ClearToken
  | LockReader | UnlockReader
  | CheckContext | AwaitContext
  | ReadLocked | NativeNext | TakeItem stream_item
  | CloseLocked | CloseDone | CancelResult | FreeArray | FreeStream | CloseResult

record threads_world =
  tw_reader :: result_reader
  tw_native :: native_world
  tw_mu :: "nat option"
  tw_token_mu :: "nat option"
  tw_ctx :: bool
  tw_threads :: "nat \<Rightarrow> instr list"

text \<open>The methods.  \<open>rr_token\<close> says whether the pointer of the token is not nil.\<close>

definition cancel_calls :: "instr list" where
  "cancel_calls = [LockToken, CheckCancel, UnlockToken]"

definition token_close_calls :: "instr list" where
  "token_close_calls = [LockToken, CheckFree, UnlockToken]"

definition close_calls :: "instr list" where
  "close_calls = cancel_calls @ [LockReader, CloseLocked, UnlockReader]"

definition finalize_calls :: "instr list" where
  "finalize_calls = cancel_calls @ [LockReader, CloseLocked, UnlockReader]"

definition locked_close_calls :: "instr list" where
  "locked_close_calls = [CloseDone, CancelResult, FreeArray, FreeStream, CloseResult] @ token_close_calls"

definition read_calls :: "instr list" where
  "read_calls = [LockReader, ReadLocked, UnlockReader]"

text \<open>What \<^verbatim>\<open>Read\<close> does with the answer of the stream: the error is built from the stream and the result.\<close>

definition take_item :: "stream_item \<Rightarrow> native_world \<Rightarrow> instr list \<times> native_world" where
  "take_item i n =
     (case i of
        ItemError errno msg kind \<Rightarrow> ([CloseLocked], touch ResResult (touch ResStreamData n))
      | ItemEnd \<Rightarrow> ([CloseLocked], n)
      | ItemArray (Inl e) \<Rightarrow> ([CloseLocked], n)
      | ItemArray (Inr b) \<Rightarrow> ([], n))"

text \<open>
  One instruction of goroutine \<open>t\<close>: the possible outcomes, each with the instructions that come before the
  rest of the call.  No outcome: it waits.  \<^verbatim>\<open>select\<close> may take either ready branch.
\<close>

fun run_instr :: "instr \<Rightarrow> nat \<Rightarrow> threads_world \<Rightarrow> (instr list \<times> threads_world) list" where
  "run_instr LockToken t w = (if tw_token_mu w = None then [([], w\<lparr>tw_token_mu := Some t\<rparr>)] else [])"
| "run_instr UnlockToken t w = [([], w\<lparr>tw_token_mu := None\<rparr>)]"
| "run_instr CheckCancel t w = [(if rr_token (tw_reader w) then [NativeCancel] else [], w)]"
| "run_instr NativeCancel t w = [([], w\<lparr>tw_native := touch ResToken (tw_native w)\<rparr>)]"
| "run_instr CheckFree t w = [(if rr_token (tw_reader w) then [NativeFree, ClearToken] else [], w)]"
| "run_instr NativeFree t w = [([], w\<lparr>tw_native := release ResToken (tw_native w)\<rparr>)]"
| "run_instr ClearToken t w = [([], w\<lparr>tw_reader := (tw_reader w)\<lparr>rr_token := False\<rparr>\<rparr>)]"
| "run_instr LockReader t w = (if tw_mu w = None then [([], w\<lparr>tw_mu := Some t\<rparr>)] else [])"
| "run_instr UnlockReader t w = [([], w\<lparr>tw_mu := None\<rparr>)]"
| "run_instr CheckContext t w = [(if tw_ctx w then cancel_calls @ close_calls else read_calls, w)]"
| "run_instr AwaitContext t w =
     (if tw_ctx w then [(cancel_calls, w)] else []) @ (if nw_res (tw_native w) ResDone = Freed then [([], w)] else [])"
| "run_instr ReadLocked t w = [(if rr_closed (tw_reader w) then [] else [NativeNext], w)]"
| "run_instr NativeNext t w =
     [([TakeItem (case rr_script (tw_reader w) of [] \<Rightarrow> ItemEnd | i # is \<Rightarrow> i)],
       w\<lparr>tw_native := touch ResArray (touch ResStreamData (tw_native w)),
         tw_reader := (tw_reader w)\<lparr>rr_script := tl (rr_script (tw_reader w))\<rparr>\<rparr>)]"
| "run_instr (TakeItem i) t w = [case take_item i (tw_native w) of (is, n) \<Rightarrow> (is, w\<lparr>tw_native := n\<rparr>)]"
| "run_instr CloseLocked t w =
     [if rr_closed (tw_reader w) then ([], w)
      else (locked_close_calls, w\<lparr>tw_reader := (tw_reader w)\<lparr>rr_closed := True\<rparr>\<rparr>)]"
| "run_instr CloseDone t w = [([], w\<lparr>tw_native := release ResDone (tw_native w)\<rparr>)]"
| "run_instr CancelResult t w =
     [([], if rr_result (tw_reader w) then w\<lparr>tw_native := touch ResResult (tw_native w)\<rparr> else w)]"
| "run_instr FreeArray t w =
     [([], if rr_array (tw_reader w)
           then w\<lparr>tw_native := release ResArray (tw_native w), tw_reader := (tw_reader w)\<lparr>rr_array := False\<rparr>\<rparr> else w)]"
| "run_instr FreeStream t w =
     [([], if rr_stream (tw_reader w)
           then w\<lparr>tw_native := release ResStreamMem (release ResStreamData (tw_native w)),
                  tw_reader := (tw_reader w)\<lparr>rr_stream := False\<rparr>\<rparr> else w)]"
| "run_instr CloseResult t w =
     [([], if rr_result (tw_reader w)
           then w\<lparr>tw_native := release ResResult (tw_native w), tw_reader := (tw_reader w)\<lparr>rr_result := False\<rparr>\<rparr> else w)]"

definition run_thread :: "nat \<Rightarrow> threads_world \<Rightarrow> threads_world list" where
  "run_thread t w =
     (case tw_threads w t of
        [] \<Rightarrow> []
      | i # rest \<Rightarrow> map (\<lambda>(is, v). v\<lparr>tw_threads := (tw_threads v)(t := is @ rest)\<rparr>) (run_instr i t w))"

text \<open>A goroutine that has nothing left may start any method; the context may end at any time.\<close>

datatype reader_method = MethodRead | MethodCancel | MethodClose | MethodFinalize

fun method_calls :: "reader_method \<Rightarrow> instr list" where
  "method_calls MethodRead = [CheckContext]"
| "method_calls MethodCancel = cancel_calls"
| "method_calls MethodClose = close_calls"
| "method_calls MethodFinalize = finalize_calls"

inductive reader_step :: "threads_world \<Rightarrow> threads_world \<Rightarrow> bool" where
  run: "v \<in> set (run_thread t w) \<Longrightarrow> reader_step w v"
| call: "tw_threads w t = [] \<Longrightarrow> reader_step w (w\<lparr>tw_threads := (tw_threads w)(t := method_calls m)\<rparr>)"
| context_ends: "reader_step w (w\<lparr>tw_ctx := True\<rparr>)"

text \<open>
  The reader \<^verbatim>\<open>ExecuteArrow\<close> returns; goroutine 0 watches the context when the context can end.
\<close>

definition reader_start :: "bool \<Rightarrow> result_reader \<Rightarrow> native_world \<Rightarrow> threads_world" where
  "reader_start watched r n = \<lparr>tw_reader = r, tw_native = n, tw_mu = None, tw_token_mu = None, tw_ctx = False,
     tw_threads = (\<lambda>t. if watched \<and> t = 0 then [AwaitContext] else [])\<rparr>"

inductive reader_reachable :: "threads_world \<Rightarrow> bool" where
  start: "unused n0 \<Longrightarrow> execute_arrow xa args n0 = (Inr r, n) \<Longrightarrow> reader_reachable (reader_start watched r n)"
| step: "reader_reachable w \<Longrightarrow> reader_step w v \<Longrightarrow> reader_reachable v"

subsection \<open>The invariant\<close>

text \<open>The shapes of what a goroutine has left, by the mutexes it holds: the reader's, the token's.\<close>

definition lock_close_calls :: "instr list" where
  "lock_close_calls = [LockReader, CloseLocked, UnlockReader]"

definition after_cancel :: "instr list \<Rightarrow> bool" where
  "after_cancel q \<longleftrightarrow> q = [] \<or> q = lock_close_calls \<or> q = close_calls"

fun shape :: "bool \<Rightarrow> bool \<Rightarrow> instr list \<Rightarrow> bool" where
  "shape h k [] \<longleftrightarrow> \<not> h \<and> \<not> k"
| "shape h k (CheckContext # q) \<longleftrightarrow> \<not> h \<and> \<not> k \<and> q = []"
| "shape h k (AwaitContext # q) \<longleftrightarrow> \<not> h \<and> \<not> k \<and> q = []"
| "shape h k (LockToken # q) \<longleftrightarrow> \<not> k \<and>
     (if h then q = [CheckFree, UnlockToken, UnlockReader]
      else q = [CheckCancel, UnlockToken] @ drop 2 q \<and> after_cancel (drop 2 q))"
| "shape h k (CheckCancel # q) \<longleftrightarrow> \<not> h \<and> k \<and> q = UnlockToken # tl q \<and> after_cancel (tl q)"
| "shape h k (NativeCancel # q) \<longleftrightarrow> \<not> h \<and> k \<and> q = UnlockToken # tl q \<and> after_cancel (tl q)"
| "shape h k (UnlockToken # q) \<longleftrightarrow> k \<and> (if h then q = [UnlockReader] else after_cancel q)"
| "shape h k (CheckFree # q) \<longleftrightarrow> h \<and> k \<and> q = [UnlockToken, UnlockReader]"
| "shape h k (NativeFree # q) \<longleftrightarrow> h \<and> k \<and> q = [ClearToken, UnlockToken, UnlockReader]"
| "shape h k (ClearToken # q) \<longleftrightarrow> h \<and> k \<and> q = [UnlockToken, UnlockReader]"
| "shape h k (LockReader # q) \<longleftrightarrow> \<not> h \<and> \<not> k \<and> (q = [ReadLocked, UnlockReader] \<or> q = [CloseLocked, UnlockReader])"
| "shape h k (UnlockReader # q) \<longleftrightarrow> h \<and> \<not> k \<and> q = []"
| "shape h k (ReadLocked # q) \<longleftrightarrow> h \<and> \<not> k \<and> q = [UnlockReader]"
| "shape h k (NativeNext # q) \<longleftrightarrow> h \<and> \<not> k \<and> q = [UnlockReader]"
| "shape h k (TakeItem i # q) \<longleftrightarrow> h \<and> \<not> k \<and> q = [UnlockReader]"
| "shape h k (CloseLocked # q) \<longleftrightarrow> h \<and> \<not> k \<and> q = [UnlockReader]"
| "shape h k (CloseDone # q) \<longleftrightarrow> h \<and> \<not> k \<and>
     q = [CancelResult, FreeArray, FreeStream, CloseResult] @ token_close_calls @ [UnlockReader]"
| "shape h k (CancelResult # q) \<longleftrightarrow> h \<and> \<not> k \<and> q = [FreeArray, FreeStream, CloseResult] @ token_close_calls @ [UnlockReader]"
| "shape h k (FreeArray # q) \<longleftrightarrow> h \<and> \<not> k \<and> q = [FreeStream, CloseResult] @ token_close_calls @ [UnlockReader]"
| "shape h k (FreeStream # q) \<longleftrightarrow> h \<and> \<not> k \<and> q = [CloseResult] @ token_close_calls @ [UnlockReader]"
| "shape h k (CloseResult # q) \<longleftrightarrow> h \<and> \<not> k \<and> q = token_close_calls @ [UnlockReader]"

fun frees :: "instr \<Rightarrow> resource set" where
  "frees CloseDone = {ResDone}"
| "frees FreeArray = {ResArray}"
| "frees FreeStream = {ResStreamMem, ResStreamData}"
| "frees CloseResult = {ResResult}"
| "frees CheckFree = {ResToken}"
| "frees NativeFree = {ResToken}"
| "frees i = {}"

definition freed_by :: "instr list \<Rightarrow> resource set" where
  "freed_by p = (\<Union>i \<in> set p. frees i)"

lemma freed_by_simps [simp]: "freed_by [] = {}" "freed_by (i # p) = frees i \<union> freed_by p"
  by (simp_all add: freed_by_def)

text \<open>The resources, given what the holder of the reader's mutex has left.\<close>

definition resources_ok :: "instr list \<Rightarrow> result_reader \<Rightarrow> native_world \<Rightarrow> bool" where
  "resources_ok p r n \<longleftrightarrow> \<not> nw_bad n \<and> nw_res n ResSchema = Freed \<and>
     (if rr_closed r
      then (\<forall>i q. p \<noteq> NativeNext # q \<and> p \<noteq> TakeItem i # q) \<and>
        (\<forall>x. x \<noteq> ResSchema \<longrightarrow> nw_res n x = (if x \<in> freed_by p then Live else Freed)) \<and>
        rr_array r = (ResArray \<in> freed_by p) \<and> rr_stream r = (ResStreamMem \<in> freed_by p) \<and>
        rr_result r = (ResResult \<in> freed_by p) \<and> rr_token r = (ResToken \<in> freed_by p \<or> ClearToken \<in> set p)
      else freed_by p = {} \<and> ClearToken \<notin> set p \<and> CancelResult \<notin> set p \<and> CheckFree \<notin> set p \<and>
        rr_array r \<and> rr_stream r \<and> rr_result r \<and> rr_token r \<and> (\<forall>x. x \<noteq> ResSchema \<longrightarrow> nw_res n x = Live))"

definition pending :: "threads_world \<Rightarrow> instr list" where
  "pending w = (case tw_mu w of None \<Rightarrow> [] | Some t \<Rightarrow> tw_threads w t)"

definition threads_inv :: "threads_world \<Rightarrow> bool" where
  "threads_inv w \<longleftrightarrow>
     (\<forall>t. shape (tw_mu w = Some t) (tw_token_mu w = Some t) (tw_threads w t)) \<and>
     (\<forall>t q. tw_threads w t = NativeCancel # q \<longrightarrow> nw_res (tw_native w) ResToken = Live) \<and>
     resources_ok (pending w) (tw_reader w) (tw_native w)"


lemmas calls_defs = cancel_calls_def close_calls_def lock_close_calls_def read_calls_def locked_close_calls_def
  token_close_calls_def finalize_calls_def after_cancel_def

text \<open>One instruction: the shape of what is left, and that the mutexes of other goroutines are as before.\<close>

lemma run_instr_shape:
  assumes "shape (tw_mu w = Some t) (tw_token_mu w = Some t) (i # q)" "(is, v) \<in> set (run_instr i t w)"
  shows "shape (tw_mu v = Some t) (tw_token_mu v = Some t) (is @ q)"
  using assms
  by (cases i) (auto simp: calls_defs take_item_def split: if_splits stream_item.splits sum.splits prod.splits)

lemma run_instr_others:
  assumes "shape (tw_mu w = Some t) (tw_token_mu w = Some t) (i # q)" "(is, v) \<in> set (run_instr i t w)"
  shows "tw_threads v = tw_threads w" "tw_ctx v = tw_ctx w"
    "s \<noteq> t \<Longrightarrow> (tw_mu v = Some s) = (tw_mu w = Some s)" "s \<noteq> t \<Longrightarrow> (tw_token_mu v = Some s) = (tw_token_mu w = Some s)"
    "tw_token_mu w \<noteq> Some t \<Longrightarrow> nw_res (tw_native v) ResToken = nw_res (tw_native w) ResToken"
  using assms
  by (cases i; auto simp: take_item_def split: if_splits stream_item.splits sum.splits prod.splits)+

text \<open>A goroutine without the reader's mutex only uses the token, and only while it is live.\<close>

lemma run_outside_resources:
  assumes "shape False (tw_token_mu w = Some t) (i # q)" "tw_mu w \<noteq> Some t" "(is, v) \<in> set (run_instr i t w)"
    "i = NativeCancel \<Longrightarrow> nw_res (tw_native w) ResToken = Live" "resources_ok p (tw_reader w) (tw_native w)"
  shows "resources_ok p (tw_reader v) (tw_native v)"
  using assms by (cases i) (auto simp: resources_ok_def)

lemma run_inside_resources:
  assumes "shape True (tw_token_mu w = Some t) (i # q)" "(is, v) \<in> set (run_instr i t w)"
    "resources_ok (i # q) (tw_reader w) (tw_native w)"
  shows "resources_ok (is @ q) (tw_reader v) (tw_native v)"
proof (cases "rr_closed (tw_reader w)")
  case True
  with assms show ?thesis
    by (cases i) (auto simp: resources_ok_def all_resources calls_defs)
next
  case False
  with assms show ?thesis
    by (cases i) (auto simp: resources_ok_def all_resources calls_defs take_item_def split: stream_item.splits sum.splits)
qed

text \<open>Taking and giving back the reader's mutex.\<close>

lemma run_lock_change:
  assumes "shape (tw_mu w = Some t) (tw_token_mu w = Some t) (i # q)" "(is, v) \<in> set (run_instr i t w)"
    "(tw_mu v = Some t) \<noteq> (tw_mu w = Some t)"
  shows "tw_reader v = tw_reader w" "tw_native v = tw_native w"
    "tw_mu w = None \<and> (is @ q = [ReadLocked, UnlockReader] \<or> is @ q = [CloseLocked, UnlockReader]) \<or> tw_mu v = None \<and> i # q = [UnlockReader]"
  using assms by (cases i; auto simp: take_item_def split: if_splits stream_item.splits sum.splits prod.splits)+

lemma run_to_cancel:
  assumes "shape (tw_mu w = Some t) (tw_token_mu w = Some t) (i # q)" "(is, v) \<in> set (run_instr i t w)"
    "is @ q = NativeCancel # r"
  shows "i = CheckCancel \<and> v = w \<and> rr_token (tw_reader w)"
  using assms
  by (cases i) (auto simp: calls_defs take_item_def split: if_splits stream_item.splits sum.splits prod.splits)

lemma resources_idle:
  "p = [UnlockReader] \<or> p = [ReadLocked, UnlockReader] \<or> p = [CloseLocked, UnlockReader] \<Longrightarrow> resources_ok p r n = resources_ok [] r n"
  by (auto simp: resources_ok_def)

lemma token_live:
  assumes "resources_ok p r n" "rr_token r" "p = [] \<or> shape True False p"
  shows "nw_res n ResToken = Live"
proof -
  have "ClearToken \<notin> set p"
    using assms(3) by (cases p; cases "hd p") (auto simp: token_close_calls_def)
  with assms(1,2) show ?thesis by (cases "rr_closed r") (auto simp: resources_ok_def)
qed

lemma threads_inv_run:
  assumes inv: "threads_inv w" and v: "v \<in> set (run_thread t w)"
  shows "threads_inv v"
proof -
  obtain i q where p: "tw_threads w t = i # q" using v by (cases "tw_threads w t") (auto simp: run_thread_def)
  obtain "is" u where u: "(is, u) \<in> set (run_instr i t w)" "v = u\<lparr>tw_threads := (tw_threads u)(t := is @ q)\<rparr>"
    using v p by (auto simp: run_thread_def)
  from inv have sh: "shape (tw_mu w = Some s) (tw_token_mu w = Some s) (tw_threads w s)" for s by (simp add: threads_inv_def)
  from inv have live: "tw_threads w s = NativeCancel # r \<Longrightarrow> nw_res (tw_native w) ResToken = Live" for s r
    unfolding threads_inv_def by blast
  from inv have res: "resources_ok (pending w) (tw_reader w) (tw_native w)" by (simp add: threads_inv_def)
  note sh_t = sh [of t, unfolded p]
  note others = run_instr_others [OF sh_t u(1)]
  have shape_v: "shape (tw_mu v = Some s) (tw_token_mu v = Some s) (tw_threads v s)" for s
    using run_instr_shape [OF sh_t u(1)] sh [of s] others(1) others(3,4) [of s] u(2) by auto
  have token: "nw_res (tw_native v) ResToken = Live" if s: "tw_threads v s = NativeCancel # r" for s r
  proof (cases "s = t")
    case True
    with s u(2) have "is @ q = NativeCancel # r" by simp
    with run_to_cancel [OF sh_t u(1)] have "rr_token (tw_reader w)" "u = w" "i = CheckCancel" by blast+
    moreover from this(3) sh_t have "tw_mu w \<noteq> Some t" "tw_token_mu w = Some t" by auto
    moreover have "shape True False (pending w)" if "pending w \<noteq> []"
      using that sh [of "the (tw_mu w)"] \<open>tw_mu w \<noteq> Some t\<close> \<open>tw_token_mu w = Some t\<close>
      by (auto simp: pending_def split: option.splits)
    ultimately show ?thesis using token_live [OF res] u(2) by auto
  next
    case False
    then have w_s: "tw_threads w s = NativeCancel # r" using s u(2) others(1) by simp
    then have "tw_token_mu w = Some s" using sh [of s] by simp
    with False others(5) live [OF w_s] u(2) show ?thesis by simp
  qed
  have "resources_ok (pending v) (tw_reader v) (tw_native v)"
  proof (cases "(tw_mu u = Some t) = (tw_mu w = Some t)")
    case True
    show ?thesis
    proof (cases "tw_mu w = Some t")
      case h: True
      with run_inside_resources [of w t i q "is" u] sh_t u True res p show ?thesis by (simp add: pending_def)
    next
      case h: False
      have "pending v = pending w" using True h others(1,3) u(2) by (cases "tw_mu w"; cases "tw_mu u") (auto simp: pending_def)
      with run_outside_resources [of w t i q "is" u "pending w"] sh_t u live [of t] p res h show ?thesis by simp
    qed
  next
    case False
    note change = run_lock_change [OF sh_t u(1) False]
    have same: "tw_reader v = tw_reader w" "tw_native v = tw_native w" using change(1,2) u(2) by simp_all
    from change(3) show ?thesis
    proof
      assume w: "tw_mu w = None \<and> (is @ q = [ReadLocked, UnlockReader] \<or> is @ q = [CloseLocked, UnlockReader])"
      then have "pending w = []" "resources_ok (is @ q) (tw_reader w) (tw_native w) = resources_ok [] (tw_reader w) (tw_native w)"
        using resources_idle [of "is @ q"] by (auto simp: pending_def)
      moreover have "pending v = is @ q" using False w u(2) by (simp add: pending_def)
      ultimately show ?thesis using res same by simp
    next
      assume v: "tw_mu u = None \<and> i # q = [UnlockReader]"
      then have "pending w = [UnlockReader]" using False p by (simp add: pending_def)
      moreover have "pending v = []" using v u(2) by (simp add: pending_def)
      ultimately show ?thesis using res same resources_idle [of "[UnlockReader]"] by simp
    qed
  qed
  with shape_v token show ?thesis by (simp add: threads_inv_def)
qed

lemma method_shape: "shape False False (method_calls m)"
  by (cases m) (simp_all add: calls_defs)

lemma threads_inv_reachable: "reader_reachable w \<Longrightarrow> threads_inv w"
proof (induction rule: reader_reachable.induct)
  case (start n0 xa args r n watched)
  from execute_arrow_cases [OF start] have "reader_ok (r, n)" "\<not> rr_closed r" by simp_all
  then show ?case
    by (auto simp: threads_inv_def reader_start_def pending_def resources_ok_def reader_ok_def)
next
  case (step w v)
  from step.hyps(2) show ?case
  proof (cases rule: reader_step.cases)
    case (run t)
    with threads_inv_run [OF step.IH] show ?thesis by blast
  next
    case (call t m)
    have t: "shape (tw_mu w = Some t) (tw_token_mu w = Some t) (tw_threads w t)" using step.IH by (simp add: threads_inv_def)
    then have free: "tw_mu w \<noteq> Some t" "tw_token_mu w \<noteq> Some t" using call(2) by simp_all
    then have "pending v = pending w" using call(1) by (auto simp: pending_def split: option.split)
    moreover have "method_calls m \<noteq> NativeCancel # r" for r by (cases m) (simp_all add: calls_defs)
    ultimately show ?thesis using step.IH call free method_shape [of m]
      unfolding threads_inv_def by auto
  next
    case context_ends
    then have "pending v = pending w" by (simp add: pending_def cong: option.case_cong)
    with context_ends step.IH show ?thesis by (simp add: threads_inv_def)
  qed
qed

subsection \<open>Calls end\<close>

fun instr_weight :: "instr \<Rightarrow> nat" where
  "instr_weight CheckContext = 60"
| "instr_weight ReadLocked = 40"
| "instr_weight NativeNext = 35"
| "instr_weight (TakeItem i) = 30"
| "instr_weight CloseLocked = 20"
| "instr_weight AwaitContext = 20"
| "instr_weight CheckFree = 4"
| "instr_weight CheckCancel = 3"
| "instr_weight i = 1"

definition call_weight :: "instr list \<Rightarrow> nat" where
  "call_weight p = sum_list (map instr_weight p)"

lemma run_thread_weight:
  assumes "v \<in> set (run_thread t w)"
  shows "call_weight (tw_threads v t) < call_weight (tw_threads w t)" "s \<noteq> t \<Longrightarrow> tw_threads v s = tw_threads w s"
proof -
  obtain i q where p: "tw_threads w t = i # q" using assms by (cases "tw_threads w t") (auto simp: run_thread_def)
  obtain "is" u where u: "(is, u) \<in> set (run_instr i t w)" "v = u\<lparr>tw_threads := (tw_threads u)(t := is @ q)\<rparr>"
    using assms p by (auto simp: run_thread_def)
  have "call_weight is < instr_weight i \<and> tw_threads u = tw_threads w"
    using u(1)
    by (cases i) (auto simp: call_weight_def calls_defs take_item_def split: if_splits stream_item.splits sum.splits prod.splits)
  with u(2) p show "call_weight (tw_threads v t) < call_weight (tw_threads w t)" "s \<noteq> t \<Longrightarrow> tw_threads v s = tw_threads w s"
    by (simp_all add: call_weight_def)
qed

lemma runnable:
  "tw_threads w t = i # q \<Longrightarrow> i \<noteq> AwaitContext \<Longrightarrow> (i = LockToken \<Longrightarrow> tw_token_mu w = None) \<Longrightarrow>
   (i = LockReader \<Longrightarrow> tw_mu w = None) \<Longrightarrow> run_thread t w \<noteq> []"
  by (cases i) (auto simp: run_thread_def)

lemma token_holder_runs:
  assumes "threads_inv w" "tw_token_mu w = Some s"
  shows "run_thread s w \<noteq> [] \<and> (\<forall>q. tw_threads w s \<noteq> NativeNext # q)"
proof -
  have "shape (tw_mu w = Some s) True (tw_threads w s)" using assms unfolding threads_inv_def by (metis)
  then obtain i q where i: "tw_threads w s = i # q" "shape (tw_mu w = Some s) True (i # q)"
    by (cases "tw_threads w s") auto
  then have "i \<noteq> LockToken" "i \<noteq> LockReader" "i \<noteq> AwaitContext" "i \<noteq> NativeNext" by auto
  with i(1) runnable [of w s i q] show ?thesis by auto
qed

text \<open>C10: No interleaving of reads, cancellations, closes, the finalizer and the goroutine that watches the context uses a
  C resource before or after its life, frees one twice or closes the channel twice: between the calls on an open reader every
  resource is live, and on a closed reader every one is freed.\<close>

theorem reader_calls_never_race:
  assumes "reader_reachable w"
  shows "\<not> nw_bad (tw_native w) \<and>
    (if \<not> rr_closed (tw_reader w) then \<forall>x. nw_res (tw_native w) x = (if x = ResSchema then Freed else Live)
     else tw_mu w = None \<longrightarrow> (\<forall>x. nw_res (tw_native w) x = Freed))"
proof -
  have "resources_ok (pending w) (tw_reader w) (tw_native w)"
    using threads_inv_reachable [OF assms] by (simp add: threads_inv_def)
  then show ?thesis by (auto simp: resources_ok_def pending_def all_resources)
qed

text \<open>C19: Every call on a reader returns.  A step brings the call of its goroutine nearer to its end and leaves the
  others alone; a goroutine that cannot run waits for another that can, which holds one of the mutexes, and to cancel it
  waits only for the holder of the token's mutex, never for a native read.  The goroutine that watches the context ends
  when the context does or when the reader is closed.\<close>

theorem reader_calls_return:
  assumes "reader_reachable w"
  shows "(\<forall>s v. v \<in> set (run_thread s w) \<longrightarrow> call_weight (tw_threads v s) < call_weight (tw_threads w s) \<and>
        (\<forall>r. r \<noteq> s \<longrightarrow> tw_threads v r = tw_threads w r)) \<and>
    (case tw_threads w t of
       [] \<Rightarrow> True
     | i # q \<Rightarrow>
         if i = AwaitContext then run_thread t w \<noteq> [] \<longleftrightarrow> tw_ctx w \<or> nw_res (tw_native w) ResDone = Freed
         else run_thread t w \<noteq> [] \<or>
           (\<exists>s. s \<noteq> t \<and> run_thread s w \<noteq> [] \<and> tw_token_mu w = Some s \<and> (\<forall>r. tw_threads w s \<noteq> NativeNext # r)) \<or>
           i = LockReader \<and> (\<exists>s. s \<noteq> t \<and> run_thread s w \<noteq> [] \<and> tw_mu w = Some s))"
proof -
  note inv = threads_inv_reachable [OF assms]
  have sh: "shape (tw_mu w = Some s) (tw_token_mu w = Some s) (tw_threads w s)" for s using inv by (simp add: threads_inv_def)
  show ?thesis
  proof (cases "tw_threads w t")
    case Nil
    then show ?thesis by (auto simp: run_thread_weight)
  next
    case (Cons i q)
    have wait: "run_thread t w \<noteq> [] \<or>
        (\<exists>s. s \<noteq> t \<and> run_thread s w \<noteq> [] \<and> tw_token_mu w = Some s \<and> (\<forall>r. tw_threads w s \<noteq> NativeNext # r)) \<or>
        i = LockReader \<and> (\<exists>s. s \<noteq> t \<and> run_thread s w \<noteq> [] \<and> tw_mu w = Some s)" if "i \<noteq> AwaitContext"
    proof (cases "i = LockToken \<and> tw_token_mu w \<noteq> None \<or> i = LockReader \<and> tw_mu w \<noteq> None")
      case False
      with runnable [OF Cons that] show ?thesis by auto
    next
      case True
      then show ?thesis
      proof (elim disjE conjE)
        assume i: "i = LockToken" "tw_token_mu w \<noteq> None"
        then obtain s where s: "tw_token_mu w = Some s" by blast
        then have "s \<noteq> t" using sh [of t] Cons i by auto
        with token_holder_runs [OF inv s] s show ?thesis by blast
      next
        assume i: "i = LockReader" "tw_mu w \<noteq> None"
        then obtain s where s: "tw_mu w = Some s" by blast
        then have st: "s \<noteq> t" using sh [of t] Cons i by auto
        obtain j r where j: "tw_threads w s = j # r" using sh [of s] s by (cases "tw_threads w s") auto
        with sh [of s] s have "j \<noteq> AwaitContext" "j \<noteq> LockReader" by auto
        then have "run_thread s w \<noteq> [] \<or> j = LockToken \<and> tw_token_mu w \<noteq> None"
          using runnable [OF j] by (cases "j = LockToken \<and> tw_token_mu w \<noteq> None") auto
        then show ?thesis
        proof (elim disjE conjE)
          assume "run_thread s w \<noteq> []" with s st i show ?thesis by blast
        next
          assume "j = LockToken" "tw_token_mu w \<noteq> None"
          then obtain u where u: "tw_token_mu w = Some u" by blast
          then have "u \<noteq> t" using sh [of t] Cons i by auto
          with token_holder_runs [OF inv u] u show ?thesis by blast
        qed
      qed
    qed
    have "run_thread t w \<noteq> [] \<longleftrightarrow> tw_ctx w \<or> nw_res (tw_native w) ResDone = Freed" if "i = AwaitContext"
      using Cons that by (simp add: run_thread_def)
    with wait Cons show ?thesis by (simp add: run_thread_weight)
  qed
qed

subsection \<open>A schedule\<close>

text \<open>Goroutines start methods and run, in the given order.\<close>

fun schedule :: "(nat \<times> reader_method option) list \<Rightarrow> threads_world \<Rightarrow> threads_world option" where
  "schedule [] w = Some w"
| "schedule ((t, Some m) # acts) w =
     (if tw_threads w t = [] then schedule acts (w\<lparr>tw_threads := (tw_threads w)(t := method_calls m)\<rparr>) else None)"
| "schedule ((t, None) # acts) w = (case run_thread t w of [] \<Rightarrow> None | v # _ \<Rightarrow> schedule acts v)"

lemma schedule_reachable: "reader_reachable w \<Longrightarrow> schedule acts w = Some v \<Longrightarrow> reader_reachable v"
proof (induction acts w rule: schedule.induct)
  case (2 t m acts w)
  then show ?case by (auto split: if_splits intro: reader_reachable.step reader_step.call)
next
  case (3 t acts w)
  then obtain u us where u: "run_thread t w = u # us" by (auto split: list.splits)
  then have "reader_step w u" by (intro reader_step.run [of u t]) simp
  with 3(2) have "reader_reachable u" by (rule reader_reachable.step)
  with 3(1) [OF u] 3(3) u show ?case by simp
qed simp

text \<open>A goroutine in a native read, and another that has cancelled it and waits to close the reader.\<close>

lemma sample_threads:
  "\<exists>w. reader_reachable w \<and> tw_threads w 1 = [NativeNext, UnlockReader] \<and> tw_threads w 2 = lock_close_calls \<and> tw_mu w = Some 1 \<and>
     tw_token_mu w = None \<and> \<not> rr_closed (tw_reader w)"
proof -
  have u: "unused sample_world" by (simp add: unused_def sample_world_def)
  obtain r n where e: "execute_arrow sample_answers [] sample_world = (Inr r, n)"
    using sample_executes by blast
  from execute_arrow_cases [OF u e] have r: "\<not> rr_closed r" "rr_token r" by (auto simp: reader_ok_def)
  have "\<exists>w. schedule [(1, Some MethodRead), (1, None), (1, None), (1, None), (2, Some MethodClose), (2, None), (2, None), (2, None), (2, None)]
      (reader_start True r n) = Some w \<and> tw_threads w 1 = [NativeNext, UnlockReader] \<and> tw_threads w 2 = lock_close_calls \<and>
      tw_mu w = Some 1 \<and> tw_token_mu w = None \<and> \<not> rr_closed (tw_reader w)"
    using r by (simp add: reader_start_def run_thread_def calls_defs)
  with schedule_reachable [OF reader_reachable.start [OF u e]] show ?thesis by blast
qed

theorem reader_calls_never_race_witness:
  "\<exists>w. reader_reachable w \<and> tw_threads w 1 = [NativeNext, UnlockReader] \<and> tw_threads w 2 = lock_close_calls \<and>
     \<not> nw_bad (tw_native w) \<and> nw_res (tw_native w) ResStreamData = Live"
proof -
  obtain w where w: "reader_reachable w" "tw_threads w 1 = [NativeNext, UnlockReader]" "tw_threads w 2 = lock_close_calls"
    "\<not> rr_closed (tw_reader w)"
    using sample_threads by blast
  with reader_calls_never_race [OF w(1)] show ?thesis by auto
qed

theorem reader_calls_return_witness:
  "\<exists>w. reader_reachable w \<and> tw_threads w 2 = lock_close_calls \<and> run_thread 2 w = [] \<and> run_thread 1 w \<noteq> []"
proof -
  obtain w where w: "reader_reachable w" "tw_threads w 2 = lock_close_calls" "tw_mu w = Some 1" "tw_token_mu w = None"
    using sample_threads by blast
  then have "run_thread 2 w = []" by (simp add: run_thread_def lock_close_calls_def)
  with w reader_calls_return [OF w(1), of 2] show ?thesis by (auto simp: lock_close_calls_def)
qed

end
