(* ===== verification/ExampleExtensions.thy ===== *)
theory ExampleExtensions
  imports ProviderTest
begin

text \<open>
  The extensions of \<^verbatim>\<open>examples/extensions/main.go\<close>: a table provider that pushes projections and limits down,
  a catalog and a function, as the answers the callbacks of the driver get from them.  An answer a method gives
  with a cancelled context has the context's error, \<open>ctx\<close>.
\<close>

subsection \<open>The table\<close>

definition events_schema :: schema where
  "events_schema = [\<lparr>fld_name = ''id'', fld_type = TInt64, fld_nullable = False\<rparr>]"

definition events_batch :: batch where
  "events_batch = \<lparr>bt_id = 1, bt_fields = events_schema, bt_cols = [Int64Array [Some 1, Some 2, Some 3]], bt_rows = 3\<rparr>"

definition events_reader :: source where
  "events_reader = \<lparr>src_schema = Some events_schema, src_script = [Some events_batch], src_end = None, src_current = None,
     src_releases = 0\<rparr>"

definition events_scan :: "go_error option \<Rightarrow> source option \<times> go_error option" where
  "events_scan ctx = (case ctx of Some e \<Rightarrow> (None, Some e) | None \<Rightarrow> (Some events_reader, None))"

text \<open>The last component says whether the scanned reader was released because a wrapper refused it.\<close>

definition events_scan_with_options ::
  "(batch \<Rightarrow> nat \<Rightarrow> batch) \<Rightarrow> go_error option \<Rightarrow> scan_options \<Rightarrow>
   (source provider_reader provider_reader option \<times> go_error option) \<times> bool" where
  "events_scan_with_options new_slice ctx opts =
     (case events_scan ctx of
        (reader, Some e) \<Rightarrow> ((None, Some e), False)
      | (reader, None) \<Rightarrow>
          (case project_reader source_ops reader (so_projection opts) of
             Inl e \<Rightarrow> ((None, Some e), True)
           | Inr projected \<Rightarrow>
               (case limit_reader (provider_ops new_slice source_ops) (Some projected) (so_limit opts) of
                  Inl e \<Rightarrow> ((None, Some e), True)
                | Inr limited \<Rightarrow> ((Some limited, None), False))))"

subsection \<open>The catalog\<close>

definition catalog_schema_names :: "go_error option \<Rightarrow> string list \<times> go_error option" where
  "catalog_schema_names ctx = ([''public''], ctx)"

definition catalog_table_names :: "go_error option \<Rightarrow> string \<Rightarrow> string list \<times> go_error option" where
  "catalog_table_names ctx schema = ((if schema = ''public'' then [''events''] else []), ctx)"

text \<open>A resolved table is what it implements: the provider takes push-down scans and no inserts.\<close>

definition catalog_resolve_table ::
  "go_error option \<Rightarrow> string \<Rightarrow> string \<Rightarrow> (bool \<times> bool) option \<times> go_error option" where
  "catalog_resolve_table ctx schema table =
     (case ctx of
        Some e \<Rightarrow> (None, Some e)
      | None \<Rightarrow> if schema = ''public'' \<and> table = ''events'' then (Some (True, False), None) else (None, None))"

subsection \<open>The function\<close>

definition double_id ::
  "go_error option \<Rightarrow> arrow_array list \<Rightarrow> nat \<Rightarrow> (arrow_array option \<times> go_error option) user_call" where
  "double_id ctx args rows =
     (case ctx of
        Some e \<Rightarrow> Inr (None, Some e)
      | None \<Rightarrow>
          (case args of
             [] \<Rightarrow> Inl ''index out of range''
           | Int64Array xs # _ \<Rightarrow>
               if length xs < rows then Inl ''index out of range''
               else Inr (Some (Int64Array (map (\<lambda>i. map_option (\<lambda>v. v * 2) (xs ! i)) [0..<rows])), None)
           | _ \<Rightarrow> Inl ''interface conversion''))"

subsection \<open>The extensions at work\<close>

text \<open>The example's own scan is the one \<open>helper_push\<close> stands for, so it passes the conformance suite.\<close>

lemma events_scan_helper:
  "fst (events_scan_with_options new_slice None opts) = helper_push new_slice events_reader opts"
  by (simp add: events_scan_with_options_def events_scan_def helper_push_def split: sum.split)

lemma events_provider_passes:
  "run_suite source_ops (provider_ops null_slice (provider_ops null_slice source_ops)) 2
     (Some (\<lambda>name. Some \<lparr>tp_schema = Some events_schema, tp_scan = (\<lambda>k. events_scan None),
       tp_pushdown = Some (\<lambda>k opts. fst (events_scan_with_options null_slice None opts))\<rparr>)) =
   Inr [(RepeatScans, Some Passed), (ConcurrentScans, Some Passed), (PushdownScans, Some Passed)]"
  by code_simp

text \<open>A reader a wrapper refuses is released, and nothing is returned beside the error.\<close>

lemma events_scan_refused:
  "events_scan_with_options new_slice ctx opts = ((r, Some e), released) \<Longrightarrow> r = None \<and> (released \<longleftrightarrow> ctx = None)"
  by (auto simp: events_scan_with_options_def events_scan_def split: option.splits sum.splits)

text \<open>The function called by the engine: the argument column doubled, nulls kept, in wrapping 64-bit arithmetic.\<close>

lemma double_id_evaluated:
  assumes "an_evaluate an = double_id None" "bt_cols rec = [Int64Array xs]" "bt_rows rec = length xs"
  shows "evaluate_batch an (ObjFunction [TInt64] TInt64) rec send =
    send (result_batch TInt64 (length xs) (Int64Array (map (map_option (\<lambda>v. v * 2)) xs)))"
proof -
  have "map (\<lambda>i. map_option (\<lambda>v. v * 2) (xs ! i)) [0..<length xs] = map (map_option (\<lambda>v. v * 2)) xs"
    by (rule nth_equalityI) simp_all
  with assms show ?thesis by (simp add: evaluate_batch_def double_id_def udf_result_def arr_len_def)
qed

end
