(* ===== verification/Spec2Isabelle.thy ===== *)
theory Spec2Isabelle
  imports ExecResult SqlRows Params ProviderReaders Pushdown Sessions Execution NativeExec Callbacks Versions DsnOptions Extensions
    NativeLibrary Genabi ProviderTest NativeCalls DriverCalls Conformance LogicTest ReaderThreads ExampleExtensions
begin

text \<open>
  datafusion-go is a \<^verbatim>\<open>database/sql\<close> driver, with an Arrow interface beside it, over a DataFusion engine that
  is a native library behind a C ABI.  This development models its Go code and states what makes it correct.

  \<^bold>\<open>The program.\<close>  A \<^verbatim>\<open>Connector\<close> opens a native database from a normalized DSN and hands out connections, each
  on an isolated native session or on one shared session.  A connection prepares statements; a statement binds
  normalized parameters and executes under a serialization lock when it may change the session.  The result is an
  Arrow reader: read as \<^verbatim>\<open>database/sql\<close> rows, drained for its affected-row count, or handed to the caller, who
  then owns it together with the lock.  In the other direction the engine calls registered Go table providers, functions and
  catalogs through a table of handles, with pushed projections, filters and limits.  Around this core are the search for the
  native library with the checks of its path and checksum, and the tools that keep the versions and the ABI of the repository in step.

  \<^bold>\<open>Theories and sources.\<close>  Every definition keeps the name of the function it models where that name is free in HOL.
  \<^item> \<open>Prelude\<close>, \<open>GoStrings\<close>, \<open>GoText\<close>, \<open>GoTime\<close>, \<open>GoJson\<close>, \<open>ArrowModel\<close>: results, 64-bit integers and
    what the source uses of Go's \<^verbatim>\<open>strings\<close>, \<^verbatim>\<open>fmt\<close>, \<^verbatim>\<open>strconv\<close>, \<^verbatim>\<open>time\<close> and \<^verbatim>\<open>encoding/json\<close> and of Arrow's data model.
  \<^item> \<open>GoErrors\<close>: \<^verbatim>\<open>errors.go\<close>, \<^verbatim>\<open>internal/native/errors.go\<close>; error trees and how \<^verbatim>\<open>errors.Is\<close> sees them.
  \<^item> \<open>ExecResult\<close>: \<^verbatim>\<open>result.go\<close>.  \<open>SqlRows\<close>: \<^verbatim>\<open>rows.go\<close>.  \<open>Params\<close>: \<^verbatim>\<open>parameters.go\<close>, \<^verbatim>\<open>internal/native/parameters.go\<close>.
  \<^item> \<open>ProviderReaders\<close>: \<^verbatim>\<open>provider_reader.go\<close>, \<^verbatim>\<open>internal/native/record_reader.go\<close>.  \<open>ProviderTest\<close>: \<^verbatim>\<open>providertest/providertest.go\<close>.
    \<open>ExampleExtensions\<close>: the provider, catalog and function of \<^verbatim>\<open>examples/extensions/main.go\<close>.
  \<^item> \<open>Pushdown\<close>: \<^verbatim>\<open>internal/native/expr.go\<close>, and the writer of \<^verbatim>\<open>rust/src/pushdown.rs\<close> it must invert.
  \<^item> \<open>Lifecycle\<close>, \<open>Ownership\<close>, \<open>Sessions\<close>: \<^verbatim>\<open>datafusion.go\<close>, \<^verbatim>\<open>connection.go\<close>, \<^verbatim>\<open>statement.go\<close> over the native handles;
    the state is the record \<open>world\<close>, a heap of connectors, connections and statements with the set of live handles.
  \<^item> \<open>Execution\<close>: \<^verbatim>\<open>execution.go\<close>, \<^verbatim>\<open>context_mutex.go\<close>, \<^verbatim>\<open>arrow.go\<close>, \<^verbatim>\<open>exec.go\<close>.  \<open>DriverCalls\<close>: the calls built from
    these, \<^verbatim>\<open>session.go\<close> included.
  \<^item> \<open>DsnOptions\<close>: the options and the DSN of \<^verbatim>\<open>datafusion.go\<close>.
  \<^item> \<open>NativeExec\<close>, \<open>NativeCalls\<close>: \<^verbatim>\<open>internal/native/native.go\<close>, the execution of a statement with every C resource it
    acquires, and the other calls with their C strings, errors and handles; \<^verbatim>\<open>native_nocgo.go\<close>.  \<open>ReaderThreads\<close>: the result
    reader of the same file used from several goroutines.
  \<^item> \<open>Callbacks\<close>: \<^verbatim>\<open>internal/native/callbacks.go\<close>, \<^verbatim>\<open>callback_arrow.go\<close>.  \<open>Extensions\<close>: \<^verbatim>\<open>extensions.go\<close>,
    \<^verbatim>\<open>ffi_table_provider.go\<close> and the registration calls of \<^verbatim>\<open>native.go\<close>.
  \<^item> \<open>NativeLibrary\<close>: \<^verbatim>\<open>internal/native/library.go\<close>, \<^verbatim>\<open>library_trust*.go\<close>, \<^verbatim>\<open>secure_execution.go\<close>.
  \<^item> \<open>LogicTest\<close>: \<^verbatim>\<open>internal/native/sqllogictest.go\<close>.  \<open>Conformance\<close>: \<^verbatim>\<open>internal/conformance/corpus.go\<close>.
  \<^item> \<open>ToolFiles\<close>, \<open>Versions\<close>, \<open>Genabi\<close>: \<^verbatim>\<open>internal/tools/genversions\<close>, \<^verbatim>\<open>internal/tools/genabi\<close>.

  \<^bold>\<open>State and steps.\<close>  Sequential code is a function from the state to its answer and the next state.  Code that runs
  concurrently is a step relation whose steps are the critical sections of the source: \<open>step\<close> of \<open>Lifecycle\<close> (any
  interleaving of operations on connectors, connections and statements, with the work between two critical sections
  recorded as a task), \<open>query_step\<close> of \<open>Execution\<close> (queries and open results around the lock of each session),
  \<open>callback_step\<close> of \<open>Callbacks\<close> (calls of the engine), \<open>reader_step\<close> of \<open>ReaderThreads\<close> (the calls on one reader, one
  access to shared state at a time, starting from what \<open>execute_arrow\<close> returns), and \<open>ext_step\<close> of \<open>Extensions\<close> (plans and the
  registrations that publish a provider).  Their invariants are proved by rule induction on the reachable states.

  \<^bold>\<open>Interfaces.\<close>  The locale \<open>record_reader\<close> is the contract of \<^verbatim>\<open>array.RecordReader\<close>, \<open>checked_reader\<close> adds that
  batches match the schema; scripts of results, the projecting wrapper over any reader and the panic-safe wrapper over it are its
  interpretations, and the theorems about wrappers, callbacks and the provider suite rest on them.  \<open>context_lock\<close> is the
  contract of the statement lock, interpreted by the channel of \<^verbatim>\<open>context_mutex.go\<close>; \<open>read_write_lock\<close> is that of the
  lock that guards planning, interpreted by the read-write mutex.  Versions are an instance of \<open>linorder\<close>.

  \<^bold>\<open>What is shown.\<close>  Ownership: each live native handle has one owner in every interleaving, each C allocation and each
  result is freed once on every path, each reader of a provider is released once, and failed operations leave
  the state as it was.  Locking: a session lock is held by one query or one open result, waiters get in after a
  close, plans never miss a published provider, concurrent calls on a reader neither race nor deadlock.  Data: parameters, filters, rows, counts, projections, limits and DSN
  options arrive as they were given, and a value that does not fit is an error and never a wrapped number.  Tools:
  generators are idempotent and lossless on what they accept, accepted releases advance, the native library comes from a trusted path.

  \<^bold>\<open>Bounds and fuel.\<close>  \<^verbatim>\<open>int64\<close> values are \<open>64 word\<close> read by \<open>sint\<close>.  The loops over a reader a caller supplies may
  run for ever, so \<open>drain\<close>, \<open>import_loop\<close> and \<open>scan_loop\<close> take fuel; one more than the batches of the reader
  is enough, which is proved for readers with a finite stream, and the termination of the registration is a property.

  \<^bold>\<open>Assumptions.\<close>  Code outside the repository is an argument: the answers of the native library, the context, user callbacks,
  the file system and the network, Arrow's conversions and its IPC writer.  The laws assumed of it are premises of the
  theorems that use them: \<open>slice_law\<close> and \<open>slice_columns\<close> (slicing a batch keeps its fields and takes a range of
  rows), \<open>float_law\<close> (printing and reading a finite float gives it back), \<open>links_resolved\<close> (a resolved path has no link).

  \<^bold>\<open>Simplifications.\<close>  Closing a connection that owns its connector, and the initialization of a shared session, are one
  step each.  In \<open>ReaderThreads\<close> the context may end at any time after \<^verbatim>\<open>ExecuteArrow\<close> has returned a reader; until then the watching
  goroutine can only cancel a token that is live.  The equality of Arrow types is equality of the model's types, and schema metadata is left out.  Scans the
  provider suite runs concurrently own disjoint state and are run one after the other.  The cap on the number of parameters of a
  query string in recent releases of \<^verbatim>\<open>net/url\<close> is left out, as is the failure of a Windows security query.

  \<^bold>\<open>Not modelled.\<close>  The link files \<^verbatim>\<open>internal/native/link_*.go\<close> (linker flags), the generated \<^verbatim>\<open>version.go\<close> and
  \<^verbatim>\<open>version_generated.go\<close>, \<^verbatim>\<open>doc.go\<close>, the constants of \<^verbatim>\<open>secure_execution_{darwin,linux,other}.go\<close> and the C part of
  \<^verbatim>\<open>library_acl_darwin.go\<close> (system calls), \<^verbatim>\<open>test_coverage.go\<close>, the sample programs but for the extensions of one, the tests, the Rust library but for the writer of
  \<^verbatim>\<open>pushdown.rs\<close>, the plain field accessors of \<^verbatim>\<open>parameters.go\<close> and the type aliases of \<^verbatim>\<open>extensions.go\<close>.
\<close>

end
